(* ===== verification/Prelude.thy ===== *)
theory Prelude
  imports Main "HOL-Library.Word" "HOL-Library.Monad_Syntax"
begin

text \<open>
  Shared vocabulary of the development: machine types, Go slices with their run-time
  bounds checks, big-endian words, the printf verbs the code uses, and the generic
  lemmas about them.

  A Go function that can panic returns an \<open>option\<close>: \<open>None\<close> is the run-time panic, and the
  \<open>option\<close> monad propagates it as the language does.  An error return is a value of a
  sum type (\<open>Inl\<close> the error).  So a function that returns \<open>(T, error)\<close> and indexes
  slices has the result type \<open>(goerr + 'a) option\<close>.

  A Go \<open>int\<close> is an \<open>int\<close>; where a 64-bit overflow could matter the wrap-around is
  written out with \<open>wrap64\<close>.  Conversions to \<open>byte\<close>, \<open>uint16\<close> and \<open>uint32\<close> are
  \<open>word_of_int\<close> and truncate as the language's conversions do.
\<close>

unbundle bit_operations_syntax

type_synonym byte = "8 word"
type_synonym uint16 = "16 word"
type_synonym uint32 = "32 word"
type_synonym bytes = "8 word list"

named_theorems go_slice \<open>bounds-checked slice operations inside their bounds\<close>
named_theorems enc_length \<open>lengths of encoded PDUs\<close>

section \<open>Slices\<close>

definition idx :: "'a list \<Rightarrow> nat \<Rightarrow> 'a option" where
  "idx xs i = (if i < length xs then Some (xs ! i) else None)"

definition slice :: "'a list \<Rightarrow> nat \<Rightarrow> nat \<Rightarrow> 'a list option" where
  \<comment> \<open>\<open>xs[i:j]\<close> within the length\<close>
  "slice xs i j = (if i \<le> j \<and> j \<le> length xs then Some (take (j - i) (drop i xs)) else None)"

definition reslice :: "'a list \<Rightarrow> 'a list \<Rightarrow> nat \<Rightarrow> nat \<Rightarrow> 'a list option" where
  \<comment> \<open>\<open>xs[i:j]\<close> up to the capacity: \<open>behind\<close> is what the array of \<open>xs\<close> holds after it\<close>
  "reslice xs behind i j = slice (xs @ behind) i j"

definition copy_at :: "nat \<Rightarrow> 'a list \<Rightarrow> 'a list \<Rightarrow> 'a list" where
  \<comment> \<open>\<open>copy(dst[off:], src)\<close>\<close>
  "copy_at off dst src =
     (let n = min (length dst - off) (length src)
      in take off dst @ take n src @ drop (off + n) dst)"

lemma length_copy_at [simp]: "off \<le> length dst \<Longrightarrow> length (copy_at off dst src) = length dst"
  by (auto simp: copy_at_def Let_def)

lemma idx_in [go_slice]: "i < length xs \<Longrightarrow> idx xs i = Some (xs ! i)"
  by (simp add: idx_def)

lemma idx_out: "length xs \<le> i \<Longrightarrow> idx xs i = None"
  by (simp add: idx_def)

lemma slice_in [go_slice]:
  "i \<le> j \<Longrightarrow> j \<le> length xs \<Longrightarrow> slice xs i j = Some (take (j - i) (drop i xs))"
  by (simp add: slice_def)

lemma slice_out: "\<not> (i \<le> j \<and> j \<le> length xs) \<Longrightarrow> slice xs i j = None"
  by (auto simp: slice_def)

lemma slice_length: "slice xs i j = Some ys \<Longrightarrow> length ys = j - i"
  by (auto simp: slice_def split: if_splits)

lemma idx_eq_None_iff: "idx xs i = None \<longleftrightarrow> length xs \<le> i"
  by (auto simp: idx_def)

lemma slice_eq_None_iff: "slice xs i j = None \<longleftrightarrow> j < i \<or> length xs < j"
  by (auto simp: slice_def)

lemma idx_append_left: "i < length xs \<Longrightarrow> idx (xs @ ys) i = Some (xs ! i)"
  by (simp add: idx_def nth_append)

section \<open>Big-endian words (encoding/binary)\<close>

definition be16 :: "byte \<Rightarrow> byte \<Rightarrow> uint16" where
  "be16 b0 b1 = (ucast b1 :: uint16) OR push_bit 8 (ucast b0)"

definition put16 :: "uint16 \<Rightarrow> bytes" where
  "put16 v = [ucast (drop_bit 8 v), ucast v]"

definition be32 :: "byte \<Rightarrow> byte \<Rightarrow> byte \<Rightarrow> byte \<Rightarrow> uint32" where
  "be32 b0 b1 b2 b3 =
     (ucast b3 :: uint32) OR push_bit 8 (ucast b2) OR push_bit 16 (ucast b1) OR push_bit 24 (ucast b0)"

definition put32 :: "uint32 \<Rightarrow> bytes" where
  "put32 v = [ucast (drop_bit 24 v), ucast (drop_bit 16 v), ucast (drop_bit 8 v), ucast v]"

definition u16_at :: "bytes \<Rightarrow> nat \<Rightarrow> uint16 option" where
  \<comment> \<open>\<open>binary.BigEndian.Uint16(xs[i:i+2])\<close>\<close>
  "u16_at xs i = do { s \<leftarrow> slice xs i (i + 2); b0 \<leftarrow> idx s 0; b1 \<leftarrow> idx s 1; Some (be16 b0 b1) }"

definition u32_at :: "bytes \<Rightarrow> nat \<Rightarrow> uint32 option" where
  "u32_at xs i = do { s \<leftarrow> slice xs i (i + 4); b0 \<leftarrow> idx s 0; b1 \<leftarrow> idx s 1; b2 \<leftarrow> idx s 2;
                      b3 \<leftarrow> idx s 3; Some (be32 b0 b1 b2 b3) }"

lemma u16_at_in [go_slice]: "i + 2 \<le> length xs \<Longrightarrow> u16_at xs i = Some (be16 (xs ! i) (xs ! (i + 1)))"
  by (simp add: u16_at_def slice_def idx_def)

lemma u32_at_in [go_slice]:
  "i + 4 \<le> length xs \<Longrightarrow>
     u32_at xs i = Some (be32 (xs ! i) (xs ! (i + 1)) (xs ! (i + 2)) (xs ! (i + 3)))"
  by (simp add: u32_at_def slice_def idx_def)

lemma length_put16 [simp, enc_length]: "length (put16 v) = 2"
  by (simp add: put16_def)

lemma length_put32 [simp, enc_length]: "length (put32 v) = 4"
  by (simp add: put32_def)

lemma byte_bit_high [simp]: "8 \<le> n \<Longrightarrow> \<not> bit (b :: byte) n"
  using bit_imp_le_length [of b n] by auto

lemma be16_put16 [simp]: "be16 (ucast (drop_bit 8 v)) (ucast v) = v"
  unfolding be16_def
  by (rule bit_word_eqI) (auto simp: bit_simps)

lemma be32_put32 [simp]:
  "be32 (ucast (drop_bit 24 v)) (ucast (drop_bit 16 v)) (ucast (drop_bit 8 v)) (ucast v) = v"
proof (rule bit_word_eqI)
  fix n
  assume n: "n < LENGTH(32)"
  consider "n < 8" | "8 \<le> n" "n < 16" | "16 \<le> n" "n < 24" | "24 \<le> n" "n < 32"
    using n by fastforce
  then show "bit (be32 (ucast (drop_bit 24 v)) (ucast (drop_bit 16 v)) (ucast (drop_bit 8 v)) (ucast v)) n
      = bit v n"
    by cases (auto simp: be32_def bit_simps)
qed

lemma put16_be16 [simp]: "put16 (be16 a b) = [a, b]"
proof -
  have hi: "ucast (drop_bit 8 (be16 a b)) = a"
    unfolding be16_def by (rule bit_word_eqI) (auto simp: bit_simps)
  have lo: "ucast (be16 a b) = b"
    unfolding be16_def by (rule bit_word_eqI) (auto simp: bit_simps)
  show ?thesis by (simp add: put16_def hi lo)
qed

lemma put16_inj [simp]: "put16 v = put16 w \<longleftrightarrow> v = w"
  by (metis be16_put16 put16_def list.inject)

lemma put32_be32 [simp]: "put32 (be32 a b c d) = [a, b, c, d]"
proof -
  have "ucast (drop_bit 24 (be32 a b c d)) = a"
    unfolding be32_def by (rule bit_word_eqI) (auto simp: bit_simps)
  moreover have "ucast (drop_bit 16 (be32 a b c d)) = b"
    unfolding be32_def by (rule bit_word_eqI) (auto simp: bit_simps)
  moreover have "ucast (drop_bit 8 (be32 a b c d)) = c"
    unfolding be32_def by (rule bit_word_eqI) (auto simp: bit_simps)
  moreover have "ucast (be32 a b c d) = d"
    unfolding be32_def by (rule bit_word_eqI) (auto simp: bit_simps)
  ultimately show ?thesis by (simp add: put32_def)
qed

lemma unat_byte_lt: "unat (b :: byte) < 256"
proof -
  have "unat b < 2 ^ LENGTH(8)" by (rule unsigned_less)
  then show ?thesis by simp
qed

lemma unat_u16_lt: "unat (w :: uint16) < 65536"
proof -
  have "unat w < 2 ^ LENGTH(16)" by (rule unsigned_less)
  then show ?thesis by simp
qed

lemma unat_ucast_u16 [simp]: "unat (ucast (b :: byte) :: uint16) = unat b"
  using unat_byte_lt [of b] by (simp add: unsigned_ucast_eq take_bit_nat_eq_self)

lemma unat_be16: "unat (be16 a b) = 256 * unat a + unat b"
proof -
  have disj: "(ucast b :: uint16) AND push_bit 8 (ucast a) = 0"
    by (rule bit_word_eqI) (auto simp: bit_simps dest: bit_imp_le_length)
  have "be16 a b = (ucast b :: uint16) + push_bit 8 (ucast a)"
    unfolding be16_def using disj by (simp add: disjunctive_add_eq_or)
  moreover have "unat (push_bit 8 (ucast a :: uint16)) = 256 * unat a"
    using unat_byte_lt [of a] by (simp add: push_bit_eq_mult unat_word_ariths)
  ultimately show ?thesis
    using unat_byte_lt [of a] unat_byte_lt [of b] by (simp add: unat_word_ariths)
qed

section \<open>64-bit signed integers\<close>

definition wrap64 :: "int \<Rightarrow> int" where
  \<comment> \<open>the value of a Go \<open>int\<close> after an operation whose exact result is the argument\<close>
  "wrap64 x = (x + 2 ^ 63) mod 2 ^ 64 - 2 ^ 63"

definition in64 :: "int \<Rightarrow> bool" where
  "in64 x \<longleftrightarrow> - (2 ^ 63) \<le> x \<and> x < 2 ^ 63"

lemma wrap64_id: "in64 x \<Longrightarrow> wrap64 x = x"
  by (simp add: wrap64_def in64_def)

lemma in64_wrap64: "in64 (wrap64 x)"
  using pos_mod_bound [of "2 ^ 64" "x + 2 ^ 63"] pos_mod_sign [of "2 ^ 64" "x + 2 ^ 63"]
  by (simp add: in64_def wrap64_def)

lemma in64_small: "- (2 ^ 62) \<le> x \<Longrightarrow> x \<le> 2 ^ 62 \<Longrightarrow> in64 x"
  by (simp add: in64_def)

definition go_div :: "int \<Rightarrow> int \<Rightarrow> int" where
  \<comment> \<open>\<open>a / b\<close> for \<open>b \<noteq> 0\<close>: truncated towards zero\<close>
  "go_div a b = sgn a * sgn b * (\<bar>a\<bar> div \<bar>b\<bar>)"

definition go_rem :: "int \<Rightarrow> int \<Rightarrow> int" where
  \<comment> \<open>\<open>a % b\<close> for \<open>b \<noteq> 0\<close>: the sign of the dividend\<close>
  "go_rem a b = a - b * go_div a b"

lemma go_div_nonneg: "0 \<le> a \<Longrightarrow> 0 < b \<Longrightarrow> go_div a b = a div b"
  by (cases "a = 0") (simp_all add: go_div_def)

lemma go_rem_nonneg: "0 \<le> a \<Longrightarrow> 0 < b \<Longrightarrow> go_rem a b = a mod b"
  by (simp add: go_rem_def go_div_nonneg minus_mult_div_eq_mod)

section \<open>printf verbs\<close>

definition hex_digit :: "nat \<Rightarrow> char" where
  "hex_digit n = ''0123456789ABCDEF'' ! n"

definition fmt02X :: "byte \<Rightarrow> string" where
  \<comment> \<open>\<open>%02X\<close> of a byte\<close>
  "fmt02X b = [hex_digit (unat (drop_bit 4 b)), hex_digit (unat (b AND 0x0F))]"

definition fmt04X :: "uint16 \<Rightarrow> string" where
  "fmt04X w = concat (map fmt02X (put16 w))"

fun dec_digits :: "nat \<Rightarrow> string" where
  "dec_digits n = (if n < 10 then [hex_digit n] else dec_digits (n div 10) @ [hex_digit (n mod 10)])"

declare dec_digits.simps [simp del]

definition fmt_d :: "int \<Rightarrow> string" where
  \<comment> \<open>\<open>%d\<close>\<close>
  "fmt_d i = (if i < 0 then ''-'' @ dec_digits (nat (- i)) else dec_digits (nat i))"

lemma dec_digits_nonempty [simp]: "dec_digits n \<noteq> []"
  by (subst dec_digits.simps) simp

lemma unat_nibble_hi: "unat (drop_bit 4 (b :: byte)) < 16"
  using unat_byte_lt [of b] by (simp add: drop_bit_eq_div unat_div)

lemma unat_nibble_lo: "unat ((b :: byte) AND 0x0F) < 16"
proof -
  have "unat (b AND 0x0F) \<le> unat (0x0F :: byte)"
    by (rule word_and_le1 [THEN word_le_nat_alt [THEN iffD1]])
  then show ?thesis by simp
qed

lemma hex_digit_inj: "m < 16 \<Longrightarrow> n < 16 \<Longrightarrow> hex_digit m = hex_digit n \<Longrightarrow> m = n"
proof -
  have "distinct ''0123456789ABCDEF''" by simp
  then show "m < 16 \<Longrightarrow> n < 16 \<Longrightarrow> hex_digit m = hex_digit n \<Longrightarrow> m = n"
    by (simp add: hex_digit_def nth_eq_iff_index_eq)
qed

lemma byte_nibbles: "push_bit 4 (drop_bit 4 (b :: byte)) OR (b AND 0x0F) = b"
proof -
  have m: "(0x0F :: byte) = mask 4" by (simp add: mask_eq_exp_minus_1)
  show ?thesis unfolding m by (rule bit_word_eqI) (auto simp: bit_simps)
qed

lemma fmt02X_inj: "fmt02X a = fmt02X b \<Longrightarrow> a = b"
proof -
  assume "fmt02X a = fmt02X b"
  then have "hex_digit (unat (drop_bit 4 a)) = hex_digit (unat (drop_bit 4 b))"
    and "hex_digit (unat (a AND 0x0F)) = hex_digit (unat (b AND 0x0F))"
    by (simp_all add: fmt02X_def)
  then have "unat (drop_bit 4 a) = unat (drop_bit 4 b)" "unat (a AND 0x0F) = unat (b AND 0x0F)"
    by (blast intro: hex_digit_inj unat_nibble_hi unat_nibble_lo)+
  then have "drop_bit 4 a = drop_bit 4 b" "a AND 0x0F = b AND 0x0F"
    by (simp_all add: word_unat_eq_iff)
  then show "a = b" by (metis byte_nibbles)
qed

section \<open>Generic list lemmas\<close>

lemma take_drop_append [simp]: "length xs = n \<Longrightarrow> take n (xs @ ys) = xs"
  by simp

lemma take_min_length [simp]: "take (min (length xs) n) xs = take n xs"
  by (simp add: min_def)

lemma take_map_upt: "k \<le> n \<Longrightarrow> take k (map f [0..<n]) = map f [0..<k]"
  by (simp add: take_map)

lemma map_upt_add: "map f [0..<m + n] = map f [0..<m] @ map (\<lambda>i. f (m + i)) [0..<n]"
  by (induction n) simp_all

end
