(* ===== verification/Wire_Errors.thy ===== *)
theory Wire_Errors
  imports Prelude
begin

text \<open>
  Error values and the error tables of the wire layer (\<open>wire/errors.go\<close>,
  \<open>wire/param_error.go\<close>), with the standard library's \<open>errors.Is\<close> and \<open>errors.As\<close>.

  Go's \<open>error\<close> is an interface; the type \<open>goerr\<close> has one constructor per dynamic type
  that occurs in the program: the sentinels made by \<open>errors.New\<close>, the error structs of the
  packages \<open>wire\<close> and \<open>client\<close>, the wrappers of \<open>fmt.Errorf\<close> and \<open>errors.Join\<close>,
  a \<open>net.Error\<close> with its \<open>Timeout()\<close> answer and the errors it unwraps to, and an opaque
  error of a package outside the repository, of which only the text is known.
\<close>

section \<open>Error values\<close>

datatype sentinel =
    ErrShortS7Header | ErrInvalidS7ProtocolID | ErrShortS7AckHeader | ErrS7PayloadLength
  | ErrTruncatedItemHeader | ErrTruncatedItemPayload | ErrInvalidParamLength | ErrInvalidDataLength
  | ErrConnectionNotEstablished
  | ErrNotConnected | ErrProtocolFailure | ErrRequestExceedsPDU | ErrNilReadResult
  | DeadlineExceeded | Canceled

record S7Error =
  s7Class :: byte
  s7Code :: byte
  s7Message :: string

datatype goerr =
    Sentinel sentinel
  | S7Err S7Error
  | ValidationError string
  | PDURefMismatchError uint16 uint16
  | UnsupportedSyntaxError byte
  | ReadOutcomeError string "goerr list"
  | Errorf string goerr string
  | ErrorText string
  | Joined "goerr list"
  | NetError string bool "goerr list"

fun sentinel_text :: "sentinel \<Rightarrow> string" where
  "sentinel_text ErrShortS7Header = ''data too short for S7 header''"
| "sentinel_text ErrInvalidS7ProtocolID = ''invalid S7 protocol ID''"
| "sentinel_text ErrShortS7AckHeader = ''data too short for S7 ack header''"
| "sentinel_text ErrS7PayloadLength = ''S7 payload shorter than parameter/data lengths''"
| "sentinel_text ErrTruncatedItemHeader = ''read response item header truncated''"
| "sentinel_text ErrTruncatedItemPayload = ''read response item payload truncated or overrun''"
| "sentinel_text ErrInvalidParamLength = ''invalid parameter section length''"
| "sentinel_text ErrInvalidDataLength = ''invalid data section length''"
| "sentinel_text ErrConnectionNotEstablished = ''connection not established''"
| "sentinel_text ErrNotConnected = ''not connected''"
| "sentinel_text ErrProtocolFailure = ''protocol failure''"
| "sentinel_text ErrRequestExceedsPDU = ''request exceeds negotiated PDU size''"
| "sentinel_text ErrNilReadResult = ''read result is nil''"
| "sentinel_text DeadlineExceeded = ''context deadline exceeded''"
| "sentinel_text Canceled = ''context canceled''"

definition S7Error_Error :: "S7Error \<Rightarrow> string" where
  "S7Error_Error e =
     (if s7Message e \<noteq> '''' then s7Message e
      else ''S7 error: class=0x'' @ fmt02X (s7Class e) @ '', code=0x'' @ fmt02X (s7Code e))"

definition PDURefMismatchError_Error :: "uint16 \<Rightarrow> uint16 \<Rightarrow> string" where
  "PDURefMismatchError_Error expected got =
     ''S7 response PDU ref mismatch: expected '' @ fmt_d (uint expected) @ '', got '' @ fmt_d (uint got)"

definition hexByte :: "byte \<Rightarrow> string" where
  "hexByte b = [''0123456789ABCDEF'' ! unat (drop_bit 4 b), ''0123456789ABCDEF'' ! unat (b AND 0x0F)]"

definition UnsupportedSyntaxError_Error :: "byte \<Rightarrow> string" where
  "UnsupportedSyntaxError_Error b = ''unsupported syntax ID 0x'' @ hexByte b"

fun join_lines :: "string list \<Rightarrow> string" where
  "join_lines [] = ''''"
| "join_lines [s] = s"
| "join_lines (s # ss) = s @ [CHR 0x0A] @ join_lines ss"

fun err_text :: "goerr \<Rightarrow> string" where
  \<comment> \<open>\<open>err.Error()\<close>\<close>
  "err_text (Sentinel s) = sentinel_text s"
| "err_text (S7Err e) = S7Error_Error e"
| "err_text (ValidationError m) = m"
| "err_text (PDURefMismatchError e g) = PDURefMismatchError_Error e g"
| "err_text (UnsupportedSyntaxError b) = UnsupportedSyntaxError_Error b"
| "err_text (ReadOutcomeError m _) = m"
| "err_text (Errorf pre e post) = pre @ err_text e @ post"
| "err_text (ErrorText m) = m"
| "err_text (Joined es) = join_lines (map err_text es)"
| "err_text (NetError m _ _) = m"

fun errors_Is :: "goerr \<Rightarrow> sentinel \<Rightarrow> bool" where
  "errors_Is (Sentinel s) t = (s = t)"
| "errors_Is (Errorf _ e _) t = errors_Is e t"
| "errors_Is (Joined es) t = list_ex (\<lambda>e. errors_Is e t) es"
| "errors_Is (NetError _ _ es) t = list_ex (\<lambda>e. errors_Is e t) es"
| "errors_Is (ReadOutcomeError _ es) t = list_ex (\<lambda>e. errors_Is e t) es"
| "errors_Is (S7Err _) t = False"
| "errors_Is (ValidationError _) t = False"
| "errors_Is (PDURefMismatchError _ _) t = False"
| "errors_Is (UnsupportedSyntaxError _) t = False"
| "errors_Is (ErrorText _) t = False"

definition first_some :: "('a \<Rightarrow> 'b option) \<Rightarrow> 'a list \<Rightarrow> 'b option" where
  "first_some f xs = foldr (\<lambda>x r. case f x of Some y \<Rightarrow> Some y | None \<Rightarrow> r) xs None"

lemma first_some_cong [fundef_cong]:
  "xs = ys \<Longrightarrow> (\<And>x. x \<in> set ys \<Longrightarrow> f x = g x) \<Longrightarrow> first_some f xs = first_some g ys"
  unfolding first_some_def by (auto intro: foldr_cong)

lemma first_some_simps [simp]:
  "first_some f [] = None"
  "first_some f (x # xs) = (case f x of Some y \<Rightarrow> Some y | None \<Rightarrow> first_some f xs)"
  unfolding first_some_def by simp_all

fun errors_As_S7 :: "goerr \<Rightarrow> S7Error option" where
  \<comment> \<open>\<open>errors.As(err, &s7Err)\<close>: the first \<open>*wire.S7Error\<close> of the tree, depth first\<close>
  "errors_As_S7 (S7Err e) = Some e"
| "errors_As_S7 (Errorf _ e _) = errors_As_S7 e"
| "errors_As_S7 (Joined es) = first_some errors_As_S7 es"
| "errors_As_S7 (NetError _ _ es) = first_some errors_As_S7 es"
| "errors_As_S7 (ReadOutcomeError _ es) = first_some errors_As_S7 es"
| "errors_As_S7 (Sentinel _) = None"
| "errors_As_S7 (ValidationError _) = None"
| "errors_As_S7 (PDURefMismatchError _ _) = None"
| "errors_As_S7 (UnsupportedSyntaxError _) = None"
| "errors_As_S7 (ErrorText _) = None"

fun errors_As_net :: "goerr \<Rightarrow> bool option" where
  \<comment> \<open>\<open>errors.As(err, &netErr)\<close> with the found value's \<open>Timeout()\<close>; the standard library's
     \<open>context.DeadlineExceeded\<close> is itself a \<open>net.Error\<close> whose \<open>Timeout()\<close> is true\<close>
  "errors_As_net (NetError _ t _) = Some t"
| "errors_As_net (Sentinel s) = (if s = DeadlineExceeded then Some True else None)"
| "errors_As_net (Errorf _ e _) = errors_As_net e"
| "errors_As_net (Joined es) = first_some errors_As_net es"
| "errors_As_net (ReadOutcomeError _ es) = first_some errors_As_net es"
| "errors_As_net (S7Err _) = None"
| "errors_As_net (ValidationError _) = None"
| "errors_As_net (PDURefMismatchError _ _) = None"
| "errors_As_net (UnsupportedSyntaxError _) = None"
| "errors_As_net (ErrorText _) = None"

section \<open>Error classes and return codes\<close>

definition ErrClassNoError :: byte where "ErrClassNoError = 0x00"
definition ErrClassApp :: byte where "ErrClassApp = 0x81"
definition ErrClassObject :: byte where "ErrClassObject = 0x82"
definition ErrClassResource :: byte where "ErrClassResource = 0x83"
definition ErrClassService :: byte where "ErrClassService = 0x84"
definition ErrClassSupplies :: byte where "ErrClassSupplies = 0x85"
definition ErrClassAccess :: byte where "ErrClassAccess = 0x87"

lemmas errclass_defs = ErrClassNoError_def ErrClassApp_def ErrClassObject_def ErrClassResource_def
  ErrClassService_def ErrClassSupplies_def ErrClassAccess_def

definition errClassNames :: "(byte \<times> string) list" where
  "errClassNames =
    [(ErrClassNoError, ''No error''), (ErrClassApp, ''Application relationship''),
     (ErrClassObject, ''Object definition''), (ErrClassResource, ''No resources available''),
     (ErrClassService, ''Error on service processing''), (ErrClassSupplies, ''Error on supplies''),
     (ErrClassAccess, ''Access error'')]"

definition ErrClassString :: "byte \<Rightarrow> string" where
  "ErrClassString c = (case map_of errClassNames c of Some s \<Rightarrow> s | None \<Rightarrow> ''class 0x'' @ fmt02X c)"

definition RetCodeSuccess :: byte where "RetCodeSuccess = 0xFF"
definition RetCodeHWFault :: byte where "RetCodeHWFault = 0x01"
definition RetCodeAccessFault :: byte where "RetCodeAccessFault = 0x03"
definition RetCodeAddressFault :: byte where "RetCodeAddressFault = 0x05"
definition RetCodeDataTypeFault :: byte where "RetCodeDataTypeFault = 0x06"
definition RetCodeDataSizeFault :: byte where "RetCodeDataSizeFault = 0x07"
definition RetCodeBusy :: byte where "RetCodeBusy = 0x09"
definition RetCodeNotAvailable :: byte where "RetCodeNotAvailable = 0x0A"

lemmas retcode_defs = RetCodeSuccess_def RetCodeHWFault_def RetCodeAccessFault_def
  RetCodeAddressFault_def RetCodeDataTypeFault_def RetCodeDataSizeFault_def RetCodeBusy_def
  RetCodeNotAvailable_def

definition HeaderErrorString :: "byte \<Rightarrow> byte \<Rightarrow> string" where
  "HeaderErrorString cls code =
     (if cls = ErrClassNoError then
        (if code = 0 then ''''
         else ''header error class=0x'' @ fmt02X cls @ '' code=0x'' @ fmt02X code)
      else if cls = ErrClassAccess then
        (if code = 0x00 then ''no access rights''
         else if code = 0x01 then ''invalid address''
         else if code = 0x04 then ''invalid data type''
         else ''access error code=0x'' @ fmt02X code)
      else if cls = ErrClassObject then ''object does not exist''
      else if cls = ErrClassResource then ''resource busy''
      else ''S7 error class=0x'' @ fmt02X cls @ '' code=0x'' @ fmt02X code)"

definition ItemReturnCodeString :: "byte \<Rightarrow> string" where
  "ItemReturnCodeString code =
     (if code = RetCodeSuccess then ''success''
      else if code = RetCodeHWFault then ''hardware fault''
      else if code = RetCodeAccessFault then ''access denied''
      else if code = RetCodeAddressFault then ''invalid address''
      else if code = RetCodeDataTypeFault then ''data type not supported''
      else if code = RetCodeDataSizeFault then ''data size mismatch''
      else if code = RetCodeBusy then ''object busy''
      else if code = RetCodeNotAvailable then ''object not available''
      else ''return code 0x'' @ fmt02X code)"

definition ReturnCodeError :: "byte \<Rightarrow> goerr option" where
  "ReturnCodeError code =
     (if code = RetCodeSuccess then None
      else Some (S7Err \<lparr>s7Class = 0, s7Code = code, s7Message = ItemReturnCodeString code\<rparr>))"

section \<open>Parameter error codes\<close>

definition paramErrorCodeNames :: "(uint16 \<times> string) list" where
  "paramErrorCodeNames =
   [(0x0000, ''no error''), (0x0110, ''invalid block number''),
     (0x0111, ''invalid request length''), (0x0112, ''invalid parameter''),
     (0x0113, ''invalid block type''), (0x0114, ''block not found''),
     (0x0115, ''block already exists''), (0x0116, ''block is write-protected''),
     (0x0117, ''block/OS update too large''), (0x0118, ''invalid block number''),
     (0x0119, ''incorrect password''), (0x011A, ''PG resource error''),
     (0x011B, ''PLC resource error''), (0x011C, ''protocol error''),
     (0x011D, ''too many blocks (module restriction)''),
     (0x011E, ''no connection to database or invalid S7DOS handle''),
     (0x011F, ''result buffer too small''), (0x0120, ''end of block list''),
     (0x0140, ''insufficient memory''), (0x0141, ''job cannot be processed (lack of resources)''),
     (0x8001, ''service cannot be performed while block is in current status''),
     (0x8003, ''S7 protocol error: error while transferring block''),
     (0x8100, ''application error: service unknown to remote module''),
     (0x8104, ''service not implemented or frame error''),
     (0x8204, ''type specification for object inconsistent''),
     (0x8205, ''copied block already exists and is not linked''),
     (0x8301, ''insufficient memory or storage medium not accessible''),
     (0x8302, ''too few resources or processor resources not available''),
     (0x8304, ''no further parallel upload possible (resource bottleneck)''),
     (0x8305, ''function not available''), (0x8306, ''insufficient work memory''),
     (0x8307, ''not enough retentive work memory''),
     (0x8401, ''S7 protocol error: invalid service sequence''),
     (0x8402, ''service cannot execute (status of addressed object)''),
     (0x8404, ''S7 protocol: function cannot be performed''),
     (0x8405, ''remote block in DISABLE state (CFB)''),
     (0x8500, ''S7 protocol error: wrong frames''),
     (0x8503, ''alarm from module: service canceled prematurely''),
     (0x8701, ''error addressing object (e.g. area length error)''),
     (0x8702, ''requested service not supported by module''),
     (0x8703, ''access to object refused''), (0x8704, ''access error: object damaged''),
     (0xD001, ''protocol error: illegal job number''),
     (0xD002, ''parameter error: illegal job variant''),
     (0xD003, ''parameter error: debugging function not supported by module''),
     (0xD004, ''parameter error: illegal job status''),
     (0xD005, ''parameter error: illegal job termination''),
     (0xD006, ''parameter error: illegal link disconnection ID''),
     (0xD007, ''parameter error: illegal number of buffer elements''),
     (0xD008, ''parameter error: illegal scan rate''),
     (0xD009, ''parameter error: illegal number of executions''),
     (0xD00A, ''parameter error: illegal trigger event''),
     (0xD00B, ''parameter error: illegal trigger condition''),
     (0xD011, ''parameter error: block does not exist''),
     (0xD012, ''parameter error: wrong address in block''),
     (0xD014, ''parameter error: block being deleted/overwritten''),
     (0xD015, ''parameter error: illegal tag address''),
     (0xD016, ''parameter error: test jobs not possible (errors in user program)''),
     (0xD017, ''parameter error: illegal trigger number''),
     (0xD025, ''parameter error: invalid path''), (0xD031, ''internal protocol error''),
     (0xD032, ''parameter error: wrong result buffer length''),
     (0xD033, ''protocol error: wrong job length''),
     (0xD03F, ''coding error in parameter section''),
     (0xD041, ''data error: illegal status list ID''),
     (0xD042, ''data error: illegal tag address''),
     (0xD043, ''data error: referenced job not found''),
     (0xD044, ''data error: illegal tag value''),
     (0xD045, ''data error: exiting ODIS control not allowed in HOLD''),
     (0xD046, ''data error: illegal measuring stage (run-time measurement)''),
     (0xD047, ''data error: illegal hierarchy in Read job list''),
     (0xD048, ''data error: illegal deletion ID in Delete job''),
     (0xD049, ''invalid substitute ID in Replace job''),
     (0xD04A, ''error executing program status''), (0xD05F, ''coding error in data section''),
     (0xD061, ''resource error: no memory space for job''),
     (0xD062, ''resource error: job list full''),
     (0xD063, ''resource error: trigger event occupied''),
     (0xD081, ''function not permitted in current mode''),
     (0xD082, ''mode error: cannot exit HOLD mode''),
     (0xD0A1, ''function not permitted in current protection level''),
     (0xD0A2, ''function not possible (function modifying memory running)''),
     (0xD0A3, ''too many modify tag jobs active on I/O''),
     (0xD0A4, ''forcing has already been established''), (0xD0A5, ''referenced job not found''),
     (0xD0A6, ''job cannot be disabled/enabled''),
     (0xD0A7, ''job cannot be deleted (e.g. currently being read)''),
     (0xD0A8, ''job cannot be replaced (e.g. being read or deleted)''),
     (0xD0A9, ''job cannot be read (e.g. currently being deleted)''),
     (0xD0AA, ''time limit exceeded in processing operation''),
     (0xD0AB, ''invalid job parameters in process operation''),
     (0xD0AC, ''invalid job data in process operation''), (0xD0AD, ''operating mode already set''),
     (0xD0AE, ''job set up over different connection''),
     (0xD0C1, ''at least one error while accessing tag(s)''),
     (0xD0C2, ''change to STOP/HOLD mode''), (0xD201, ''syntax error in block name''),
     (0xD202, ''syntax error in function parameters''),
     (0xD209, ''one of the given blocks not found on module''),
     (0xD20E, ''no (further) block available''), (0xD210, ''invalid block number''),
     (0xD216, ''invalid user program - reset module''),
     (0xD231, ''loaded OB cannot be copied (priority class does not exist)''),
     (0xD232, ''block number of loaded block illegal''), (0xD234, ''block exists twice''),
     (0xD235, ''block contains incorrect checksum''),
     (0xD241, ''function not permitted in current protection level''),
     (0xD250, ''update and module ID or version do not match''),
     (0xD251, ''incorrect sequence of operating system components''), (0xD252, ''checksum error''),
     (0xD2A1, ''another block function or trigger on block active''),
     (0xD2A2, ''trigger active on block; complete debugging first''),
     (0xD2A3, ''block not active (linked), occupied, or marked for deletion''),
     (0xD2A4, ''block already being processed by another block function''),
     (0xD401, ''information function unavailable''),
     (0xD402, ''information function unavailable''),
     (0xD601, ''syntax error in function parameter''), (0xD602, ''incorrect password entered''),
     (0xD801, ''at least one tag address invalid''), (0xD802, ''specified job does not exist''),
     (0xDC01, ''date and/or time invalid'')]"

definition ParamErrorCodeString :: "uint16 \<Rightarrow> string" where
  "ParamErrorCodeString code =
     (case map_of paramErrorCodeNames code of
        Some s \<Rightarrow> s
      | None \<Rightarrow> ''parameter error 0x'' @ fmt04X code)"

definition ParamErrorFromParam :: "bytes \<Rightarrow> (uint16 \<times> bool) option" where
  "ParamErrorFromParam param =
     (if length param < 4 then Some (0, False)
      else do { c \<leftarrow> u16_at param 2; Some (c, True) })"

section \<open>S7 errors\<close>

definition NewS7Error :: "byte \<Rightarrow> byte \<Rightarrow> S7Error" where
  "NewS7Error cls code = \<lparr>s7Class = cls, s7Code = code, s7Message = HeaderErrorString cls code\<rparr>"

definition NewS7ErrorWithParam :: "byte \<Rightarrow> byte \<Rightarrow> bytes \<Rightarrow> S7Error option" where
  "NewS7ErrorWithParam cls code param =
     do { (paramCode, ok) \<leftarrow> ParamErrorFromParam param;
          let e = NewS7Error cls code;
          Some (if ok \<and> paramCode \<noteq> 0 then e\<lparr>s7Message := ParamErrorCodeString paramCode\<rparr> else e) }"

abbreviation s7msg :: "string \<Rightarrow> goerr" where
  \<comment> \<open>\<open>&S7Error{Message: m}\<close>\<close>
  "s7msg m \<equiv> S7Err \<lparr>s7Class = 0, s7Code = 0, s7Message = m\<rparr>"

section \<open>Lemmas\<close>

lemma ReturnCodeError_None_iff [simp]: "ReturnCodeError code = None \<longleftrightarrow> code = RetCodeSuccess"
  by (simp add: ReturnCodeError_def)

lemma ReturnCodeError_success [simp]: "ReturnCodeError RetCodeSuccess = None"
  by simp

lemma ReturnCodeError_Some_iff:
  "ReturnCodeError code = Some e \<longleftrightarrow>
     code \<noteq> RetCodeSuccess \<and>
     e = S7Err \<lparr>s7Class = 0, s7Code = code, s7Message = ItemReturnCodeString code\<rparr>"
  by (auto simp: ReturnCodeError_def)

lemma ParamErrorFromParam_total:
  "ParamErrorFromParam param =
     Some (if length param < 4 then (0, False) else (be16 (param ! 2) (param ! 3), True))"
  by (simp add: ParamErrorFromParam_def go_slice numeral_eq_Suc)

lemma NewS7Error_sel [simp]:
  "s7Class (NewS7Error c k) = c" "s7Code (NewS7Error c k) = k"
  "s7Message (NewS7Error c k) = HeaderErrorString c k"
  by (simp_all add: NewS7Error_def)

lemma NewS7ErrorWithParam_eq:
  "NewS7ErrorWithParam c k param =
     Some (if 4 \<le> length param \<and> be16 (param ! 2) (param ! 3) \<noteq> 0
           then (NewS7Error c k)\<lparr>s7Message := ParamErrorCodeString (be16 (param ! 2) (param ! 3))\<rparr>
           else NewS7Error c k)"
  by (simp add: NewS7ErrorWithParam_def ParamErrorFromParam_total)

lemma NewS7ErrorWithParam_raw:
  "\<exists>e. NewS7ErrorWithParam c k param = Some e \<and> s7Class e = c \<and> s7Code e = k"
  by (simp add: NewS7ErrorWithParam_eq)

lemma HeaderErrorString_nonempty:
  "c \<noteq> 0 \<or> k \<noteq> 0 \<Longrightarrow> HeaderErrorString c k \<noteq> ''''"
  by (auto simp: HeaderErrorString_def errclass_defs)

end
