(* ===== verification/Wire_Header.thy ===== *)
theory Wire_Header
  imports Wire_Errors
begin

text \<open>
  The S7 header and the set-up PDUs (\<open>wire/s7.go\<close>, \<open>wire/cotp.go\<close>, \<open>wire/pdu_setup.go\<close>,
  \<open>wire/inspect.go\<close>).

  The COTP and TPKT codecs are the packages \<open>go-cotp\<close> and \<open>go-tpkt\<close>, which are not part of
  the repository: they are the record parameters \<open>cotp_lib\<close> and \<open>tpkt_lib\<close> of the
  definitions that call them, and the theorems that need a law of theirs state it as a
  hypothesis.
\<close>

section \<open>Message types and function codes\<close>

type_synonym ROSCTR = byte

definition ROSCTRJob :: ROSCTR where "ROSCTRJob = 0x01"
definition ROSCTRAck :: ROSCTR where "ROSCTRAck = 0x02"
definition ROSCTRAckData :: ROSCTR where "ROSCTRAckData = 0x03"
definition ROSCTRUserdata :: ROSCTR where "ROSCTRUserdata = 0x07"

lemmas rosctr_defs = ROSCTRJob_def ROSCTRAck_def ROSCTRAckData_def ROSCTRUserdata_def

definition IsAck :: "ROSCTR \<Rightarrow> bool" where "IsAck r \<longleftrightarrow> r = ROSCTRAck"
definition IsAckData :: "ROSCTR \<Rightarrow> bool" where "IsAckData r \<longleftrightarrow> r = ROSCTRAckData"
definition IsJob :: "ROSCTR \<Rightarrow> bool" where "IsJob r \<longleftrightarrow> r = ROSCTRJob"
definition IsUserdata :: "ROSCTR \<Rightarrow> bool" where "IsUserdata r \<longleftrightarrow> r = ROSCTRUserdata"

definition FuncSetupComm :: byte where "FuncSetupComm = 0xF0"
definition FuncReadVar :: byte where "FuncReadVar = 0x04"
definition FuncWriteVar :: byte where "FuncWriteVar = 0x05"
definition FuncDownloadStart :: byte where "FuncDownloadStart = 0x1A"
definition FuncDownload :: byte where "FuncDownload = 0x1B"
definition FuncDownloadEnd :: byte where "FuncDownloadEnd = 0x1C"
definition FuncUploadStart :: byte where "FuncUploadStart = 0x1D"
definition FuncUpload :: byte where "FuncUpload = 0x1E"
definition FuncUploadEnd :: byte where "FuncUploadEnd = 0x1F"
definition FuncPIService :: byte where "FuncPIService = 0x28"
definition FuncPLCStop :: byte where "FuncPLCStop = 0x29"
definition FuncPLCControl :: byte where "FuncPLCControl = 0x28"

lemmas func_defs = FuncSetupComm_def FuncReadVar_def FuncWriteVar_def FuncDownloadStart_def
  FuncDownload_def FuncDownloadEnd_def FuncUploadStart_def FuncUpload_def FuncUploadEnd_def
  FuncPIService_def FuncPLCStop_def FuncPLCControl_def

definition functionCodeNames :: "(byte \<times> string) list" where
  "functionCodeNames =
    [(0x00, ''CPU services''), (0x01, ''Mode transition''),
     (FuncSetupComm, ''Setup communication''), (FuncReadVar, ''Read Var''),
     (FuncWriteVar, ''Write Var''), (FuncDownloadStart, ''Request download''),
     (FuncDownload, ''Download block''), (FuncDownloadEnd, ''Download ended''),
     (FuncUploadStart, ''Start upload''), (FuncUpload, ''Upload''), (FuncUploadEnd, ''End upload''),
     (FuncPIService, ''PI-Service''), (FuncPLCStop, ''PLC Stop'')]"

definition FunctionCodeString :: "byte \<Rightarrow> string" where
  "FunctionCodeString code =
     (case map_of functionCodeNames code of Some s \<Rightarrow> s | None \<Rightarrow> ''0x'' @ fmt02X code)"

section \<open>The S7 header\<close>

record S7Header =
  hProtocolID :: byte
  hROSCTR :: ROSCTR
  hRedundancyID :: uint16
  hPDURef :: uint16
  hParamLength :: uint16
  hDataLength :: uint16
  hErrorClass :: byte
  hErrorCode :: byte

definition S7HeaderSize :: nat where "S7HeaderSize = 10"

definition EncodeS7Header :: "ROSCTR \<Rightarrow> uint16 \<Rightarrow> int \<Rightarrow> int \<Rightarrow> bytes" where
  "EncodeS7Header rosctr pduRef paramLen dataLen =
     [0x32, rosctr] @ put16 0 @ put16 pduRef @ put16 (word_of_int paramLen) @
     put16 (word_of_int dataLen)"

definition ParseS7Header :: "bytes \<Rightarrow> (goerr + S7Header \<times> bytes) option" where
  "ParseS7Header data =
     (if length data < S7HeaderSize then Some (Inl (Sentinel ErrShortS7Header))
      else do {
        p \<leftarrow> idx data 0;
        if p \<noteq> 0x32 then
          Some (Inl (Errorf '''' (Sentinel ErrInvalidS7ProtocolID) ('': got 0x'' @ fmt02X p)))
        else do {
          r \<leftarrow> idx data 1;
          red \<leftarrow> u16_at data 2;
          pref \<leftarrow> u16_at data 4;
          plen \<leftarrow> u16_at data 6;
          dlen \<leftarrow> u16_at data 8;
          let h = \<lparr>hProtocolID = p, hROSCTR = r, hRedundancyID = red, hPDURef = pref,
                   hParamLength = plen, hDataLength = dlen, hErrorClass = 0, hErrorCode = 0\<rparr>;
          if (IsAckData r \<or> IsAck r) \<and> length data < S7HeaderSize + 2 then
            Some (Inl (Sentinel ErrShortS7AckHeader))
          else do {
            (h, offset) \<leftarrow>
              (if IsAckData r \<or> IsAck r then do {
                 ec \<leftarrow> idx data 10;
                 ek \<leftarrow> idx data 11;
                 Some (h\<lparr>hErrorClass := ec, hErrorCode := ek\<rparr>, 12) }
               else Some (h, S7HeaderSize));
            let need = unat (hParamLength h) + unat (hDataLength h);
            rest \<leftarrow> slice data offset (length data);
            if length rest < need then
              Some (Inl (Errorf '''' (Sentinel ErrS7PayloadLength)
                (('': need '' @ fmt_d (int need)) @ ('', got '' @ fmt_d (int (length rest))))))
            else Some (Inr (h, rest)) } } })"

section \<open>Rack, slot and TSAP\<close>

definition EncodeRackSlotTSAP :: "byte \<Rightarrow> byte \<Rightarrow> byte" where
  "EncodeRackSlotTSAP rack slot = (push_bit 5 (rack AND 0x07)) OR (slot AND 0x1F)"

definition ValidateRackSlot :: "int \<Rightarrow> int \<Rightarrow> goerr option" where
  "ValidateRackSlot rack slot =
     (if rack < 0 \<or> rack > 7 then Some (ErrorText (''rack must be 0..7, got '' @ fmt_d rack))
      else if slot < 0 \<or> slot > 31 then Some (ErrorText (''slot must be 0..31, got '' @ fmt_d slot))
      else None)"

definition BuildTSAP :: "int \<Rightarrow> int \<Rightarrow> int \<Rightarrow> goerr + uint16" where
  "BuildTSAP connType rack slot =
     (case ValidateRackSlot rack slot of
        Some err \<Rightarrow> Inl err
      | None \<Rightarrow>
          let low = EncodeRackSlotTSAP (word_of_int rack) (word_of_int slot)
          in Inr (push_bit 8 (word_of_int connType) OR ucast low))"

section \<open>COTP and TPKT\<close>

record COTP_CR =
  crCDT :: byte
  crDestinationRef :: uint16
  crSourceRef :: uint16
  crClassOption :: byte
  crCallingSelector :: bytes
  crCalledSelector :: bytes
  crTPDUSize :: "byte option"

record COTP_DT =
  dtEOT :: bool
  dtUserData :: bytes

record COTP_Decoded =
  decType :: byte
  decDT :: "COTP_DT option"

record cotp_lib =
  cotp_MarshalCR :: "COTP_CR \<Rightarrow> goerr + bytes"
  cotp_MarshalDT :: "COTP_DT \<Rightarrow> goerr + bytes"
  cotp_Decode :: "bytes \<Rightarrow> goerr + COTP_Decoded"
  cotp_TypeCC :: byte
  cotp_TypeString :: "byte \<Rightarrow> string"

record TPKT_Frame =
  tpPayload :: bytes
  tpLen :: int

record tpkt_lib =
  tpkt_Parse :: "bytes \<Rightarrow> goerr + TPKT_Frame"

definition EncodeCOTPCR :: "cotp_lib \<Rightarrow> uint16 \<Rightarrow> uint16 \<Rightarrow> goerr + bytes" where
  "EncodeCOTPCR C localTSAP remoteTSAP =
     cotp_MarshalCR C
       \<lparr>crCDT = 0, crDestinationRef = 0, crSourceRef = 0, crClassOption = 0,
        crCallingSelector = put16 localTSAP, crCalledSelector = put16 remoteTSAP,
        crTPDUSize = Some 0x0A\<rparr>"

definition EncodeCOTPDT :: "cotp_lib \<Rightarrow> bytes \<Rightarrow> goerr + bytes" where
  "EncodeCOTPDT C s7Payload = cotp_MarshalDT C \<lparr>dtEOT = True, dtUserData = s7Payload\<rparr>"

section \<open>Setup Communication\<close>

definition EncodeSetupCommRequest :: "uint16 \<Rightarrow> int \<Rightarrow> int \<Rightarrow> int \<Rightarrow> bytes" where
  "EncodeSetupCommRequest pduRef maxAmqCalling maxAmqCalled pduSize =
     (let param = [FuncSetupComm, 0x00] @ put16 (word_of_int maxAmqCalling) @
                  put16 (word_of_int maxAmqCalled) @ put16 (word_of_int pduSize)
      in EncodeS7Header ROSCTRJob pduRef (int (length param)) 0 @ param)"

record SetupCommResponse =
  scMaxAmqCalling :: int
  scMaxAmqCalled :: int
  scPDUSize :: int

definition ParseSetupCommResponse :: "bytes \<Rightarrow> (goerr + SetupCommResponse) option" where
  "ParseSetupCommResponse data =
     (if length data < 8 then Some (Inl (s7msg ''setup comm response too short''))
      else do {
        f \<leftarrow> idx data 0;
        if f \<noteq> FuncSetupComm then Some (Inl (s7msg ''not a setup comm response''))
        else do {
          a \<leftarrow> u16_at data 2;
          b \<leftarrow> u16_at data 4;
          p \<leftarrow> u16_at data 6;
          Some (Inr \<lparr>scMaxAmqCalling = uint a, scMaxAmqCalled = uint b, scPDUSize = uint p\<rparr>) } })"

section \<open>Frame inspection\<close>

record FrameSummary =
  fsTPKTLength :: int
  fsCOTPType :: byte
  fsROSCTR :: byte
  fsFunction :: byte
  fsParamLength :: int
  fsDataLength :: int
  fsErrorClass :: byte
  fsErrorCode :: byte

definition InspectFrame :: "tpkt_lib \<Rightarrow> cotp_lib \<Rightarrow> bytes \<Rightarrow> (goerr + FrameSummary) option" where
  "InspectFrame T C frame =
     (case tpkt_Parse T frame of
        Inl err \<Rightarrow> Some (Inl (Errorf ''parse tpkt: '' err ''''))
      | Inr f \<Rightarrow>
        (case cotp_Decode C (tpPayload f) of
           Inl err \<Rightarrow> Some (Inl (Errorf ''parse cotp: '' err ''''))
         | Inr dec \<Rightarrow>
             let s = \<lparr>fsTPKTLength = tpLen f, fsCOTPType = decType dec, fsROSCTR = 0, fsFunction = 0,
                      fsParamLength = 0, fsDataLength = 0, fsErrorClass = 0, fsErrorCode = 0\<rparr>;
                 s7Payload = (case decDT dec of None \<Rightarrow> [] | Some dt \<Rightarrow> dtUserData dt)
             in if length s7Payload = 0 then Some (Inr s)
                else do {
                  p \<leftarrow> idx s7Payload 0;
                  if p \<noteq> 0x32 then Some (Inr s)
                  else do {
                    r \<leftarrow> ParseS7Header s7Payload;
                    case r of
                      Inl err \<Rightarrow> Some (Inl (Errorf ''parse s7 header: '' err ''''))
                    | Inr (h, rest) \<Rightarrow> do {
                        let s = s\<lparr>fsROSCTR := hROSCTR h, fsParamLength := uint (hParamLength h),
                                  fsDataLength := uint (hDataLength h),
                                  fsErrorClass := hErrorClass h, fsErrorCode := hErrorCode h\<rparr>;
                        if length rest > 0 then do {
                          f0 \<leftarrow> idx rest 0;
                          Some (Inr (s\<lparr>fsFunction := f0\<rparr>)) }
                        else Some (Inr s) } } }))"

section \<open>The header parser on every input\<close>

definition s7_offset :: "bytes \<Rightarrow> nat" where
  \<comment> \<open>where the parameter section starts: an acknowledgement has two more header bytes\<close>
  "s7_offset data = (if data ! 1 = ROSCTRAckData \<or> data ! 1 = ROSCTRAck then 12 else 10)"

definition s7_header_of :: "bytes \<Rightarrow> S7Header" where
  "s7_header_of data =
     \<lparr>hProtocolID = data ! 0, hROSCTR = data ! 1, hRedundancyID = be16 (data ! 2) (data ! 3),
      hPDURef = be16 (data ! 4) (data ! 5), hParamLength = be16 (data ! 6) (data ! 7),
      hDataLength = be16 (data ! 8) (data ! 9),
      hErrorClass = (if s7_offset data = 12 then data ! 10 else 0),
      hErrorCode = (if s7_offset data = 12 then data ! 11 else 0)\<rparr>"

definition s7_need :: "bytes \<Rightarrow> nat" where
  "s7_need data = unat (be16 (data ! 6) (data ! 7)) + unat (be16 (data ! 8) (data ! 9))"

lemma s7_offset_cases: "s7_offset data = 10 \<or> s7_offset data = 12"
  by (simp add: s7_offset_def)

lemma ParseS7Header_eq:
  "ParseS7Header data = Some (
     if length data < 10 then Inl (Sentinel ErrShortS7Header)
     else if data ! 0 \<noteq> 0x32 then
       Inl (Errorf '''' (Sentinel ErrInvalidS7ProtocolID) ('': got 0x'' @ fmt02X (data ! 0)))
     else if length data < s7_offset data then Inl (Sentinel ErrShortS7AckHeader)
     else if length data - s7_offset data < s7_need data then
       Inl (Errorf '''' (Sentinel ErrS7PayloadLength)
         (('': need '' @ fmt_d (int (s7_need data))) @
          ('', got '' @ fmt_d (int (length data - s7_offset data)))))
     else Inr (s7_header_of data, drop (s7_offset data) data))"
  by (auto simp: ParseS7Header_def S7HeaderSize_def idx_def slice_def u16_at_in Let_def s7_offset_def
      s7_header_of_def s7_need_def IsAck_def IsAckData_def)

lemma ParseS7Header_cases:
  obtains (err) e where "ParseS7Header data = Some (Inl e)"
        | (ok) h rest where "ParseS7Header data = Some (Inr (h, rest))"
proof -
  obtain r where "ParseS7Header data = Some r"
    using ParseS7Header_eq [of data] by blast
  then show ?thesis using that by (cases r) auto
qed

lemma ParseS7Header_Inr:
  assumes "ParseS7Header data = Some (Inr (h, rest))"
  shows "10 \<le> length data" "data ! 0 = 0x32" "h = s7_header_of data" "rest = drop (s7_offset data) data"
    "s7_offset data \<le> length data" "unat (hParamLength h) + unat (hDataLength h) \<le> length rest"
  using assms by (auto simp: ParseS7Header_eq s7_need_def s7_header_of_def split: if_splits)

lemma ParseS7Header_Inl_Is:
  assumes "ParseS7Header data = Some (Inl e)"
  shows "\<exists>s. errors_Is e s \<and>
    s \<in> {ErrShortS7Header, ErrInvalidS7ProtocolID, ErrShortS7AckHeader, ErrS7PayloadLength}"
    and "errors_As_S7 e = None" and "errors_As_net e = None" and "\<not> errors_Is e DeadlineExceeded"
  using assms by (auto simp: ParseS7Header_eq split: if_splits)

section \<open>Encoded headers\<close>

lemma length_EncodeS7Header [simp, enc_length]: "length (EncodeS7Header r ref pl dl) = 10"
  by (simp add: EncodeS7Header_def)

lemma EncodeS7Header_list:
  "EncodeS7Header r ref pl dl =
     [0x32, r, 0, 0, ucast (drop_bit 8 ref), ucast ref,
      ucast (drop_bit 8 (word_of_int pl :: uint16)), ucast (word_of_int pl :: uint16),
      ucast (drop_bit 8 (word_of_int dl :: uint16)), ucast (word_of_int dl :: uint16)]"
  by (simp add: EncodeS7Header_def put16_def)

lemma be16_00 [simp]: "be16 0 0 = 0"
  by (simp add: be16_def)

lemma uint16_of_int: "0 \<le> n \<Longrightarrow> n < 65536 \<Longrightarrow> unat (word_of_int n :: uint16) = nat n"
  by (simp add: unat_eq_nat_uint uint_word_of_int)

definition job_header :: "ROSCTR \<Rightarrow> uint16 \<Rightarrow> int \<Rightarrow> int \<Rightarrow> S7Header" where
  "job_header r ref pl dl =
     \<lparr>hProtocolID = 0x32, hROSCTR = r, hRedundancyID = 0, hPDURef = ref,
      hParamLength = word_of_int pl, hDataLength = word_of_int dl, hErrorClass = 0, hErrorCode = 0\<rparr>"

lemma ParseS7Header_EncodeS7Header:
  assumes "r \<noteq> ROSCTRAck" "r \<noteq> ROSCTRAckData"
    and "0 \<le> pl" "pl < 65536" "0 \<le> dl" "dl < 65536" "pl + dl \<le> int (length payload)"
  shows "ParseS7Header (EncodeS7Header r ref pl dl @ payload) =
    Some (Inr (job_header r ref pl dl, payload))"
proof -
  let ?d = "EncodeS7Header r ref pl dl @ payload"
  have off: "s7_offset ?d = 10" using assms(1,2) by (simp add: s7_offset_def EncodeS7Header_list)
  have hdr: "s7_header_of ?d = job_header r ref pl dl"
    unfolding s7_header_of_def off job_header_def by (simp add: EncodeS7Header_list)
  have need: "s7_need ?d = nat pl + nat dl"
    using assms(3-6) by (simp add: s7_need_def EncodeS7Header_list uint16_of_int)
  have p: "?d ! 0 = 0x32" by (simp add: EncodeS7Header_list)
  have "\<not> length payload < nat pl + nat dl" using assms(3,5,7) by linarith
  then show ?thesis
    unfolding ParseS7Header_eq off hdr need p by simp
qed

definition ack_header :: "ROSCTR \<Rightarrow> uint16 \<Rightarrow> int \<Rightarrow> int \<Rightarrow> byte \<Rightarrow> byte \<Rightarrow> S7Header" where
  "ack_header r ref pl dl errClass errCode =
     (job_header r ref pl dl)\<lparr>hErrorClass := errClass, hErrorCode := errCode\<rparr>"

lemma ParseS7Header_EncodeS7Header_ack:
  assumes "r = ROSCTRAck \<or> r = ROSCTRAckData"
    and "0 \<le> pl" "pl < 65536" "0 \<le> dl" "dl < 65536" "pl + dl \<le> int (length payload)"
  shows "ParseS7Header (EncodeS7Header r ref pl dl @ [ec, eco] @ payload) =
    Some (Inr (ack_header r ref pl dl ec eco, payload))"
proof -
  let ?d = "EncodeS7Header r ref pl dl @ [ec, eco] @ payload"
  have off: "s7_offset ?d = 12" using assms(1) by (auto simp: s7_offset_def EncodeS7Header_list)
  have hdr: "s7_header_of ?d = ack_header r ref pl dl ec eco"
    unfolding s7_header_of_def off ack_header_def job_header_def by (simp add: EncodeS7Header_list)
  have need: "s7_need ?d = nat pl + nat dl"
    using assms(2-5) by (simp add: s7_need_def EncodeS7Header_list uint16_of_int)
  have p: "?d ! 0 = 0x32" by (simp add: EncodeS7Header_list)
  have "\<not> length payload < nat pl + nat dl" using assms(2,4,6) by linarith
  then show ?thesis
    unfolding ParseS7Header_eq off hdr need p by simp
qed

lemma length_EncodeSetupCommRequest [simp, enc_length]:
  "length (EncodeSetupCommRequest ref a b p) = 18"
  by (simp add: EncodeSetupCommRequest_def Let_def)

lemma ParseSetupCommResponse_eq:
  "ParseSetupCommResponse data = Some (
     if length data < 8 then Inl (s7msg ''setup comm response too short'')
     else if data ! 0 \<noteq> FuncSetupComm then Inl (s7msg ''not a setup comm response'')
     else Inr \<lparr>scMaxAmqCalling = uint (be16 (data ! 2) (data ! 3)),
               scMaxAmqCalled = uint (be16 (data ! 4) (data ! 5)),
               scPDUSize = uint (be16 (data ! 6) (data ! 7))\<rparr>)"
  by (simp add: ParseSetupCommResponse_def idx_def u16_at_in)

lemma uint_u16_bounds: "0 \<le> uint (w :: uint16)" "uint (w :: uint16) < 65536"
proof -
  have "uint w < 2 ^ LENGTH(16)" by (rule unsigned_less)
  then show "uint w < 65536" by simp
qed simp

lemma ParseSetupCommResponse_bounds:
  "ParseSetupCommResponse data = Some (Inr r) \<Longrightarrow>
     0 \<le> scPDUSize r \<and> scPDUSize r < 65536 \<and> 0 \<le> scMaxAmqCalling r \<and> 0 \<le> scMaxAmqCalled r"
  using uint_u16_bounds by (auto simp: ParseSetupCommResponse_eq split: if_splits)

section \<open>TSAPs\<close>

lemma ValidateRackSlot_None_iff:
  "ValidateRackSlot rack slot = None \<longleftrightarrow> 0 \<le> rack \<and> rack \<le> 7 \<and> 0 \<le> slot \<and> slot \<le> 31"
  by (auto simp: ValidateRackSlot_def)

lemma BuildTSAP_Inr_iff:
  "(\<exists>t. BuildTSAP ct rack slot = Inr t) \<longleftrightarrow> 0 \<le> rack \<and> rack \<le> 7 \<and> 0 \<le> slot \<and> slot \<le> 31"
  by (cases "ValidateRackSlot rack slot")
     (auto simp: BuildTSAP_def Let_def ValidateRackSlot_None_iff [symmetric])

lemma mask_bits_7: "(0x07 :: byte) = mask 3" and mask_bits_31: "(0x1F :: byte) = mask 5"
  by (simp_all add: mask_eq_exp_minus_1)

lemma EncodeRackSlotTSAP_fields:
  "drop_bit 5 (EncodeRackSlotTSAP rack slot) = rack AND 0x07"
  "EncodeRackSlotTSAP rack slot AND 0x1F = slot AND 0x1F"
  unfolding EncodeRackSlotTSAP_def mask_bits_7 mask_bits_31
  by (rule bit_word_eqI, auto simp: bit_simps)+

lemma word_of_int_and_mask_byte:
  assumes "0 \<le> x" "x < 2 ^ n" "n \<le> 8"
  shows "uint (word_of_int x AND (mask n :: byte)) = x"
proof -
  have "uint (word_of_int x AND (mask n :: byte)) = take_bit n (uint (word_of_int x :: byte))"
    by (simp only: take_bit_eq_mask [symmetric] unsigned_take_bit_eq)
  also have "\<dots> = take_bit n x"
    using assms(3) by (simp add: unsigned_of_int take_bit_take_bit min_def)
  also have "\<dots> = x"
    using assms(1,2) by (simp add: take_bit_int_eq_self)
  finally show ?thesis .
qed

lemma uint_EncodeRackSlotTSAP:
  assumes "0 \<le> rack" "rack \<le> 7" "0 \<le> slot" "slot \<le> 31"
  shows "uint (EncodeRackSlotTSAP (word_of_int rack) (word_of_int slot)) = 32 * rack + slot"
proof -
  let ?r = "word_of_int rack AND (mask 3 :: byte)" and ?s = "word_of_int slot AND (mask 5 :: byte)"
  have r: "uint ?r = rack" using assms(1,2) by (intro word_of_int_and_mask_byte) auto
  have s: "uint ?s = slot" using assms(3,4) by (intro word_of_int_and_mask_byte) auto
  have "push_bit 5 ?r AND ?s = 0"
    by (rule bit_word_eqI) (auto simp: bit_simps)
  then have "EncodeRackSlotTSAP (word_of_int rack) (word_of_int slot) = push_bit 5 ?r + ?s"
    unfolding EncodeRackSlotTSAP_def mask_bits_7 mask_bits_31 by (simp add: disjunctive_add_eq_or)
  also have "uint \<dots> = 32 * rack + slot"
    using assms by (simp add: push_bit_eq_mult uint_word_ariths r s)
  finally show ?thesis .
qed

lemma uint_ucast_u16 [simp]: "uint (ucast (b :: byte) :: uint16) = uint b"
  by (metis uint_nat unat_ucast_u16)

lemma BuildTSAP_value:
  assumes "BuildTSAP ct rack slot = Inr t"
  shows "uint t = 256 * (ct mod 256) + 32 * rack + slot"
proof -
  have ok: "0 \<le> rack" "rack \<le> 7" "0 \<le> slot" "slot \<le> 31"
    using assms BuildTSAP_Inr_iff [of ct rack slot] by auto
  define low where "low = EncodeRackSlotTSAP (word_of_int rack) (word_of_int slot)"
  have low: "uint low = 32 * rack + slot"
    unfolding low_def using ok by (rule uint_EncodeRackSlotTSAP)
  have t: "t = push_bit 8 (word_of_int ct) OR ucast low"
    using assms ok by (simp add: BuildTSAP_def low_def ValidateRackSlot_def Let_def)
  have "push_bit 8 (word_of_int ct :: uint16) AND ucast low = 0"
    by (rule bit_word_eqI) (auto simp: bit_simps dest: bit_imp_le_length)
  then have "t = push_bit 8 (word_of_int ct) + ucast low"
    unfolding t by (simp add: disjunctive_add_eq_or)
  then have "uint t = (256 * ct + uint low) mod 65536"
    by (simp add: push_bit_eq_mult uint_word_ariths uint_word_of_int mod_simps mult.commute)
  also have "256 * ct + uint low = 256 * (ct mod 256) + uint low + 65536 * (ct div 256)"
    using mult_div_mod_eq [of 256 ct] by linarith
  also have "\<dots> mod 65536 = (256 * (ct mod 256) + uint low) mod 65536"
    by simp
  also have "\<dots> = 256 * (ct mod 256) + uint low"
    using ok low pos_mod_bound [of 256 ct] pos_mod_sign [of 256 ct] by (intro mod_pos_pos_trivial) linarith+
  finally show ?thesis by (simp add: low)
qed

end
