(* ===== verification/World.thy ===== *)
theory World
  imports Wire_Header "HOL-Library.Sublist"
begin

text \<open>
  Effects.  An operation that performs I/O takes the state and returns its result with the
  new state; the result is \<open>None\<close> (a panic), an error or a value.  The combinators
  \<open>io_bind\<close> and \<open>io_case\<close> are the two shapes of Go's error handling:
  \<open>if err != nil { return err }\<close> and a test that goes on.

  The state holds the objects the operations mutate and the \<open>trace\<close>, the list of the calls
  made to the outside so far.  The outside is not part of the program: it is the parameter
  \<open>env\<close>, whose answers (from the dialer, the sockets, the clock, the TPKT reader and
  writer) are arbitrary functions of the trace, so that every deterministic or adversarial
  peer is an instance.  \<open>env_room\<close> is what the receive buffer holds behind the data section of
  the last reply: the rest of the frame and the room the libraries left.  A \<open>context.Context\<close>
  is a record of functions of the trace too.

  The locale \<open>io_frame\<close> is the interface of the frame conditions: a reflexive and
  transitive relation that the atomic steps keep is kept by everything built from them.
\<close>

section \<open>Results\<close>

type_synonym ('s, 'a) io = "'s \<Rightarrow> (goerr + 'a) option \<times> 's"

definition io_ret :: "'a \<Rightarrow> ('s, 'a) io" where
  "io_ret x = (\<lambda>s. (Some (Inr x), s))"

definition io_fail :: "goerr \<Rightarrow> ('s, 'a) io" where
  "io_fail e = (\<lambda>s. (Some (Inl e), s))"

definition io_pure :: "(goerr + 'a) option \<Rightarrow> ('s, 'a) io" where
  \<comment> \<open>a call that only computes\<close>
  "io_pure r = (\<lambda>s. (r, s))"

definition io_case :: "('s, 'a) io \<Rightarrow> (goerr + 'a \<Rightarrow> ('s, 'b) io) \<Rightarrow> ('s, 'b) io" where
  "io_case m k = (\<lambda>s. case m s of (None, s') \<Rightarrow> (None, s') | (Some r, s') \<Rightarrow> k r s')"

definition io_bind :: "('s, 'a) io \<Rightarrow> ('a \<Rightarrow> ('s, 'b) io) \<Rightarrow> ('s, 'b) io" where
  "io_bind m k = io_case m (\<lambda>r. case r of Inl e \<Rightarrow> io_fail e | Inr x \<Rightarrow> k x)"

definition io_wrap :: "(goerr \<Rightarrow> goerr) \<Rightarrow> ('s, 'a) io \<Rightarrow> ('s, 'a) io" where
  \<comment> \<open>\<open>if err != nil { return f(err) }\<close>\<close>
  "io_wrap f m = io_case m (\<lambda>r. case r of Inl e \<Rightarrow> io_fail (f e) | Inr x \<Rightarrow> io_ret x)"

definition io_get :: "('s \<Rightarrow> 'a) \<Rightarrow> ('s, 'a) io" where
  "io_get f = (\<lambda>s. (Some (Inr (f s)), s))"

definition io_modify :: "('s \<Rightarrow> 's) \<Rightarrow> ('s, unit) io" where
  "io_modify f = (\<lambda>s. (Some (Inr ()), f s))"

lemmas io_defs = io_ret_def io_fail_def io_pure_def io_case_def io_bind_def io_wrap_def io_get_def
  io_modify_def

lemma io_run [simp]:
  "io_ret x s = (Some (Inr x), s)"
  "io_fail e s = (Some (Inl e), s)"
  "io_pure r s = (r, s)"
  "io_get f s = (Some (Inr (f s)), s)"
  "io_modify g s = (Some (Inr ()), g s)"
  by (simp_all add: io_defs)

lemma io_case_run:
  "m s = (None, s') \<Longrightarrow> io_case m k s = (None, s')"
  "m s = (Some r, s') \<Longrightarrow> io_case m k s = k r s'"
  by (simp_all add: io_case_def)

lemma io_bind_run [simp]:
  "m s = (None, s') \<Longrightarrow> io_bind m k s = (None, s')"
  "m s = (Some (Inl e), s') \<Longrightarrow> io_bind m k s = (Some (Inl e), s')"
  "m s = (Some (Inr x), s') \<Longrightarrow> io_bind m k s = k x s'"
  by (simp_all add: io_bind_def io_case_def)

lemma io_bind_pure:
  "io_bind (io_pure (Some (Inr x))) k = k x"
  "io_bind (io_pure (Some (Inl e))) k = io_fail e"
  "io_bind (io_pure None) k = io_pure None"
  "io_bind (io_ret x) k = k x"
  by (simp_all add: io_defs fun_eq_iff)

lemma io_bind_wrap_pure:
  "io_bind (io_wrap f (io_pure (Some (Inr x)))) k = k x"
  "io_bind (io_wrap f (io_pure (Some (Inl e)))) k = io_fail (f e)"
  by (simp_all add: io_defs fun_eq_iff)

lemma io_bind_ok_iff:
  "io_bind m k s = (Some (Inr y), t) \<longleftrightarrow>
     (\<exists>x s'. m s = (Some (Inr x), s') \<and> k x s' = (Some (Inr y), t))"
  by (auto simp: io_bind_def io_case_def split: prod.splits option.splits sum.splits)

lemma io_bind_err_iff:
  "io_bind m k s = (Some (Inl e), t) \<longleftrightarrow>
     m s = (Some (Inl e), t) \<or> (\<exists>x s'. m s = (Some (Inr x), s') \<and> k x s' = (Some (Inl e), t))"
  by (auto simp: io_bind_def io_case_def split: prod.splits option.splits sum.splits)

lemma io_wrap_ok_iff:
  "io_wrap f m s = (Some (Inr y), t) \<longleftrightarrow> m s = (Some (Inr y), t)"
  by (auto simp: io_wrap_def io_case_def split: prod.splits option.splits sum.splits)

lemma io_wrap_err_iff:
  "io_wrap f m s = (Some (Inl e), t) \<longleftrightarrow> (\<exists>e'. m s = (Some (Inl e'), t) \<and> e = f e')"
  by (auto simp: io_wrap_def io_case_def split: prod.splits option.splits sum.splits)

lemma io_wrap_run:
  "m s = (None, s') \<Longrightarrow> io_wrap f m s = (None, s')"
  "m s = (Some (Inl e), s') \<Longrightarrow> io_wrap f m s = (Some (Inl (f e)), s')"
  "m s = (Some (Inr x), s') \<Longrightarrow> io_wrap f m s = (Some (Inr x), s')"
  by (simp_all add: io_wrap_def io_case_def)

section \<open>Frame conditions\<close>

locale io_frame =
  fixes R :: "'s \<Rightarrow> 's \<Rightarrow> bool"
  assumes R_refl: "R s s"
    and R_trans: "R s t \<Longrightarrow> R t u \<Longrightarrow> R s u"
begin

lemma frame_pure:
  "R s (snd (io_ret x s))" "R s (snd (io_fail e s))" "R s (snd (io_pure r s))"
  "R s (snd (io_get f s))"
  by (simp_all add: R_refl)

lemma frame_case:
  assumes "\<And>s. R s (snd (m s))" and "\<And>r s. R s (snd (k r s))"
  shows "R s (snd (io_case m k s))"
proof (cases "m s")
  case (Pair r s')
  then have "R s s'" using assms(1) [of s] by simp
  then show ?thesis
    using assms(2) Pair by (cases r) (auto simp: io_case_def intro: R_trans)
qed

lemma frame_bind:
  assumes "\<And>s. R s (snd (m s))" and "\<And>x s. R s (snd (k x s))"
  shows "R s (snd (io_bind m k s))"
  unfolding io_bind_def by (rule frame_case) (auto simp: assms R_refl split: sum.splits)

lemma frame_wrap:
  assumes "\<And>s. R s (snd (m s))"
  shows "R s (snd (io_wrap f m s))"
  unfolding io_wrap_def by (rule frame_case) (auto simp: assms R_refl split: sum.splits)

lemmas frame_rules = frame_pure frame_case frame_bind frame_wrap

end

section \<open>The outside\<close>

datatype event =
    EvDial string
  | EvWriteDeadline nat "int option"
  | EvReadDeadline nat "int option"
  | EvTrace string bytes
  | EvTX nat bytes
  | EvRX nat
  | EvClose nat
  | EvWait int
  | EvLog string

record ctx =
  ctx_err :: "event list \<Rightarrow> goerr option"
  ctx_deadline :: "int option"
  ctx_wait :: "event list \<Rightarrow> int \<Rightarrow> goerr option"

record env =
  env_now :: "event list \<Rightarrow> int"
  env_dial :: "event list \<Rightarrow> string \<Rightarrow> int \<Rightarrow> goerr option"
  env_set_deadline :: "event list \<Rightarrow> nat \<Rightarrow> goerr option"
  env_write :: "event list \<Rightarrow> nat \<Rightarrow> bytes \<Rightarrow> goerr option"
  env_read :: "event list \<Rightarrow> nat \<Rightarrow> goerr + bytes"
  env_close :: "event list \<Rightarrow> nat \<Rightarrow> goerr option"
  env_room :: "event list \<Rightarrow> bytes"
  env_local_addr :: "nat \<Rightarrow> string"
  env_remote_addr :: "nat \<Rightarrow> string"
  env_cotp :: cotp_lib

definition opt_err :: "goerr option \<Rightarrow> (goerr + unit) option" where
  "opt_err r = (case r of None \<Rightarrow> Some (Inr ()) | Some e \<Rightarrow> Some (Inl e))"

lemma opt_err_simps [simp]: "opt_err None = Some (Inr ())" "opt_err (Some e) = Some (Inl e)"
  by (simp_all add: opt_err_def)

lemma opt_err_eq [simp]: "opt_err r = Some (Inr u) \<longleftrightarrow> r = None" "opt_err r = Some (Inl e) \<longleftrightarrow> r = Some e"
  "opt_err r \<noteq> None"
  by (cases r; simp)+

definition context_with_timeout :: "env \<Rightarrow> event list \<Rightarrow> int \<Rightarrow> ctx" where
  \<comment> \<open>\<open>context.WithTimeout(context.Background(), d)\<close>, made after the calls \<open>tr\<close>\<close>
  "context_with_timeout E tr d =
     (let dl = env_now E tr + d
      in \<lparr>ctx_err = (\<lambda>t. if dl \<le> env_now E t then Some (Sentinel DeadlineExceeded) else None),
          ctx_deadline = Some dl,
          ctx_wait = (\<lambda>t w. if dl \<le> env_now E t + w then Some (Sentinel DeadlineExceeded) else None)\<rparr>)"

definition context_background :: ctx where
  "context_background = \<lparr>ctx_err = (\<lambda>_. None), ctx_deadline = None, ctx_wait = (\<lambda>_ _. None)\<rparr>"

end
