(* ===== verification/Transport.thy ===== *)
theory Transport
  imports World
begin

text \<open>
  The transport connection (\<open>transport/conn.go\<close>): a TCP connection with the TPKT reader and
  writer of \<open>go-tpkt\<close> on it.  The heap of the model maps a pointer to its \<open>Conn\<close>; the
  handle of the underlying socket is a number.  \<open>Close\<close> leaves the three fields nil, and
  the lemmas show that a closed connection refuses every further operation without any I/O.
\<close>

record Conn =
  tConn :: "nat option"
  tReader :: "nat option"
  tWriter :: "nat option"
  tTimeout :: int
  tTracer :: bool

record world =
  w_trace :: "event list"
  w_conns :: "nat \<Rightarrow> Conn"
  w_next :: nat

definition log_ev :: "event \<Rightarrow> ('z world_scheme, unit) io" where
  "log_ev e = io_modify (\<lambda>s. s\<lparr>w_trace := w_trace s @ [e]\<rparr>)"

definition ctx_check :: "ctx \<Rightarrow> ('z world_scheme, unit) io" where
  \<comment> \<open>\<open>if err := ctx.Err(); err != nil { return err }\<close>\<close>
  "ctx_check cx = (\<lambda>s. (opt_err (ctx_err cx (w_trace s)), s))"

definition ctx_sleep :: "ctx \<Rightarrow> int \<Rightarrow> ('z world_scheme, unit) io" where
  \<comment> \<open>\<open>select { case <-ctx.Done(): return ctx.Err(); case <-time.After(d): }\<close>\<close>
  "ctx_sleep cx d =
     (\<lambda>s. io_bind (\<lambda>s. (opt_err (ctx_wait cx (w_trace s) d), s)) (\<lambda>_. log_ev (EvWait d)) s)"

section \<open>Deadlines\<close>

definition io_deadline :: "int \<Rightarrow> int \<Rightarrow> int option \<Rightarrow> int option" where
  \<comment> \<open>\<open>None\<close> is the zero \<open>time.Time\<close>: no deadline\<close>
  "io_deadline now timeout ctxDeadline =
     (let deadline = (if timeout > 0 then Some (now + timeout) else None)
      in case ctxDeadline of
           None \<Rightarrow> deadline
         | Some d \<Rightarrow>
             (case deadline of
                None \<Rightarrow> Some d
              | Some dl \<Rightarrow> if d < dl then Some d else deadline))"

definition setReadDeadline :: "env \<Rightarrow> nat \<Rightarrow> int \<Rightarrow> ctx \<Rightarrow> ('z world_scheme, unit) io" where
  "setReadDeadline E sock timeout cx =
     (\<lambda>s. let d = io_deadline (env_now E (w_trace s)) timeout (ctx_deadline cx);
              r = env_set_deadline E (w_trace s) sock
          in (opt_err r, snd (log_ev (EvReadDeadline sock d) s)))"

definition setWriteDeadline :: "env \<Rightarrow> nat \<Rightarrow> int \<Rightarrow> ctx \<Rightarrow> ('z world_scheme, unit) io" where
  "setWriteDeadline E sock timeout cx =
     (\<lambda>s. let d = io_deadline (env_now E (w_trace s)) timeout (ctx_deadline cx);
              r = env_set_deadline E (w_trace s) sock
          in (opt_err r, snd (log_ev (EvWriteDeadline sock d) s)))"

section \<open>Operations\<close>

definition transport_New :: "nat \<Rightarrow> int \<Rightarrow> Conn" where
  "transport_New conn timeout =
     \<lparr>tConn = Some conn, tReader = Some conn, tWriter = Some conn, tTimeout = timeout, tTracer = False\<rparr>"

definition SetTracer :: "nat \<Rightarrow> bool \<Rightarrow> ('z world_scheme, unit) io" where
  \<comment> \<open>\<open>t\<close>: whether the tracer is not nil\<close>
  "SetTracer p t = io_modify (\<lambda>s. s\<lparr>w_conns := (w_conns s)(p := (w_conns s p)\<lparr>tTracer := t\<rparr>)\<rparr>)"

definition tracer_Trace :: "nat \<Rightarrow> string \<Rightarrow> bytes \<Rightarrow> ('z world_scheme, unit) io" where
  "tracer_Trace p dir data =
     (\<lambda>s. if tTracer (w_conns s p) then log_ev (EvTrace dir data) s else io_ret () s)"

definition WriteFrame :: "env \<Rightarrow> nat option \<Rightarrow> bytes \<Rightarrow> ('z world_scheme, unit) io" where
  \<comment> \<open>\<open>c.writer.WriteFrame(data)\<close>; a nil writer panics\<close>
  "WriteFrame E writer data =
     (\<lambda>s. case writer of
            None \<Rightarrow> (None, s)
          | Some sock \<Rightarrow> (opt_err (env_write E (w_trace s) sock data), snd (log_ev (EvTX sock data) s)))"

definition ReadFrame :: "env \<Rightarrow> nat option \<Rightarrow> ('z world_scheme, bytes) io" where
  "ReadFrame E reader =
     (\<lambda>s. case reader of
            None \<Rightarrow> (None, s)
          | Some sock \<Rightarrow> (Some (env_read E (w_trace s) sock), snd (log_ev (EvRX sock) s)))"

definition SendContext :: "env \<Rightarrow> nat \<Rightarrow> ctx \<Rightarrow> bytes \<Rightarrow> ('z world_scheme, unit) io" where
  "SendContext E c cx data =
     (\<lambda>s. case tConn (w_conns s c) of
            None \<Rightarrow> io_fail (Sentinel ErrConnectionNotEstablished) s
          | Some sock \<Rightarrow>
              io_bind (setWriteDeadline E sock (tTimeout (w_conns s c)) cx) (\<lambda>_.
              io_bind (ctx_check cx) (\<lambda>_.
              io_bind (tracer_Trace c ''TX'' data) (\<lambda>_.
                WriteFrame E (tWriter (w_conns s c)) data))) s)"

definition ReceiveContext :: "env \<Rightarrow> nat \<Rightarrow> ctx \<Rightarrow> ('z world_scheme, bytes) io" where
  "ReceiveContext E c cx =
     (\<lambda>s. case tConn (w_conns s c) of
            None \<Rightarrow> io_fail (Sentinel ErrConnectionNotEstablished) s
          | Some sock \<Rightarrow>
              io_bind (setReadDeadline E sock (tTimeout (w_conns s c)) cx) (\<lambda>_.
              io_bind (ctx_check cx) (\<lambda>_.
              io_bind (io_wrap (\<lambda>err. Errorf ''read TPKT frame: '' err '''')
                        (ReadFrame E (tReader (w_conns s c)))) (\<lambda>payload.
              io_bind (tracer_Trace c ''RX'' payload) (\<lambda>_.
                io_ret payload)))) s)"

definition Send :: "env \<Rightarrow> nat \<Rightarrow> bytes \<Rightarrow> ('z world_scheme, unit) io" where
  "Send E c data = SendContext E c context_background data"

definition Receive :: "env \<Rightarrow> nat \<Rightarrow> ('z world_scheme, bytes) io" where
  "Receive E c = ReceiveContext E c context_background"

definition transport_Close :: "env \<Rightarrow> nat \<Rightarrow> ('z world_scheme, unit) io" where
  "transport_Close E c =
     (\<lambda>s. case tConn (w_conns s c) of
            None \<Rightarrow> io_ret () s
          | Some sock \<Rightarrow>
              let err = env_close E (w_trace s) sock;
                  s = snd (log_ev (EvClose sock) s);
                  closed = (w_conns s c)\<lparr>tConn := None, tReader := None, tWriter := None\<rparr>
              in (opt_err err, s\<lparr>w_conns := (w_conns s)(c := closed)\<rparr>))"

definition LocalAddr :: "env \<Rightarrow> nat \<Rightarrow> 'z world_scheme \<Rightarrow> string option" where
  "LocalAddr E c s = map_option (env_local_addr E) (tConn (w_conns s c))"

definition RemoteAddr :: "env \<Rightarrow> nat \<Rightarrow> 'z world_scheme \<Rightarrow> string option" where
  "RemoteAddr E c s = map_option (env_remote_addr E) (tConn (w_conns s c))"

definition dialTransport :: "env \<Rightarrow> ctx \<Rightarrow> string \<Rightarrow> int \<Rightarrow> ('z world_scheme, nat) io" where
  \<comment> \<open>\<open>client/handshake.go\<close>: the fresh \<open>Conn\<close> is the next free pointer, on a socket of
     that number\<close>
  "dialTransport E cx address timeout =
     (\<lambda>s. case env_dial E (w_trace s) address timeout of
            Some err \<Rightarrow> (Some (Inl (Errorf ''TCP connect: '' err '''')), snd (log_ev (EvDial address) s))
          | None \<Rightarrow>
              let s = snd (log_ev (EvDial address) s); p = w_next s
              in (Some (Inr p), s\<lparr>w_conns := (w_conns s)(p := transport_New p timeout), w_next := p + 1\<rparr>))"

section \<open>What the operations change\<close>

definition only_trace :: "'z world_scheme \<Rightarrow> 'z world_scheme \<Rightarrow> bool" where
  \<comment> \<open>only calls to the outside happened\<close>
  "only_trace s t \<longleftrightarrow> (\<exists>evs. t = s\<lparr>w_trace := w_trace s @ evs\<rparr>)"

interpretation tr: io_frame only_trace
proof unfold_locales
  show "only_trace s s" for s :: "'z world_scheme"
    unfolding only_trace_def by (rule exI [of _ "[]"]) simp
  show "only_trace s t \<Longrightarrow> only_trace t u \<Longrightarrow> only_trace s u" for s t u :: "'z world_scheme"
    unfolding only_trace_def by auto
qed

lemma log_ev_run [simp]: "log_ev e s = (Some (Inr ()), s\<lparr>w_trace := w_trace s @ [e]\<rparr>)"
  by (simp add: log_ev_def)

lemma only_trace_log: "only_trace s (s\<lparr>w_trace := w_trace s @ evs\<rparr>)"
  by (auto simp: only_trace_def)

lemma only_trace_atoms:
  "only_trace s (snd (log_ev e s))"
  "only_trace s (snd (ctx_check cx s))"
  "only_trace s (snd (setReadDeadline E sock tmo cx s))"
  "only_trace s (snd (setWriteDeadline E sock tmo cx s))"
  "only_trace s (snd (tracer_Trace p dir data s))"
  "only_trace s (snd (WriteFrame E wr data s))"
  "only_trace s (snd (ReadFrame E rd s))"
  by (auto simp: ctx_check_def setReadDeadline_def setWriteDeadline_def tracer_Trace_def Let_def
      WriteFrame_def ReadFrame_def tr.R_refl only_trace_log split: option.splits)

lemma only_trace_sleep: "only_trace s (snd (ctx_sleep cx d s))"
  unfolding ctx_sleep_def
  by (rule tr.frame_bind) (simp_all add: only_trace_log tr.R_refl)

lemma only_trace_SendContext: "only_trace s (snd (SendContext E c cx data s))"
  by (auto simp: SendContext_def tr.R_refl intro!: tr.frame_bind only_trace_atoms split: option.splits)

lemma only_trace_ReceiveContext: "only_trace s (snd (ReceiveContext E c cx s))"
  by (auto simp: ReceiveContext_def tr.R_refl intro!: tr.frame_bind tr.frame_wrap only_trace_atoms
      split: option.splits)

lemma only_trace_sel:
  assumes "only_trace s t"
  shows "w_conns t = w_conns s" "w_next t = w_next s" "world.more t = world.more s"
    "prefix (w_trace s) (w_trace t)"
  using assms by (auto simp: only_trace_def)

section \<open>A closed connection\<close>

definition conn_wf :: "Conn \<Rightarrow> bool" where
  \<comment> \<open>the three handles are nil together\<close>
  "conn_wf c \<longleftrightarrow> tReader c = tConn c \<and> tWriter c = tConn c"

definition heap_wf :: "'z world_scheme \<Rightarrow> bool" where
  "heap_wf s \<longleftrightarrow> (\<forall>p. conn_wf (w_conns s p))"

lemma heap_wf_only_trace: "only_trace s t \<Longrightarrow> heap_wf t \<longleftrightarrow> heap_wf s"
  by (auto simp: heap_wf_def only_trace_def)

lemma SendContext_closed:
  "tConn (w_conns s c) = None \<Longrightarrow>
     SendContext E c cx data s = (Some (Inl (Sentinel ErrConnectionNotEstablished)), s)"
  by (simp add: SendContext_def)

lemma ReceiveContext_closed:
  "tConn (w_conns s c) = None \<Longrightarrow>
     ReceiveContext E c cx s = (Some (Inl (Sentinel ErrConnectionNotEstablished)), s)"
  by (simp add: ReceiveContext_def)

lemma transport_Close_closes:
  "tConn (w_conns (snd (transport_Close E c s)) c) = None"
  by (simp add: transport_Close_def Let_def split: option.splits)

lemma transport_Close_wf: "heap_wf s \<Longrightarrow> heap_wf (snd (transport_Close E c s))"
  by (auto simp: transport_Close_def Let_def heap_wf_def conn_wf_def split: option.splits)

lemma transport_Close_other:
  "p \<noteq> c \<Longrightarrow> w_conns (snd (transport_Close E c s)) p = w_conns s p"
  by (simp add: transport_Close_def Let_def split: option.splits)

lemma transport_Close_total: "fst (transport_Close E c s) \<noteq> None"
  by (auto simp: transport_Close_def Let_def opt_err_def split: option.splits)

lemma transport_Close_no_panic [simp]: "transport_Close E c s \<noteq> (None, t)"
  by (metis fst_conv transport_Close_total)

lemma dialTransport_wf: "heap_wf s \<Longrightarrow> heap_wf (snd (dialTransport E cx a tmo s))"
  by (auto simp: dialTransport_def Let_def heap_wf_def conn_wf_def transport_New_def split: option.splits)

section \<open>What is sent\<close>

fun tx_event :: "event \<Rightarrow> (nat \<times> bytes) option" where
  "tx_event (EvTX k d) = Some (k, d)"
| "tx_event _ = None"

definition tx_of :: "event list \<Rightarrow> (nat \<times> bytes) list" where
  \<comment> \<open>the frames handed to the TPKT writer, with their socket\<close>
  "tx_of evs = List.map_filter tx_event evs"

lemma tx_of_simps [simp]:
  "tx_of [] = []"
  "tx_of (e # es) = (case tx_event e of None \<Rightarrow> tx_of es | Some x \<Rightarrow> x # tx_of es)"
  "tx_of (es @ fs) = tx_of es @ tx_of fs"
  by (simp_all add: tx_of_def map_filter_def split: option.splits)

abbreviation grow :: "'z world_scheme \<Rightarrow> event list \<Rightarrow> 'z world_scheme" where
  "grow s evs \<equiv> s\<lparr>w_trace := w_trace s @ evs\<rparr>"

lemma SendContext_open:
  assumes "tConn (w_conns s c) = Some sock" "conn_wf (w_conns s c)"
  shows "\<exists>r evs. SendContext E c cx data s = (Some r, grow s evs) \<and>
    (tx_of evs = [(sock, data)] \<or> tx_of evs = [] \<and> r \<noteq> Inr ())"
proof -
  let ?dl = "EvWriteDeadline sock (io_deadline (env_now E (w_trace s)) (tTimeout (w_conns s c)) (ctx_deadline cx))"
  have w: "tWriter (w_conns s c) = Some sock"
    using assms by (simp add: conn_wf_def)
  show ?thesis
  proof (cases "env_set_deadline E (w_trace s) sock")
    case (Some e)
    then have "SendContext E c cx data s = (Some (Inl e), grow s [?dl])"
      using assms by (simp add: SendContext_def setWriteDeadline_def Let_def)
    then show ?thesis by fastforce
  next
    case None
    show ?thesis
    proof (cases "ctx_err cx (w_trace s @ [?dl])")
      case (Some e)
      then have "SendContext E c cx data s = (Some (Inl e), grow s [?dl])"
        using None assms by (simp add: SendContext_def setWriteDeadline_def Let_def ctx_check_def)
      then show ?thesis by fastforce
    next
      case no_err: None
      define evs where "evs = ?dl # (if tTracer (w_conns s c) then [EvTrace ''TX'' data] else [])"
      have "SendContext E c cx data s =
          (opt_err (env_write E (w_trace s @ evs) sock data), grow s (evs @ [EvTX sock data]))"
        using None no_err assms w
        by (simp add: SendContext_def setWriteDeadline_def Let_def ctx_check_def tracer_Trace_def
            WriteFrame_def evs_def)
      moreover obtain r where "opt_err (env_write E (w_trace s @ evs) sock data) = Some r"
        by (cases "env_write E (w_trace s @ evs) sock data") auto
      moreover have "tx_of (evs @ [EvTX sock data]) = [(sock, data)]"
        by (simp add: evs_def)
      ultimately show ?thesis
        by (intro exI [of _ r] exI [of _ "evs @ [EvTX sock data]"]) simp
    qed
  qed
qed

lemma ReceiveContext_open:
  assumes "tConn (w_conns s c) = Some sock" "conn_wf (w_conns s c)"
  shows "\<exists>r evs. ReceiveContext E c cx s = (Some r, grow s evs) \<and> tx_of evs = []"
proof -
  let ?dl = "EvReadDeadline sock (io_deadline (env_now E (w_trace s)) (tTimeout (w_conns s c)) (ctx_deadline cx))"
  have rd: "tReader (w_conns s c) = Some sock"
    using assms by (simp add: conn_wf_def)
  show ?thesis
  proof (cases "env_set_deadline E (w_trace s) sock")
    case (Some e)
    then have "ReceiveContext E c cx s = (Some (Inl e), grow s [?dl])"
      using assms by (simp add: ReceiveContext_def setReadDeadline_def Let_def)
    then show ?thesis by fastforce
  next
    case no_dl: None
    show ?thesis
    proof (cases "ctx_err cx (w_trace s @ [?dl])")
      case (Some e)
      then have "ReceiveContext E c cx s = (Some (Inl e), grow s [?dl])"
        using no_dl assms by (simp add: ReceiveContext_def setReadDeadline_def Let_def ctx_check_def)
      then show ?thesis by fastforce
    next
      case no_err: None
      let ?tr = "w_trace s @ [?dl]"
      have base: "ReceiveContext E c cx s =
          (case env_read E ?tr sock of
             Inl e \<Rightarrow> (Some (Inl (Errorf ''read TPKT frame: '' e '''')), grow s [?dl, EvRX sock])
           | Inr p \<Rightarrow> (Some (Inr p), grow s ([?dl, EvRX sock] @
                (if tTracer (w_conns s c) then [EvTrace ''RX'' p] else []))))"
        using no_dl no_err assms rd
        by (simp add: ReceiveContext_def setReadDeadline_def Let_def ctx_check_def tracer_Trace_def
            ReadFrame_def io_bind_def io_case_def io_wrap_def split: sum.splits)
      show ?thesis
      proof (cases "env_read E ?tr sock")
        case (Inl e)
        then show ?thesis unfolding base by (auto intro!: exI [of _ "[?dl, EvRX sock]"])
      next
        case (Inr p)
        then show ?thesis unfolding base
          by (intro exI [of _ "Inr p"] exI [of _ "[?dl, EvRX sock] @
                (if tTracer (w_conns s c) then [EvTrace ''RX'' p] else [])"]) simp
      qed
    qed
  qed
qed

section \<open>Deadlines\<close>

lemma io_deadline_le:
  "io_deadline now tmo cd = Some d \<Longrightarrow> (cd = Some d' \<longrightarrow> d \<le> d') \<and> (tmo > 0 \<longrightarrow> d \<le> now + tmo)"
  by (auto simp: io_deadline_def Let_def split: option.splits if_splits)

lemma io_deadline_None_iff: "io_deadline now tmo cd = None \<longleftrightarrow> cd = None \<and> tmo \<le> 0"
  by (auto simp: io_deadline_def Let_def split: option.splits)

lemma io_deadline_attained:
  "io_deadline now tmo cd = Some d \<Longrightarrow> cd = Some d \<or> tmo > 0 \<and> d = now + tmo"
  by (auto simp: io_deadline_def Let_def split: option.splits if_splits)

end
