(* ===== verification/Handshake.thy ===== *)
theory Handshake
  imports Transport
begin

text \<open>
  Client options (\<open>client/options.go\<close>) and the connection handshake
  (\<open>client/handshake.go\<close>): COTP connect, then S7 Setup Communication.  The part of the set-up
  that only looks at the reply is the function \<open>setup_reply\<close>; the lemmas say that a handshake
  step sends at most one frame, that a set-up it accepts really was an error-free reply to
  the reference it sent, and what each failure is classified as.
\<close>

section \<open>time.Duration\<close>

type_synonym duration = int \<comment> \<open>nanoseconds\<close>

definition second :: duration where "second = 1000000000"
definition millisecond :: duration where "millisecond = 1000000"

definition fmt_frac :: "nat \<Rightarrow> nat \<Rightarrow> string" where
  \<comment> \<open>the fraction of \<open>v / 10^prec\<close>, without trailing zeros\<close>
  "fmt_frac v prec =
     (let ds = dec_digits (v mod 10 ^ prec);
          ds = replicate (prec - length ds) (CHR ''0'') @ ds;
          t = rev (dropWhile (\<lambda>c. c = CHR ''0'') (rev ds))
      in if v mod 10 ^ prec = 0 then '''' else CHR ''.'' # t)"

definition duration_String :: "duration \<Rightarrow> string" where
  \<comment> \<open>\<open>%v\<close> of a \<open>time.Duration\<close>\<close>
  "duration_String d =
     (let u = nat \<bar>d\<bar>; sgn = (if d < 0 then ''-'' else '''')
      in if u = 0 then ''0s''
         else if u < 1000 then sgn @ dec_digits u @ ''ns''
         else if u < 1000000 then
           sgn @ dec_digits (u div 1000) @ fmt_frac u 3 @ [CHR 0xC2, CHR 0xB5] @ ''s''
         else if u < 1000000000 then sgn @ dec_digits (u div 1000000) @ fmt_frac u 6 @ ''ms''
         else let secs = u div 1000000000; mins = secs div 60; hours = mins div 60
              in sgn @ (if hours > 0 then dec_digits hours @ ''h'' else '''') @
                 (if mins > 0 then dec_digits (mins mod 60) @ ''m'' else '''') @
                 dec_digits (secs mod 60) @ fmt_frac u 9 @ ''s'')"

section \<open>Options\<close>

record options =
  oPort :: int
  oRack :: int
  oSlot :: int
  oLocalTSAP :: uint16
  oRemoteTSAP :: uint16
  oUseExplicit :: bool
  oAutoRackSlot :: bool
  oBruteRackSlot :: bool
  oTimeout :: duration
  oRateLimit :: duration
  oLogger :: bool \<comment> \<open>a non-nil \<open>Logger\<close>\<close>
  oMaxPDU :: int
  oMaxAmqCalling :: int
  oMaxAmqCalled :: int

type_synonym Option = "options \<Rightarrow> options"

definition defaultOptions :: options where
  "defaultOptions =
     \<lparr>oPort = 102, oRack = 0, oSlot = 1, oLocalTSAP = 0, oRemoteTSAP = 0, oUseExplicit = False,
      oAutoRackSlot = False, oBruteRackSlot = False, oTimeout = 5 * second, oRateLimit = 0,
      oLogger = False, oMaxPDU = 480, oMaxAmqCalling = 1, oMaxAmqCalled = 1\<rparr>"

definition WithPort :: "int \<Rightarrow> Option" where
  "WithPort port = (\<lambda>opts. opts\<lparr>oPort := port\<rparr>)"

definition WithRackSlot :: "int \<Rightarrow> int \<Rightarrow> Option" where
  "WithRackSlot rack slot = (\<lambda>opts. opts\<lparr>oRack := rack, oSlot := slot\<rparr>)"

definition WithTSAP :: "uint16 \<Rightarrow> uint16 \<Rightarrow> Option" where
  "WithTSAP local remote =
     (\<lambda>opts. opts\<lparr>oLocalTSAP := local, oRemoteTSAP := remote, oUseExplicit := True\<rparr>)"

definition WithAutoRackSlot :: "bool \<Rightarrow> Option" where
  "WithAutoRackSlot brute = (\<lambda>opts. opts\<lparr>oAutoRackSlot := True, oBruteRackSlot := brute\<rparr>)"

definition WithTimeout :: "duration \<Rightarrow> Option" where
  "WithTimeout t = (\<lambda>opts. opts\<lparr>oTimeout := t\<rparr>)"

definition WithRateLimit :: "duration \<Rightarrow> Option" where
  "WithRateLimit d = (\<lambda>opts. opts\<lparr>oRateLimit := d\<rparr>)"

definition WithLogger :: "bool \<Rightarrow> Option" where
  "WithLogger l = (\<lambda>opts. opts\<lparr>oLogger := l\<rparr>)"

definition WithMaxPDU :: "int \<Rightarrow> Option" where
  "WithMaxPDU size' = (\<lambda>opts. opts\<lparr>oMaxPDU := size'\<rparr>)"

section \<open>Handshake\<close>

definition protocol_err :: "string \<Rightarrow> goerr \<Rightarrow> goerr" where
  \<comment> \<open>\<open>fmt.Errorf("msg: %w", errors.Join(err, ErrProtocolFailure))\<close>\<close>
  "protocol_err msg err = Errorf (msg @ '': '') (Joined [err, Sentinel ErrProtocolFailure]) ''''"

definition performCOTPConnect ::
    "env \<Rightarrow> ctx \<Rightarrow> nat \<Rightarrow> uint16 \<Rightarrow> uint16 \<Rightarrow> ('z world_scheme, unit) io" where
  "performCOTPConnect E cx conn localTSAP remoteTSAP =
     io_bind (ctx_check cx) (\<lambda>_.
     io_bind (io_wrap (protocol_err ''encode COTP CR'')
       (io_pure (Some (EncodeCOTPCR (env_cotp E) localTSAP remoteTSAP)))) (\<lambda>crBytes.
     io_bind (SendContext E conn cx crBytes) (\<lambda>_.
     io_bind (ReceiveContext E conn cx) (\<lambda>resp.
     io_bind (io_wrap (protocol_err ''decode COTP'')
       (io_pure (Some (cotp_Decode (env_cotp E) resp)))) (\<lambda>dec.
     if decType dec \<noteq> cotp_TypeCC (env_cotp E) then
       io_fail (Errorf (''expected COTP CC, got '' @ cotp_TypeString (env_cotp E) (decType dec) @ '': '')
                  (Sentinel ErrProtocolFailure) '''')
     else io_ret ())))))"

definition setup_reply :: "cotp_lib \<Rightarrow> uint16 \<Rightarrow> bytes \<Rightarrow> (goerr + SetupCommResponse) option" where
  \<comment> \<open>from the received TPDU to the result of \<open>performS7Setup\<close>\<close>
  "setup_reply C pduRef resp =
     (case cotp_Decode C resp of
        Inl err \<Rightarrow> Some (Inl (protocol_err ''decode COTP'' err))
      | Inr dec \<Rightarrow>
        (case decDT dec of
           None \<Rightarrow> Some (Inl (Errorf (''expected COTP DT, got '' @ cotp_TypeString C (decType dec) @ '': '')
                               (Sentinel ErrProtocolFailure) ''''))
         | Some dt \<Rightarrow> do {
             p \<leftarrow> ParseS7Header (dtUserData dt);
             case p of
               Inl err \<Rightarrow> Some (Inl (protocol_err ''parse S7 header'' err))
             | Inr (header, paramData) \<Rightarrow>
                 if hPDURef header \<noteq> pduRef
                 then Some (Inl (PDURefMismatchError pduRef (hPDURef header)))
                 else if hErrorClass header \<noteq> 0 \<or> hErrorCode header \<noteq> 0 then
                   map_option (Inl \<circ> S7Err)
                     (NewS7ErrorWithParam (hErrorClass header) (hErrorCode header) paramData)
                 else do {
                   bad \<leftarrow> (if length paramData > 0
                            then map_option (\<lambda>f. if f \<noteq> FuncSetupComm then Some f else None) (idx paramData 0)
                            else Some None);
                   case bad of
                     Some f \<Rightarrow>
                       Some (Inl (Errorf (''S7 setup response: expected function 0x'' @
                         fmt02X FuncSetupComm @ '', got 0x'' @ fmt02X f @ '': '')
                         (Sentinel ErrProtocolFailure) ''''))
                   | None \<Rightarrow> do {
                       r \<leftarrow> ParseSetupCommResponse paramData;
                       case r of
                         Inl err \<Rightarrow> Some (Inl (protocol_err ''parse setup response'' err))
                       | Inr setup \<Rightarrow> Some (Inr setup) } } }))"

definition performS7Setup ::
    "env \<Rightarrow> ctx \<Rightarrow> nat \<Rightarrow> uint16 \<Rightarrow> int \<Rightarrow> int \<Rightarrow> int \<Rightarrow> ('z world_scheme, SetupCommResponse) io" where
  "performS7Setup E cx conn pduRef maxAmqCalling maxAmqCalled maxPDU =
     io_bind (ctx_check cx) (\<lambda>_.
     let req = EncodeSetupCommRequest pduRef maxAmqCalling maxAmqCalled maxPDU in
     io_bind (io_wrap (protocol_err ''encode COTP DT'')
       (io_pure (Some (EncodeCOTPDT (env_cotp E) req)))) (\<lambda>dtBytes.
     io_bind (SendContext E conn cx dtBytes) (\<lambda>_.
     io_bind (ReceiveContext E conn cx) (\<lambda>resp.
     io_pure (setup_reply (env_cotp E) pduRef resp)))))"

section \<open>Lemmas\<close>

lemma only_trace_performCOTPConnect: "only_trace s (snd (performCOTPConnect E cx c l r s))"
  unfolding performCOTPConnect_def
  by (intro tr.frame_bind tr.frame_wrap only_trace_atoms only_trace_SendContext
      only_trace_ReceiveContext tr.frame_pure) (simp add: tr.R_refl)

lemma only_trace_performS7Setup: "only_trace s (snd (performS7Setup E cx c ref a b m s))"
  unfolding performS7Setup_def Let_def
  by (intro tr.frame_bind tr.frame_wrap only_trace_atoms only_trace_SendContext
      only_trace_ReceiveContext tr.frame_pure)

text \<open>A set-up that succeeds was answered without an error, under the reference that was sent.\<close>

lemma setup_reply_Inr:
  assumes "setup_reply C ref resp = Some (Inr setup)"
  obtains dec dt h rest where
    "cotp_Decode C resp = Inr dec" "decDT dec = Some dt"
    "ParseS7Header (dtUserData dt) = Some (Inr (h, rest))"
    "hPDURef h = ref" "hErrorClass h = 0" "hErrorCode h = 0"
    "ParseSetupCommResponse rest = Some (Inr setup)"
proof -
  from assms obtain dec dt where d: "cotp_Decode C resp = Inr dec" "decDT dec = Some dt"
    by (auto simp: setup_reply_def split: sum.splits option.splits)
  show ?thesis
  proof (cases rule: ParseS7Header_cases [of "dtUserData dt"])
    case (err e)
    with assms d show ?thesis by (simp add: setup_reply_def)
  next
    case (ok h rest)
    have "hPDURef h = ref" "hErrorClass h = 0 \<and> hErrorCode h = 0"
      using assms d ok by (auto simp: setup_reply_def split: if_splits)
    moreover from this have "ParseSetupCommResponse rest = Some (Inr setup)"
      using assms d ok
      by (auto simp: setup_reply_def split: if_splits Option.bind_splits sum.splits option.splits)
    ultimately show ?thesis using that d ok by blast
  qed
qed

lemma setup_reply_total: "setup_reply C ref resp \<noteq> None"
proof -
  have "setup_reply C ref resp \<noteq> None" if "decDT dec = Some dt" "cotp_Decode C resp = Inr dec" for dec dt
    by (cases rule: ParseS7Header_cases [of "dtUserData dt"])
       (auto simp: setup_reply_def that ParseSetupCommResponse_eq NewS7ErrorWithParam_eq idx_def
         split: sum.splits option.splits if_splits)
  then show ?thesis
    by (cases "cotp_Decode C resp") (auto simp: setup_reply_def split: option.split)
qed

lemma performS7Setup_bounds:
  assumes "performS7Setup E cx c ref a b m s = (Some (Inr setup), t)"
  shows "0 \<le> scPDUSize setup" "scPDUSize setup < 65536"
proof -
  obtain resp where "setup_reply (env_cotp E) ref resp = Some (Inr setup)"
    using assms unfolding performS7Setup_def Let_def io_bind_ok_iff by auto
  then show "0 \<le> scPDUSize setup" "scPDUSize setup < 65536"
    by (auto elim!: setup_reply_Inr dest!: ParseSetupCommResponse_bounds)
qed

end
