(* ===== verification/Codec.thy ===== *)
theory Codec
  imports Prelude
begin

text \<open>
  Data conversion (\<open>model/codec/codec.go\<close>, re-exported by \<open>model/types.go\<close>): the decoders
  and encoders of S7 values in big-endian byte order.  A \<open>float32\<close> is represented by its
  IEEE 754 bit pattern, on which \<open>math.Float32bits\<close> and \<open>math.Float32frombits\<close> are the
  identity; an \<open>int16\<close> or \<open>int32\<close> is an \<open>int\<close> in its range.

  The decoders that index the slice return an \<open>option\<close> (\<open>None\<close> a panic); the lemmas show
  that no input makes them panic.  The locales \<open>fixed_codec\<close> and \<open>exact_codec\<close> state the
  contract every fixed-width pair keeps, and are interpreted on each of them.
\<close>

section \<open>Decoders\<close>

definition DecodeBool :: "bytes \<Rightarrow> int \<Rightarrow> bool option" where
  "DecodeBool data bit' =
     (if bit' < 0 then Some False
      else if length data = 0 then Some False
      else let byteOffset = bit' div 8; bitOffset = bit' mod 8
           in if byteOffset \<ge> int (length data) then Some False
              else do { b \<leftarrow> idx data (nat byteOffset);
                        Some (b AND push_bit (nat bitOffset) 1 \<noteq> 0) })"

definition DecodeByte :: "bytes \<Rightarrow> byte option" where
  "DecodeByte data = (if length data < 1 then Some 0 else idx data 0)"

definition DecodeWord :: "bytes \<Rightarrow> uint16 option" where
  "DecodeWord data = (if length data < 2 then Some 0 else u16_at data 0)"

definition DecodeInt :: "bytes \<Rightarrow> int option" where
  "DecodeInt data = map_option sint (DecodeWord data)"

definition DecodeDWord :: "bytes \<Rightarrow> uint32 option" where
  "DecodeDWord data = (if length data < 4 then Some 0 else u32_at data 0)"

definition DecodeDInt :: "bytes \<Rightarrow> int option" where
  "DecodeDInt data = map_option sint (DecodeDWord data)"

definition DecodeReal :: "bytes \<Rightarrow> uint32 option" where
  "DecodeReal data = DecodeDWord data"

definition DecodeString :: "bytes \<Rightarrow> bytes option" where
  "DecodeString data =
     (if length data < 2 then Some []
      else do { b \<leftarrow> idx data 1;
                let actualLen = unat b;
                let actualLen = (if 2 + actualLen > length data then length data - 2 else actualLen);
                slice data 2 (2 + actualLen) })"

section \<open>Encoders\<close>

definition EncodeBool :: "bool \<Rightarrow> bytes" where
  "EncodeBool val = (if val then [0x01] else [0x00])"

definition EncodeByte :: "byte \<Rightarrow> bytes" where
  "EncodeByte val = [val]"

definition EncodeWord :: "uint16 \<Rightarrow> bytes" where
  "EncodeWord val = put16 val"

definition EncodeInt :: "int \<Rightarrow> bytes" where
  "EncodeInt val = EncodeWord (word_of_int val)"

definition EncodeDWord :: "uint32 \<Rightarrow> bytes" where
  "EncodeDWord val = put32 val"

definition EncodeDInt :: "int \<Rightarrow> bytes" where
  "EncodeDInt val = EncodeDWord (word_of_int val)"

definition EncodeReal :: "uint32 \<Rightarrow> bytes" where
  "EncodeReal val = EncodeDWord val"

definition EncodeString :: "bytes \<Rightarrow> int \<Rightarrow> bytes" where
  "EncodeString val maxLen =
     (let maxLen = (if maxLen < 2 then 2 else maxLen);
          maxLen = (if maxLen > 256 then 256 else maxLen);
          maxChars = nat (maxLen - 2);
          val = (if length val > maxChars then take maxChars val else val);
          buf = replicate (nat maxLen) 0;
          buf = buf[0 := of_nat maxChars];
          buf = buf[1 := of_nat (length val)]
      in copy_at 2 buf val)"

section \<open>The decoders never panic\<close>

lemma DecodeBool_eq:
  "DecodeBool data n =
     Some (0 \<le> n \<and> n div 8 < int (length data) \<and> bit (data ! nat (n div 8)) (nat (n mod 8)))"
proof (cases "0 \<le> n \<and> n div 8 < int (length data)")
  case True
  then have len: "nat (n div 8) < length data" by linarith
  have "(b AND push_bit (nat (n mod 8)) 1 \<noteq> 0) = bit b (nat (n mod 8))" for b :: byte
    by (simp only: bit_iff_and_push_bit_not_eq_0)
  then show ?thesis using True len by (auto simp: DecodeBool_def idx_def Let_def)
next
  case False
  then show ?thesis by (auto simp: DecodeBool_def Let_def)
qed

lemma DecodeByte_eq: "DecodeByte data = Some (if data = [] then 0 else hd data)"
  by (cases data) (auto simp: DecodeByte_def idx_def)

lemma DecodeWord_eq:
  "DecodeWord data = Some (if length data < 2 then 0 else be16 (data ! 0) (data ! 1))"
  by (simp add: DecodeWord_def go_slice)

lemma DecodeDWord_eq:
  "DecodeDWord data =
     Some (if length data < 4 then 0 else be32 (data ! 0) (data ! 1) (data ! 2) (data ! 3))"
  by (simp add: DecodeDWord_def go_slice numeral_eq_Suc)

lemma DecodeString_eq:
  "DecodeString data = Some (if length data < 2 then [] else take (unat (data ! 1)) (drop 2 data))"
  by (auto simp: DecodeString_def idx_def slice_def Let_def min_def)

lemmas decoder_eqs = DecodeBool_eq DecodeByte_eq DecodeWord_eq DecodeDWord_eq DecodeString_eq
  DecodeInt_def DecodeDInt_def DecodeReal_def

section \<open>The contract of a fixed-width codec\<close>

fun decode_seq :: "nat \<Rightarrow> (bytes \<Rightarrow> 'a option) \<Rightarrow> nat \<Rightarrow> bytes \<Rightarrow> 'a list option" where
  \<comment> \<open>\<open>n\<close> consecutive values of \<open>w\<close> bytes each\<close>
  "decode_seq w dec 0 data = Some []"
| "decode_seq w dec (Suc n) data =
     do { x \<leftarrow> dec data; xs \<leftarrow> decode_seq w dec n (drop w data); Some (x # xs) }"

locale fixed_codec =
  fixes enc :: "'a \<Rightarrow> bytes"
    and dec :: "bytes \<Rightarrow> 'a option"
    and width :: nat
    and valid :: "'a \<Rightarrow> bool"
  assumes enc_width: "valid x \<Longrightarrow> length (enc x) = width"
    and dec_enc: "valid x \<Longrightarrow> dec (enc x @ rest) = Some x"
begin

lemma roundtrip: "valid x \<Longrightarrow> dec (enc x) = Some x"
  using dec_enc [of x "[]"] by simp

lemma enc_inj: "valid x \<Longrightarrow> valid y \<Longrightarrow> enc x = enc y \<Longrightarrow> x = y"
  by (metis roundtrip option.inject)

lemma seq_roundtrip:
  "list_all valid xs \<Longrightarrow> decode_seq width dec (length xs) (concat (map enc xs) @ rest) = Some xs"
  by (induction xs) (simp_all add: dec_enc enc_width)

lemma seq_width: "list_all valid xs \<Longrightarrow> length (concat (map enc xs)) = width * length xs"
  by (induction xs) (simp_all add: enc_width)

end

locale exact_codec = fixed_codec +
  assumes dec_surj: "length data = width \<Longrightarrow> \<exists>x. valid x \<and> dec data = Some x \<and> enc x = data"
begin

lemma enc_dec: "length data = width \<Longrightarrow> dec data = Some x \<Longrightarrow> enc x = data"
  using dec_surj by fastforce

lemma dec_inj:
  "length data = width \<Longrightarrow> length data' = width \<Longrightarrow> dec data = dec data' \<Longrightarrow> data = data'"
  using dec_surj enc_dec by metis

end

lemma list2E: "length xs = 2 \<Longrightarrow> (\<And>a b. xs = [a, b] \<Longrightarrow> P) \<Longrightarrow> P"
  by (auto simp: numeral_eq_Suc length_Suc_conv)

lemma list4E: "length xs = 4 \<Longrightarrow> (\<And>a b c d. xs = [a, b, c, d] \<Longrightarrow> P) \<Longrightarrow> P"
  by (auto simp: numeral_eq_Suc length_Suc_conv)

lemma word_of_int_sint16: "- 32768 \<le> x \<Longrightarrow> x < 32768 \<Longrightarrow> sint (word_of_int x :: uint16) = x"
  by (simp add: signed_of_int signed_take_bit_int_eq_self)

lemma word_of_int_sint32:
  "- 2147483648 \<le> x \<Longrightarrow> x < 2147483648 \<Longrightarrow> sint (word_of_int x :: uint32) = x"
  by (simp add: signed_of_int signed_take_bit_int_eq_self)

lemma sint16_range: "- 32768 \<le> sint (w :: uint16) \<and> sint w < 32768"
  using sint_range_size [of w] by (simp add: word_size)

lemma sint32_range: "- 2147483648 \<le> sint (w :: uint32) \<and> sint w < 2147483648"
  using sint_range_size [of w] by (simp add: word_size)

interpretation byte_codec: exact_codec EncodeByte DecodeByte 1 "\<lambda>_. True"
  by unfold_locales (auto simp: EncodeByte_def DecodeByte_eq length_Suc_conv)

interpretation word_codec: exact_codec EncodeWord DecodeWord 2 "\<lambda>_. True"
proof unfold_locales
  fix data :: bytes
  assume "length data = 2"
  then show "\<exists>x. True \<and> DecodeWord data = Some x \<and> EncodeWord x = data"
    by (rule list2E) (simp add: DecodeWord_eq EncodeWord_def)
qed (simp_all add: EncodeWord_def DecodeWord_eq put16_def)

interpretation dword_codec: exact_codec EncodeDWord DecodeDWord 4 "\<lambda>_. True"
proof unfold_locales
  fix data :: bytes
  assume "length data = 4"
  then show "\<exists>x. True \<and> DecodeDWord data = Some x \<and> EncodeDWord x = data"
    by (rule list4E) (simp add: DecodeDWord_eq EncodeDWord_def)
qed (simp_all add: EncodeDWord_def DecodeDWord_eq put32_def)

interpretation real_codec: exact_codec EncodeReal DecodeReal 4 "\<lambda>_. True"
  using dword_codec.exact_codec_axioms
  by (simp add: EncodeReal_def [abs_def] DecodeReal_def [abs_def])

interpretation int_codec: exact_codec EncodeInt DecodeInt 2 "\<lambda>x. - 32768 \<le> x \<and> x < 32768"
proof unfold_locales
  fix x :: int and rest
  assume "- 32768 \<le> x \<and> x < 32768"
  then show "DecodeInt (EncodeInt x @ rest) = Some x"
    by (simp add: DecodeInt_def EncodeInt_def word_codec.dec_enc word_of_int_sint16)
next
  fix data :: bytes
  assume "length data = 2"
  then obtain w where "DecodeWord data = Some w" "EncodeWord w = data"
    using word_codec.dec_surj by blast
  then show "\<exists>x. (- 32768 \<le> x \<and> x < 32768) \<and> DecodeInt data = Some x \<and> EncodeInt x = data"
    using sint16_range [of w] by (auto simp: DecodeInt_def EncodeInt_def)
qed (simp add: EncodeInt_def word_codec.enc_width)

interpretation dint_codec: exact_codec EncodeDInt DecodeDInt 4
  "\<lambda>x. - 2147483648 \<le> x \<and> x < 2147483648"
proof unfold_locales
  fix x :: int and rest
  assume "- 2147483648 \<le> x \<and> x < 2147483648"
  then show "DecodeDInt (EncodeDInt x @ rest) = Some x"
    by (simp add: DecodeDInt_def EncodeDInt_def dword_codec.dec_enc word_of_int_sint32)
next
  fix data :: bytes
  assume "length data = 4"
  then obtain w where "DecodeDWord data = Some w" "EncodeDWord w = data"
    using dword_codec.dec_surj by blast
  then show "\<exists>x. (- 2147483648 \<le> x \<and> x < 2147483648) \<and> DecodeDInt data = Some x \<and> EncodeDInt x = data"
    using sint32_range [of w] by (auto simp: DecodeDInt_def EncodeDInt_def)
qed (simp add: EncodeDInt_def dword_codec.enc_width)

section \<open>Strings\<close>

definition clamp_len :: "int \<Rightarrow> nat" where
  "clamp_len m = nat (max 2 (min 256 m))"

lemma clamp_len_bounds: "2 \<le> clamp_len m" "clamp_len m \<le> 256"
  by (auto simp: clamp_len_def)

lemma EncodeString_eq:
  "EncodeString val m =
     (let n = clamp_len m - 2; v = take n val
      in of_nat n # of_nat (length v) # v @ replicate (n - length v) 0)"
proof -
  let ?m = "if (if m < 2 then 2 else m) > 256 then 256 else (if m < 2 then 2 else m)"
  have c: "nat ?m = clamp_len m" by (auto simp: clamp_len_def)
  obtain k where k: "clamp_len m = Suc (Suc k)"
    using clamp_len_bounds(1) [of m] by (metis Suc_le_D numeral_2_eq_2 Suc_le_mono)
  have mc: "nat (?m - 2) = k" using c k by linarith
  have v: "(if length val > k then take k val else val) = take k val" by simp
  have "EncodeString val m =
      copy_at 2 ((replicate (Suc (Suc k)) 0)[0 := of_nat k, 1 := of_nat (length (take k val))])
        (take k val)"
    unfolding EncodeString_def Let_def by (simp only: mc c k v)
  also have "\<dots> = of_nat k # of_nat (length (take k val)) # take k val @
      replicate (k - length (take k val)) 0"
    by (simp add: copy_at_def Let_def)
  finally show ?thesis by (simp add: k Let_def)
qed

lemma length_EncodeString: "length (EncodeString val m) = clamp_len m"
  using clamp_len_bounds(1) [of m] by (simp add: EncodeString_eq Let_def)

lemma DecodeString_EncodeString:
  "DecodeString (EncodeString val m @ rest) = Some (take (clamp_len m - 2) val)"
proof -
  let ?v = "take (clamp_len m - 2) val"
  have "length ?v < 256" using clamp_len_bounds [of m] by simp
  then have "unat (of_nat (length ?v) :: byte) = length ?v"
    by (simp add: unat_of_nat)
  then show ?thesis by (simp add: DecodeString_eq EncodeString_eq Let_def)
qed

end
