(* ===== verification/Model_Types.thy ===== *)
theory Model_Types
  imports Codec
begin

text \<open>
  The data types of the package \<open>model\<close> (\<open>areas.go\<close>, \<open>blocks.go\<close>, \<open>device.go\<close>,
  \<open>fingerprint.go\<close>, \<open>types.go\<close>).  A Go type that is a named \<open>uint8\<close> with constants is
  the type \<open>byte\<close> with the same constants, because any byte can occur in it.
\<close>

section \<open>Areas and addresses\<close>

type_synonym Area = byte

definition AreaInputs :: Area where "AreaInputs = 0x81"
definition AreaOutputs :: Area where "AreaOutputs = 0x82"
definition AreaMerkers :: Area where "AreaMerkers = 0x83"
definition AreaDB :: Area where "AreaDB = 0x84"
definition AreaCounter :: Area where "AreaCounter = 0x1C"
definition AreaTimer :: Area where "AreaTimer = 0x1D"

lemmas area_defs = AreaInputs_def AreaOutputs_def AreaMerkers_def AreaDB_def AreaCounter_def
  AreaTimer_def

definition Area_String :: "Area \<Rightarrow> string" where
  "Area_String a =
     (if a = AreaInputs then ''I''
      else if a = AreaOutputs then ''Q''
      else if a = AreaMerkers then ''M''
      else if a = AreaDB then ''DB''
      else if a = AreaCounter then ''C''
      else if a = AreaTimer then ''T''
      else ''?'')"

record Address =
  aArea :: Area
  aDBNumber :: int
  aStart :: int
  aSize :: int

section \<open>Blocks\<close>

type_synonym BlockType = byte

definition BlockOB :: BlockType where "BlockOB = 0x38"
definition BlockDB :: BlockType where "BlockDB = 0x41"
definition BlockSDB :: BlockType where "BlockSDB = 0x42"
definition BlockFC :: BlockType where "BlockFC = 0x43"
definition BlockSFC :: BlockType where "BlockSFC = 0x44"
definition BlockFB :: BlockType where "BlockFB = 0x45"
definition BlockSFB :: BlockType where "BlockSFB = 0x46"

lemmas block_defs = BlockOB_def BlockDB_def BlockSDB_def BlockFC_def BlockSFC_def BlockFB_def
  BlockSFB_def

definition BlockType_String :: "BlockType \<Rightarrow> string" where
  "BlockType_String b =
     (if b = BlockOB then ''OB''
      else if b = BlockDB then ''DB''
      else if b = BlockSDB then ''SDB''
      else if b = BlockFC then ''FC''
      else if b = BlockSFC then ''SFC''
      else if b = BlockFB then ''FB''
      else if b = BlockSFB then ''SFB''
      else ''?'')"

type_synonym BlockLang = byte

definition BlockLang_String :: "BlockLang \<Rightarrow> string" where
  "BlockLang_String l =
     (if l = 0x01 then ''AWL''
      else if l = 0x02 then ''KOP''
      else if l = 0x03 then ''FUP''
      else if l = 0x04 then ''SCL''
      else if l = 0x05 then ''DB''
      else if l = 0x06 then ''GRAPH''
      else ''?'')"

record BlockInfo =
  biType :: BlockType
  biNumber :: int
  biLanguage :: BlockLang
  biFlags :: byte
  biLoadMemory :: int
  biLocalData :: int
  biMC7Size :: int
  biSBBLength :: int
  biAuthor :: string
  biFamily :: string
  biName :: string
  biVersion :: string
  biCheckSum :: uint16

definition zero_BlockInfo :: BlockInfo where
  "zero_BlockInfo =
     \<lparr>biType = 0, biNumber = 0, biLanguage = 0, biFlags = 0, biLoadMemory = 0, biLocalData = 0,
      biMC7Size = 0, biSBBLength = 0, biAuthor = '''', biFamily = '''', biName = '''',
      biVersion = '''', biCheckSum = 0\<rparr>"

record BlockData =
  bdInfo :: BlockInfo
  bdData :: bytes

section \<open>Devices\<close>

record DeviceInfo =
  diOrderNumber :: bytes
  diSerialNumber :: bytes
  diModuleName :: bytes
  diPlantID :: bytes
  diCopyright :: bytes
  diModuleType :: bytes
  diFWVersion :: bytes
  diHWVersion :: bytes
  diCPUType :: bytes
  diCPUFamily :: bytes

record ConnectionInfo =
  ciHost :: string
  ciPort :: int
  ciLocalTSAP :: uint16
  ciRemoteTSAP :: uint16
  ciRack :: int
  ciSlot :: int
  ciPDUSize :: int
  ciMaxAmqCalling :: int
  ciMaxAmqCalled :: int

type_synonym CPUState = byte

definition CPUStateUnknown :: CPUState where "CPUStateUnknown = 0"
definition CPUStateRun :: CPUState where "CPUStateRun = 1"
definition CPUStateStop :: CPUState where "CPUStateStop = 2"
definition CPUStateStartup :: CPUState where "CPUStateStartup = 3"
definition CPUStateHold :: CPUState where "CPUStateHold = 4"

lemmas cpustate_defs = CPUStateUnknown_def CPUStateRun_def CPUStateStop_def CPUStateStartup_def
  CPUStateHold_def

definition CPUState_String :: "CPUState \<Rightarrow> string" where
  "CPUState_String s =
     (if s = CPUStateRun then ''RUN''
      else if s = CPUStateStop then ''STOP''
      else if s = CPUStateStartup then ''STARTUP''
      else if s = CPUStateHold then ''HOLD''
      else ''UNKNOWN'')"

type_synonym ProtectionLevel = byte

definition ProtectionNone :: ProtectionLevel where "ProtectionNone = 0"
definition ProtectionRead :: ProtectionLevel where "ProtectionRead = 1"
definition ProtectionReadWrite :: ProtectionLevel where "ProtectionReadWrite = 2"
definition ProtectionFull :: ProtectionLevel where "ProtectionFull = 3"

lemmas protection_defs = ProtectionNone_def ProtectionRead_def ProtectionReadWrite_def
  ProtectionFull_def

definition ProtectionLevel_String :: "ProtectionLevel \<Rightarrow> string" where
  "ProtectionLevel_String p =
     (if p = ProtectionNone then ''No Protection''
      else if p = ProtectionRead then ''Write Protected''
      else if p = ProtectionReadWrite then ''Read/Write Protected''
      else if p = ProtectionFull then ''Full Protection''
      else ''Unknown'')"

record DiagEntry =
  deTimestamp :: string
  deEventID :: uint16
  deEventClass :: byte
  dePriority :: byte
  deDescription :: string
  deInfo1 :: uint32
  deInfo2 :: uint32

record DiagBuffer =
  dbEntries :: "DiagEntry list"
  dbTotalCount :: int

section \<open>Fingerprints\<close>

record Fingerprint =
  fpCPUType :: string
  fpCPUGeneration :: int
  fpOrderNumber :: string
  fpFirmwareVer :: string
  fpModuleName :: string
  fpPDUSize :: int
  fpMaxAmqCalling :: int
  fpMaxAmqCalled :: int
  fpDetectedRack :: int
  fpDetectedSlot :: int
  fpAcceptedTSAP :: uint16
  fpProtection :: ProtectionLevel
  fpSupportsRead :: bool
  fpSupportsWrite :: bool
  fpSupportsSZL :: bool
  fpSupportsUpload :: bool
  fpSupportsPI :: bool

record TSAPProfile =
  tpLocalTSAP :: uint16
  tpRemoteTSAP :: uint16
  tpSuccess :: bool
  tpPDUSize :: int

end
