(* ===== verification/Client.thy ===== *)
theory Client
  imports Handshake Model_Types
begin

text \<open>
  The client (\<open>client/client.go\<close>): connection set-up with manual or automatic rack/slot
  selection, the request/response exchange, close, and the connection snapshot.

  The state is the record \<open>client\<close>: the fields of the Go struct on top of the heap and the
  trace of \<open>Transport\<close>.  The mutexes of the source make each operation atomic; the model
  runs one operation at a time.  The part of \<open>sendReceive\<close> that only looks at the received
  TPDU is the function \<open>sendReceive_reply\<close>.

  The invariant \<open>client_inv\<close> (a disconnected client has zeroed limits, a connected one
  holds an open connection) is kept by every operation; the relation \<open>keeps_session\<close> is
  what a failed reconnect may change.
\<close>

section \<open>State\<close>

record client = world +
  clHost :: string
  clOpts :: options
  clConn :: "nat option"
  clRack :: int
  clSlot :: int
  clPduRef :: uint32
  clLocalTSAP :: uint16
  clRemoteTSAP :: uint16
  clPduSize :: int
  clMaxAmqCalling :: int
  clMaxAmqCalled :: int

definition New :: "string \<Rightarrow> Option list \<Rightarrow> 'z world_scheme \<Rightarrow> client" where
  "New host opts w =
     \<lparr>w_trace = w_trace w, w_conns = w_conns w, w_next = w_next w,
      clHost = host, clOpts = fold (\<lambda>f o'. f o') opts defaultOptions, clConn = None,
      clRack = 0, clSlot = 0, clPduRef = 0, clLocalTSAP = 0, clRemoteTSAP = 0, clPduSize = 0,
      clMaxAmqCalling = 0, clMaxAmqCalled = 0\<rparr>"

definition JoinHostPort :: "string \<Rightarrow> string \<Rightarrow> string" where
  \<comment> \<open>\<open>net.JoinHostPort\<close>\<close>
  "JoinHostPort host port =
     (if CHR '':'' \<in> set host then ''['' @ host @ '']:'' @ port else host @ '':'' @ port)"

section \<open>Connecting\<close>

definition close_and_fail :: "env \<Rightarrow> nat \<Rightarrow> goerr \<Rightarrow> ('z world_scheme, 'a) io" where
  \<comment> \<open>\<open>_ = conn.Close(); return err\<close>\<close>
  "close_and_fail E conn err = io_case (transport_Close E conn) (\<lambda>_. io_fail err)"

definition connect_TSAPs :: "options \<Rightarrow> int \<Rightarrow> int \<Rightarrow> goerr + uint16 \<times> uint16" where
  "connect_TSAPs opts rack slot =
     (if oUseExplicit opts then Inr (oLocalTSAP opts, oRemoteTSAP opts)
      else case BuildTSAP 1 0 0 of
             Inl err \<Rightarrow> Inl (ValidationError (err_text err))
           | Inr local \<Rightarrow>
               (case BuildTSAP 3 rack slot of
                  Inl err \<Rightarrow> Inl (ValidationError (err_text err))
                | Inr remote \<Rightarrow> Inr (local, remote)))"

definition install_session ::
    "nat \<Rightarrow> int \<Rightarrow> int \<Rightarrow> uint16 \<Rightarrow> uint16 \<Rightarrow> SetupCommResponse \<Rightarrow> client \<Rightarrow> client" where
  "install_session conn rack slot local remote setup =
     (\<lambda>c. c\<lparr>clConn := Some conn, clRack := rack, clSlot := slot, clLocalTSAP := local,
            clRemoteTSAP := remote, clPduSize := scPDUSize setup,
            clMaxAmqCalling := scMaxAmqCalling setup, clMaxAmqCalled := scMaxAmqCalled setup\<rparr>)"

definition connectOnce :: "env \<Rightarrow> ctx \<Rightarrow> int \<Rightarrow> int \<Rightarrow> (client, unit) io" where
  "connectOnce E cx rack slot =
     (\<lambda>s0. let opts = clOpts s0; addr = JoinHostPort (clHost s0) (fmt_d (oPort opts)) in
       io_bind (dialTransport E cx addr (oTimeout opts)) (\<lambda>conn.
       case connect_TSAPs opts rack slot of
         Inl err \<Rightarrow> close_and_fail E conn err
       | Inr (local, remote) \<Rightarrow>
           io_case (performCOTPConnect E cx conn local remote) (\<lambda>r. case r of
             Inl err \<Rightarrow> close_and_fail E conn (Errorf ''COTP connect: '' err '''')
           | Inr _ \<Rightarrow>
               io_case (performS7Setup E cx conn 1 (oMaxAmqCalling opts) (oMaxAmqCalled opts)
                          (oMaxPDU opts)) (\<lambda>r. case r of
                 Inl err \<Rightarrow> close_and_fail E conn (Errorf ''S7 setup: '' err '''')
               | Inr setup \<Rightarrow>
                   io_bind (io_get clConn) (\<lambda>oldConn.
                   io_bind (io_modify (install_session conn rack slot local remote setup)) (\<lambda>_.
                   case oldConn of
                     None \<Rightarrow> io_ret ()
                   | Some old \<Rightarrow> io_case (transport_Close E old) (\<lambda>_. io_ret ())))))) s0)"

fun try_pairs :: "env \<Rightarrow> ctx \<Rightarrow> string \<Rightarrow> (int \<times> int) list \<Rightarrow> (client, unit) io" where
  "try_pairs E cx msg [] = io_fail (ErrorText msg)"
| "try_pairs E cx msg ((rack, slot) # rest) =
     io_bind (ctx_check cx) (\<lambda>_.
     io_case (connectOnce E cx rack slot) (\<lambda>r. case r of
       Inr _ \<Rightarrow> io_ret ()
     | Inl _ \<Rightarrow> try_pairs E cx msg rest))"

definition brute_pairs :: "(int \<times> int) list" where
  "brute_pairs = concat (map (\<lambda>rack. map (\<lambda>slot. (rack, slot)) [0, 1, 2, 3, 4, 5]) [0, 1, 2, 3])"

definition common_pairs :: "(int \<times> int) list" where
  "common_pairs = [(0, 1), (0, 2), (0, 0), (1, 1), (0, 3)]"

definition autoConnect :: "env \<Rightarrow> ctx \<Rightarrow> (client, unit) io" where
  "autoConnect E cx =
     (\<lambda>s. if oBruteRackSlot (clOpts s)
          then try_pairs E cx ''auto rack/slot connect failed for rack 0-3 slot 0-5'' brute_pairs s
          else try_pairs E cx ''auto rack/slot connect failed on common rack/slot pairs'' common_pairs s)"

definition validate_connect :: "options \<Rightarrow> goerr option" where
  "validate_connect opts =
     (if oPort opts < 0 then Some (ValidationError (''invalid port: '' @ fmt_d (oPort opts)))
      else if oTimeout opts < 0 then
        Some (ValidationError (''invalid timeout: '' @ duration_String (oTimeout opts)))
      else if oMaxPDU opts < 1 then
        Some (ValidationError (''invalid max PDU: '' @ fmt_d (oMaxPDU opts)))
      else if \<not> oAutoRackSlot opts \<and> (oRack opts < 0 \<or> oSlot opts < 0) then
        Some (ValidationError (''invalid rack/slot: rack='' @ fmt_d (oRack opts) @ '' slot='' @
                               fmt_d (oSlot opts)))
      else if \<not> oAutoRackSlot opts then
        map_option (\<lambda>e. ValidationError (err_text e)) (ValidateRackSlot (oRack opts) (oSlot opts))
      else None)"

definition log_connect_error :: "options \<Rightarrow> (client, unit) io \<Rightarrow> (client, unit) io" where
  "log_connect_error opts m =
     io_case m (\<lambda>r. case r of
       Inr _ \<Rightarrow> io_ret ()
     | Inl err \<Rightarrow>
         if oLogger opts then io_bind (log_ev (EvLog ''Connect failed'')) (\<lambda>_. io_fail err)
         else io_fail err)"

definition Connect :: "env \<Rightarrow> ctx \<Rightarrow> (client, unit) io" where
  "Connect E cx =
     (\<lambda>s. let opts = clOpts s in
       case validate_connect opts of
         Some err \<Rightarrow> io_fail err s
       | None \<Rightarrow>
           if oAutoRackSlot opts \<and> \<not> oUseExplicit opts
           then log_connect_error opts (autoConnect E cx) s
           else log_connect_error opts (connectOnce E cx (oRack opts) (oSlot opts)) s)"

section \<open>Closing\<close>

definition closeConnLocked :: "env \<Rightarrow> (client, unit) io" where
  "closeConnLocked E =
     (\<lambda>s. case clConn s of
            None \<Rightarrow> io_ret () s
          | Some conn \<Rightarrow>
              (case transport_Close E conn s of
                 (r, s) \<Rightarrow>
                   (r, s\<lparr>clConn := None, clRack := 0, clSlot := 0, clLocalTSAP := 0, clRemoteTSAP := 0,
                         clPduSize := 0, clMaxAmqCalling := 0, clMaxAmqCalled := 0\<rparr>)))"

definition Close :: "env \<Rightarrow> (client, unit) io" where
  "Close E = closeConnLocked E"

section \<open>Requests\<close>

definition nextPDURef :: "(client, uint16) io" where
  "nextPDURef =
     (\<lambda>s. let n = clPduRef s + 1 in (Some (Inr (ucast n)), s\<lparr>clPduRef := n\<rparr>))"

definition sendReceive_reply ::
    "cotp_lib \<Rightarrow> uint16 \<Rightarrow> bytes \<Rightarrow> (goerr + bytes \<times> bytes) option" where
  "sendReceive_reply C expectedPDURef resp =
     (case cotp_Decode C resp of
        Inl err \<Rightarrow> Some (Inl (protocol_err ''decode COTP'' err))
      | Inr dec \<Rightarrow>
        (case decDT dec of
           None \<Rightarrow> Some (Inl (Errorf (''expected COTP DT, got '' @ cotp_TypeString C (decType dec) @ '': '')
                               (Sentinel ErrProtocolFailure) ''''))
         | Some dt \<Rightarrow> do {
             p \<leftarrow> ParseS7Header (dtUserData dt);
             case p of
               Inl err \<Rightarrow> Some (Inl (protocol_err ''parse S7 header'' err))
             | Inr (header, rest) \<Rightarrow>
                 if expectedPDURef \<noteq> 0 \<and> hPDURef header \<noteq> expectedPDURef then
                   Some (Inl (Joined [Sentinel ErrProtocolFailure,
                                      PDURefMismatchError expectedPDURef (hPDURef header)]))
                 else if hErrorClass header \<noteq> 0 \<or> hErrorCode header \<noteq> 0 then do {
                   param \<leftarrow> (if unat (hParamLength header) > 0 \<and> length rest \<ge> unat (hParamLength header)
                              then slice rest 0 (unat (hParamLength header)) else Some []);
                   e \<leftarrow> NewS7ErrorWithParam (hErrorClass header) (hErrorCode header) param;
                   Some (Inl (S7Err e)) }
                 else let need = unat (hParamLength header) + unat (hDataLength header) in
                   if length rest < need then
                     Some (Inl (Errorf (''short S7 payload: need '' @ fmt_d (int need) @ '' bytes, got '' @
                       fmt_d (int (length rest)) @ '': '') (Sentinel ErrProtocolFailure) ''''))
                   else do {
                     paramData \<leftarrow> slice rest 0 (unat (hParamLength header));
                     dataData \<leftarrow> slice rest (unat (hParamLength header))
                                   (unat (hParamLength header + hDataLength header));
                     Some (Inr (paramData, dataData)) } }))"

definition sendReceive :: "env \<Rightarrow> ctx \<Rightarrow> bytes \<Rightarrow> uint16 \<Rightarrow> (client, bytes \<times> bytes) io" where
  "sendReceive E cx req expectedPDURef =
     (\<lambda>s. case clConn s of
            None \<Rightarrow> io_fail (Sentinel ErrNotConnected) s
          | Some conn \<Rightarrow>
              if clPduSize s > 0 \<and> int (length req) > clPduSize s then
                io_fail (Errorf (''request size '' @ fmt_d (int (length req)) @
                  '' exceeds negotiated PDU size '' @ fmt_d (clPduSize s) @ '': '')
                  (Sentinel ErrRequestExceedsPDU) '''') s
              else
                io_bind (io_wrap (protocol_err ''encode COTP DT'')
                  (io_pure (Some (EncodeCOTPDT (env_cotp E) req)))) (\<lambda>dtBytes.
                io_bind (SendContext E conn cx dtBytes) (\<lambda>_.
                io_bind (ctx_check cx) (\<lambda>_.
                io_bind (ReceiveContext E conn cx) (\<lambda>resp.
                io_pure (sendReceive_reply (env_cotp E) expectedPDURef resp))))) s)"

section \<open>Snapshot\<close>

definition client_ConnectionInfo :: "client \<Rightarrow> ConnectionInfo" where
  "client_ConnectionInfo c =
     \<lparr>ciHost = clHost c, ciPort = oPort (clOpts c), ciLocalTSAP = clLocalTSAP c,
      ciRemoteTSAP = clRemoteTSAP c, ciRack = clRack c, ciSlot = clSlot c,
      ciPDUSize = clPduSize c, ciMaxAmqCalling = clMaxAmqCalling c,
      ciMaxAmqCalled = clMaxAmqCalled c\<rparr>"

definition PDUSize :: "client \<Rightarrow> int" where
  "PDUSize c = clPduSize c"

end
