(* ===== verification/Client_Props.thy ===== *)
theory Client_Props
  imports Client
begin

text \<open>
  What the client's operations guarantee: no panic on a well-formed heap, the session
  invariant, the atomicity of a reconnect, and the contract of the request/response exchange
  (one frame sent, the negotiated size respected, the reply correlated).
\<close>

section \<open>Absence of panics\<close>

definition no_panic :: "('s, 'a) io \<Rightarrow> 's \<Rightarrow> bool" where
  "no_panic m s \<longleftrightarrow> fst (m s) \<noteq> None"

lemma no_panic_simps [simp]:
  "no_panic (io_ret x) s" "no_panic (io_fail e) s" "no_panic (io_get f) s" "no_panic (io_modify g) s"
  "no_panic (io_pure r) s \<longleftrightarrow> r \<noteq> None"
  "no_panic (ctx_check cx) w" "no_panic (log_ev e') w"
  by (simp_all add: no_panic_def ctx_check_def)

lemma np_case:
  assumes "no_panic m s" and "\<And>r t. m s = (Some r, t) \<Longrightarrow> no_panic (k r) t"
  shows "no_panic (io_case m k) s"
  using assms by (cases "m s") (auto simp: no_panic_def io_case_def)

lemma np_bind:
  assumes "no_panic m s" and "\<And>x t. m s = (Some (Inr x), t) \<Longrightarrow> no_panic (k x) t"
  shows "no_panic (io_bind m k) s"
  unfolding io_bind_def using assms by (intro np_case) (auto split: sum.splits)

lemma np_wrap: "no_panic m s \<Longrightarrow> no_panic (io_wrap f m) s"
  unfolding io_wrap_def by (rule np_case) (auto split: sum.splits)

lemma np_SendContext:
  assumes "conn_wf (w_conns s c)"
  shows "no_panic (SendContext E c cx data) s"
proof (cases "tConn (w_conns s c)")
  case None
  then show ?thesis by (simp add: no_panic_def SendContext_closed)
next
  case (Some sock)
  from SendContext_open [OF this assms, of E cx data] show ?thesis by (auto simp: no_panic_def)
qed

lemma np_ReceiveContext:
  assumes "conn_wf (w_conns s c)"
  shows "no_panic (ReceiveContext E c cx) s"
proof (cases "tConn (w_conns s c)")
  case None
  then show ?thesis by (simp add: no_panic_def ReceiveContext_closed)
next
  case (Some sock)
  from ReceiveContext_open [OF this assms, of E cx] show ?thesis by (auto simp: no_panic_def)
qed

lemma np_Close: "no_panic (transport_Close E c) s"
  by (simp add: no_panic_def transport_Close_total)

lemma only_trace_run: "(\<And>s. only_trace s (snd (m s))) \<Longrightarrow> m s = (r, t) \<Longrightarrow> only_trace s t"
  by (metis snd_conv)

lemma conns_run:
  "(\<And>s. only_trace s (snd (m s))) \<Longrightarrow> m s = (r, t) \<Longrightarrow> w_conns t = w_conns s"
  by (rule only_trace_sel) (rule only_trace_run)

lemma conns_ctx_check: "ctx_check cx s = (r, t) \<Longrightarrow> w_conns t = w_conns s"
  by (rule conns_run [where m = "ctx_check cx"]) (rule only_trace_atoms)

lemma conns_SendContext: "SendContext E c cx d s = (r, t) \<Longrightarrow> w_conns t = w_conns s"
  by (rule conns_run [where m = "SendContext E c cx d"]) (rule only_trace_SendContext)

lemma conns_ReceiveContext: "ReceiveContext E c cx s = (r, t) \<Longrightarrow> w_conns t = w_conns s"
  by (rule conns_run [where m = "ReceiveContext E c cx"]) (rule only_trace_ReceiveContext)

lemma conns_wrap_pure: "io_wrap f (io_pure x) s = (r, t) \<Longrightarrow> t = s"
  by (auto simp: io_wrap_def io_case_def split: option.splits sum.splits)

lemmas conns_keep = conns_ctx_check conns_SendContext conns_ReceiveContext

lemma np_performCOTPConnect:
  assumes "conn_wf (w_conns s c)"
  shows "no_panic (performCOTPConnect E cx c l r) s"
  unfolding performCOTPConnect_def
  by (intro np_bind np_wrap np_SendContext np_ReceiveContext)
     (use assms in \<open>auto dest!: conns_keep conns_wrap_pure\<close>)

lemma np_performS7Setup:
  assumes "conn_wf (w_conns s c)"
  shows "no_panic (performS7Setup E cx c ref a b m) s"
  unfolding performS7Setup_def Let_def
  by (intro np_bind np_wrap np_SendContext np_ReceiveContext)
     (use assms in \<open>auto simp: setup_reply_total dest!: conns_keep conns_wrap_pure\<close>)

section \<open>What a failed reconnect may change\<close>

definition keeps_session :: "client \<Rightarrow> client \<Rightarrow> bool" where
  \<comment> \<open>the fields of the client and every connection that existed\<close>
  "keeps_session s t \<longleftrightarrow>
     world.more t = world.more s \<and> w_next s \<le> w_next t \<and>
     (\<forall>p. p < w_next s \<longrightarrow> w_conns t p = w_conns s p)"

interpretation ks: io_frame keeps_session
  by unfold_locales (auto simp: keeps_session_def)

lemma only_trace_keeps_session: "only_trace s t \<Longrightarrow> keeps_session s t"
  by (auto simp: keeps_session_def only_trace_def)

lemma keeps_session_sel:
  assumes "keeps_session s t"
  shows "clConn t = clConn s" "clRack t = clRack s" "clSlot t = clSlot s" "clPduSize t = clPduSize s"
    "clLocalTSAP t = clLocalTSAP s" "clRemoteTSAP t = clRemoteTSAP s" "clPduRef t = clPduRef s"
    "clOpts t = clOpts s" "clHost t = clHost s" "clMaxAmqCalling t = clMaxAmqCalling s"
    "clMaxAmqCalled t = clMaxAmqCalled s"
  using assms by (cases s; cases t; simp add: keeps_session_def)+

definition no_new_conn :: "client \<Rightarrow> client \<Rightarrow> bool" where
  \<comment> \<open>what a failed attempt leaves: the session, and no connection of its own that is open\<close>
  "no_new_conn s t \<longleftrightarrow> keeps_session s t \<and>
     (\<forall>p. w_next s \<le> p \<longrightarrow> p < w_next t \<longrightarrow> tConn (w_conns t p) = None)"

interpretation nn: io_frame no_new_conn
proof unfold_locales
  show "no_new_conn s s" for s by (simp add: no_new_conn_def ks.R_refl)
  show "no_new_conn s u" if "no_new_conn s t" "no_new_conn t u" for s t u
  proof -
    have "tConn (w_conns u p) = None" if "w_next s \<le> p" "p < w_next u" for p
      using that \<open>no_new_conn s t\<close> \<open>no_new_conn t u\<close>
      by (cases "p < w_next t") (auto simp: no_new_conn_def keeps_session_def)
    then show ?thesis using that ks.R_trans [of s t u] by (simp add: no_new_conn_def)
  qed
qed

lemma no_new_conn_keeps: "no_new_conn s t \<Longrightarrow> keeps_session s t"
  by (simp add: no_new_conn_def)

lemma only_trace_no_new_conn: "only_trace s t \<Longrightarrow> no_new_conn s t"
  by (auto simp: no_new_conn_def keeps_session_def only_trace_def)

definition client_inv :: "client \<Rightarrow> bool" where
  "client_inv s \<longleftrightarrow> heap_wf s \<and>
     (case clConn s of
        None \<Rightarrow> clRack s = 0 \<and> clSlot s = 0 \<and> clLocalTSAP s = 0 \<and> clRemoteTSAP s = 0 \<and>
                clPduSize s = 0 \<and> clMaxAmqCalling s = 0 \<and> clMaxAmqCalled s = 0
      | Some p \<Rightarrow> p < w_next s \<and> tConn (w_conns s p) \<noteq> None \<and>
                0 \<le> clPduSize s \<and> clPduSize s < 65536)"

lemma client_inv_New: "heap_wf w \<Longrightarrow> client_inv (New host opts w)"
  by (simp add: client_inv_def New_def heap_wf_def)

lemma client_inv_keeps:
  "client_inv s \<Longrightarrow> keeps_session s t \<Longrightarrow> heap_wf t \<Longrightarrow> client_inv t"
  by (auto simp: client_inv_def keeps_session_sel keeps_session_def split: option.splits)

section \<open>One connection attempt\<close>

lemma dialTransport_cases:
  fixes s :: client
  obtains (fail) e evs where
      "dialTransport E cx a tmo s = (Some (Inl e), grow s evs)"
  | (ok) evs where
      "dialTransport E cx a tmo s =
        (Some (Inr (w_next s)),
         s\<lparr>w_trace := w_trace s @ evs, w_conns := (w_conns s)(w_next s := transport_New (w_next s) tmo),
           w_next := w_next s + 1\<rparr>)"
  by (cases "env_dial E (w_trace s) a tmo") (auto simp: dialTransport_def Let_def)

lemma close_new_keeps:
  fixes s t :: client
  assumes "only_trace (s\<lparr>w_trace := w_trace s @ evs, w_conns := (w_conns s)(w_next s := x),
                        w_next := w_next s + 1\<rparr>) t"
  shows "no_new_conn s (snd (close_and_fail E (w_next s) e t :: (goerr + 'a) option \<times> client))"
    and "fst (close_and_fail E (w_next s) e t :: (goerr + 'a) option \<times> client) = Some (Inl e)"
    and "heap_wf t \<Longrightarrow> heap_wf (snd (close_and_fail E (w_next s) e t :: (goerr + 'a) option \<times> client))"
proof -
  obtain r u where c: "transport_Close E (w_next s) t = (Some r, u)"
    using transport_Close_total [of E "w_next s" t] by (cases "transport_Close E (w_next s) t") auto
  have run: "close_and_fail E (w_next s) e t = (Some (Inl e) :: (goerr + 'a) option, u)"
    by (simp add: close_and_fail_def io_case_def c)
  have us: "u = snd (transport_Close E (w_next s) t)" by (simp add: c)
  show "fst (close_and_fail E (w_next s) e t :: (goerr + 'a) option \<times> client) = Some (Inl e)"
    by (simp add: run)
  show "heap_wf t \<Longrightarrow> heap_wf (snd (close_and_fail E (w_next s) e t :: (goerr + 'a) option \<times> client))"
    unfolding run us by (simp add: transport_Close_wf)
  show "no_new_conn s (snd (close_and_fail E (w_next s) e t :: (goerr + 'a) option \<times> client))"
    using assms transport_Close_closes [of E "w_next s" t] unfolding run us
    by (auto simp: no_new_conn_def keeps_session_def only_trace_def transport_Close_def Let_def less_Suc_eq
        split: option.splits)
qed

lemma heap_wf_dialled:
  fixes s :: client
  shows "heap_wf s \<Longrightarrow> heap_wf (s\<lparr>w_trace := tr, w_conns := (w_conns s)(p := transport_New q tmo), w_next := n\<rparr>)"
  by (auto simp: heap_wf_def conn_wf_def transport_New_def)

lemma handshake_run:
  assumes "heap_wf s"
  obtains r t where "performCOTPConnect E cx p local remote s = (Some r, t)" "only_trace s t" "heap_wf t"
proof -
  obtain r t where run: "performCOTPConnect E cx p local remote s = (Some r, t)"
    using np_performCOTPConnect [of s p E cx local remote] assms
    by (cases "performCOTPConnect E cx p local remote s") (auto simp: no_panic_def heap_wf_def)
  moreover have "only_trace s t"
    using only_trace_performCOTPConnect [of s E cx p local remote] run by simp
  ultimately show ?thesis using that heap_wf_only_trace assms by blast
qed

lemma setup_run:
  assumes "heap_wf s"
  obtains r t where "performS7Setup E cx p ref a b m s = (Some r, t)" "only_trace s t" "heap_wf t"
proof -
  obtain r t where run: "performS7Setup E cx p ref a b m s = (Some r, t)"
    using np_performS7Setup [of s p E cx ref] assms
    by (metis heap_wf_def no_panic_def option.exhaust prod.collapse)
  moreover have "only_trace s t"
    using only_trace_performS7Setup [of s E cx p ref] run by (metis snd_conv)
  ultimately show ?thesis using that heap_wf_only_trace assms by blast
qed

text \<open>After the dial: the new connection is closed on every failure, and installed after the set-up.\<close>

lemma connectOnce_dialled:
  assumes dial: "dialTransport E cx (JoinHostPort (clHost s) (fmt_d (oPort (clOpts s)))) (oTimeout (clOpts s)) s =
      (Some (Inr p), s1)" and wf: "heap_wf s1"
  obtains (abort) e t where "connectOnce E cx rack slot s = close_and_fail E p e t" "only_trace s1 t" "heap_wf t"
  | (session) local remote su t where "connect_TSAPs (clOpts s) rack slot = Inr (local, remote)"
      "0 \<le> scPDUSize su" "scPDUSize su < 65536" "only_trace s1 t" "heap_wf t"
      "connectOnce E cx rack slot s = (Some (Inr ()),
         (case clConn t of
            None \<Rightarrow> install_session p rack slot local remote su t
          | Some old \<Rightarrow> snd (transport_Close E old (install_session p rack slot local remote su t))))"
proof (cases "connect_TSAPs (clOpts s) rack slot")
  case (Inl e)
  then have "connectOnce E cx rack slot s = close_and_fail E p e s1"
    by (simp add: connectOnce_def Let_def dial)
  then show ?thesis by (rule abort [OF _ tr.R_refl wf])
next
  case (Inr lr)
  obtain local remote where lr: "lr = (local, remote)" by (cases lr)
  obtain r2 s2 where cotp: "performCOTPConnect E cx p local remote s1 = (Some r2, s2)" "only_trace s1 s2" "heap_wf s2"
    by (rule handshake_run [OF wf])
  obtain r3 s3 where setup': "performS7Setup E cx p 1 (oMaxAmqCalling (clOpts s)) (oMaxAmqCalled (clOpts s))
      (oMaxPDU (clOpts s)) s2 = (Some r3, s3)" "only_trace s2 s3" "heap_wf s3"
    by (rule setup_run [OF cotp(3)])
  have ot: "only_trace s1 s3" using cotp(2) setup'(2) by (rule tr.R_trans)
  note run = connectOnce_def Let_def dial Inr lr io_case_run cotp(1) setup'(1)
  consider (cotp) e where "r2 = Inl e" | (refused) u e where "r2 = Inr u" "r3 = Inl e" | (both) u su where "r2 = Inr u" "r3 = Inr su"
    by (cases r2; cases r3) auto
  then show ?thesis
  proof cases
    case (cotp e)
    then have "connectOnce E cx rack slot s = close_and_fail E p (Errorf ''COTP connect: '' e '''') s2"
      by (simp add: run)
    then show ?thesis by (rule abort [OF _ \<open>only_trace s1 s2\<close> \<open>heap_wf s2\<close>])
  next
    case (refused u e)
    then have "connectOnce E cx rack slot s = close_and_fail E p (Errorf ''S7 setup: '' e '''') s3"
      by (simp add: run)
    then show ?thesis by (rule abort [OF _ ot setup'(3)])
  next
    case (both u su)
    have "0 \<le> scPDUSize su" "scPDUSize su < 65536" using performS7Setup_bounds setup'(1) both(2) by blast+
    from session [OF Inr [unfolded lr] this ot setup'(3)] show ?thesis
      by (auto simp: run both io_case_def split: option.split prod.split)
  qed
qed

lemma connectOnce_cases:
  assumes "heap_wf s"
  obtains (fail) e t where
      "connectOnce E cx rack slot s = (Some (Inl e), t)" "no_new_conn s t" "heap_wf t"
  | (ok) local remote su t u where
      "connectOnce E cx rack slot s = (Some (Inr ()), u)"
      "connect_TSAPs (clOpts s) rack slot = Inr (local, remote)"
      "0 \<le> scPDUSize su" "scPDUSize su < 65536"
      "keeps_session s t" "heap_wf t" "w_next t = w_next s + 1"
      "tConn (w_conns t (w_next s)) = Some (w_next s)"
      "u = (case clConn s of
              None \<Rightarrow> install_session (w_next s) rack slot local remote su t
            | Some old \<Rightarrow> snd (transport_Close E old
                (install_session (w_next s) rack slot local remote su t)))"
proof -
  let ?addr = "JoinHostPort (clHost s) (fmt_d (oPort (clOpts s)))" and ?tmo = "oTimeout (clOpts s)"
  show ?thesis
  proof (cases rule: dialTransport_cases [of E cx ?addr ?tmo s])
    case (fail e evs)
    then have "connectOnce E cx rack slot s = (Some (Inl e), grow s evs)"
      by (simp add: connectOnce_def Let_def)
    moreover have "no_new_conn s (grow s evs)"
      by (simp add: only_trace_no_new_conn only_trace_log)
    moreover have "heap_wf (grow s evs)" using assms by (simp add: heap_wf_def)
    ultimately show ?thesis by (rule that(1))
  next
    case (ok evs)
    define s1 where "s1 = s\<lparr>w_trace := w_trace s @ evs,
        w_conns := (w_conns s)(w_next s := transport_New (w_next s) ?tmo), w_next := w_next s + 1\<rparr>"
    have dial: "dialTransport E cx ?addr ?tmo s = (Some (Inr (w_next s)), s1)"
      using ok by (simp add: s1_def)
    have wf1: "heap_wf s1" unfolding s1_def by (rule heap_wf_dialled) (rule assms)
    from dial wf1 show ?thesis
    proof (cases rule: connectOnce_dialled [where rack = rack and slot = slot])
      case (abort e t)
      show ?thesis
        using close_new_keeps [OF abort(2) [unfolded s1_def], where e = e and E = E and 'a = unit] abort(1,3) that(1)
        by (metis prod.collapse)
    next
      case (session local remote su t)
      have keep: "keeps_session s t" "w_next t = w_next s + 1" "tConn (w_conns t (w_next s)) = Some (w_next s)"
        using session(4) by (auto simp: keeps_session_def only_trace_def s1_def transport_New_def)
      have "clConn t = clConn s" using keep(1) by (rule keeps_session_sel)
      from that(2) [OF session(6) [unfolded this] session(1-3) keep(1) session(5) keep(2,3) refl] show ?thesis .
    qed
  qed
qed

lemma install_session_sel [simp]:
  "clConn (install_session c rack slot l r su t) = Some c"
  "clRack (install_session c rack slot l r su t) = rack"
  "clSlot (install_session c rack slot l r su t) = slot"
  "clLocalTSAP (install_session c rack slot l r su t) = l"
  "clRemoteTSAP (install_session c rack slot l r su t) = r"
  "clPduSize (install_session c rack slot l r su t) = scPDUSize su"
  "clPduRef (install_session c rack slot l r su t) = clPduRef t"
  "clOpts (install_session c rack slot l r su t) = clOpts t"
  "w_conns (install_session c rack slot l r su t) = w_conns t"
  "w_next (install_session c rack slot l r su t) = w_next t"
  by (simp_all add: install_session_def)

lemma transport_Close_frame:
  fixes s :: client
  shows "w_next (snd (transport_Close E c s)) = w_next s"
    "world.more (snd (transport_Close E c s)) = world.more s"
    "clConn (snd (transport_Close E c s)) = clConn s"
    "clRack (snd (transport_Close E c s)) = clRack s"
    "clSlot (snd (transport_Close E c s)) = clSlot s"
    "clLocalTSAP (snd (transport_Close E c s)) = clLocalTSAP s"
    "clRemoteTSAP (snd (transport_Close E c s)) = clRemoteTSAP s"
    "clPduSize (snd (transport_Close E c s)) = clPduSize s"
    "clOpts (snd (transport_Close E c s)) = clOpts s"
    "clPduRef (snd (transport_Close E c s)) = clPduRef s"
    "clMaxAmqCalling (snd (transport_Close E c s)) = clMaxAmqCalling s"
    "clMaxAmqCalled (snd (transport_Close E c s)) = clMaxAmqCalled s"
  by (simp_all add: transport_Close_def Let_def split: option.split)

lemma connectOnce_success:
  assumes "client_inv s" "connectOnce E cx rack slot s = (Some (Inr ()), t)"
  shows "client_inv t" "clConn t = Some (w_next s)" "clRack t = rack" "clSlot t = slot"
    "connect_TSAPs (clOpts s) rack slot = Inr (clLocalTSAP t, clRemoteTSAP t)"
    "clConn s = Some old \<Longrightarrow> tConn (w_conns t old) = None"
proof -
  have wf: "heap_wf s" using assms(1) by (simp add: client_inv_def)
  have "client_inv t \<and> clConn t = Some (w_next s) \<and> clRack t = rack \<and> clSlot t = slot \<and>
      connect_TSAPs (clOpts s) rack slot = Inr (clLocalTSAP t, clRemoteTSAP t) \<and>
      (\<forall>old. clConn s = Some old \<longrightarrow> tConn (w_conns t old) = None)"
  proof (cases rule: connectOnce_cases [OF wf, of E cx rack slot])
    case (1 e u)
    then show ?thesis using assms(2) by simp
  next
    case (2 l r su w u)
    define i where "i = install_session (w_next s) rack slot l r su w"
    have t: "t = (case clConn s of None \<Rightarrow> i | Some old \<Rightarrow> snd (transport_Close E old i))"
      unfolding i_def using 2 assms(2) by simp
    have i_wf: "heap_wf i" using 2 by (simp add: i_def heap_wf_def)
    have i: "clConn i = Some (w_next s)" "clRack i = rack" "clSlot i = slot" "clLocalTSAP i = l"
      "clRemoteTSAP i = r" "clPduSize i = scPDUSize su" "w_next i = w_next s + 1"
      "tConn (w_conns i (w_next s)) = Some (w_next s)"
      using 2 by (simp_all add: i_def)
    show ?thesis
    proof (cases "clConn s")
      case None
      then show ?thesis using t i i_wf 2 by (simp add: client_inv_def)
    next
      case (Some old)
      then have lt: "old \<noteq> w_next s" using assms(1) by (simp add: client_inv_def)
      have wft: "heap_wf (snd (transport_Close E old i))" by (rule transport_Close_wf [OF i_wf])
      have keep: "w_conns (snd (transport_Close E old i)) (w_next s) = w_conns i (w_next s)"
        by (rule transport_Close_other) (use lt in simp)
      show ?thesis
        using t Some i wft keep 2 by (simp add: client_inv_def transport_Close_frame transport_Close_closes)
    qed
  qed
  then show "client_inv t" "clConn t = Some (w_next s)" "clRack t = rack" "clSlot t = slot"
    "connect_TSAPs (clOpts s) rack slot = Inr (clLocalTSAP t, clRemoteTSAP t)"
    "clConn s = Some old \<Longrightarrow> tConn (w_conns t old) = None"
    by auto
qed

section \<open>Connect\<close>

text \<open>Either the attempt failed and left the session alone, or one pair was accepted.\<close>

inductive connect_outcome ::
    "env \<Rightarrow> ctx \<Rightarrow> client \<Rightarrow> (goerr + unit) option \<times> client \<Rightarrow> bool" for E cx s where
  failed: "no_new_conn s t \<Longrightarrow> heap_wf t \<Longrightarrow> connect_outcome E cx s (Some (Inl e), t)"
| connected: "no_new_conn s s' \<Longrightarrow> heap_wf s' \<Longrightarrow>
     connectOnce E cx rack slot s' = (Some (Inr ()), t) \<Longrightarrow> connect_outcome E cx s (Some (Inr ()), t)"

inductive_cases connect_outcomeE [elim!]: "connect_outcome E cx s (r, t)"

lemma connect_outcome_once:
  assumes "heap_wf s"
  shows "connect_outcome E cx s (connectOnce E cx rack slot s)"
proof (cases rule: connectOnce_cases [OF assms, of E cx rack slot])
  case (1 e t)
  then show ?thesis by (simp add: connect_outcome.failed)
next
  case (2 l r su t u)
  then show ?thesis using connect_outcome.connected [OF nn.R_refl assms, of E cx rack slot] by simp
qed

lemma connect_outcome_trans:
  "no_new_conn s t \<Longrightarrow> connect_outcome E cx t x \<Longrightarrow> connect_outcome E cx s x"
  by (cases x) (auto intro: connect_outcome.intros nn.R_trans)

lemma connect_outcome_try_pairs:
  "heap_wf s \<Longrightarrow> connect_outcome E cx s (try_pairs E cx msg pairs s)"
proof (induction E cx msg pairs arbitrary: s rule: try_pairs.induct)
  case (1 E cx msg)
  then show ?case by (simp add: connect_outcome.failed nn.R_refl)
next
  case (2 E cx msg rack slot rest)
  show ?case
  proof (cases "ctx_err cx (w_trace s)")
    case (Some e)
    then show ?thesis using 2 by (simp add: ctx_check_def connect_outcome.failed nn.R_refl)
  next
    case None
    have one: "connect_outcome E cx s (connectOnce E cx rack slot s)"
      by (rule connect_outcome_once) (rule "2.prems")
    show ?thesis
    proof (cases rule: connectOnce_cases [OF "2.prems", of E cx rack slot])
      case (1 e t)
      then show ?thesis
        using None by (simp add: ctx_check_def io_case_run "2.IH" connect_outcome_trans [OF 1(2)])
    next
      case (2 l r su t u)
      then show ?thesis using one None by (simp add: ctx_check_def io_case_run)
    qed
  qed
qed

lemma connect_outcome_log:
  assumes "connect_outcome E cx s (m s)"
  shows "connect_outcome E cx s (log_connect_error opts m s)"
proof (cases "m s")
  case (Pair r t)
  from assms [unfolded Pair] show ?thesis
  proof cases
    case (failed e)
    then have "no_new_conn s (grow t [EvLog ''Connect failed''])"
      using nn.R_trans only_trace_no_new_conn only_trace_log by blast
    moreover have "heap_wf (grow t [EvLog ''Connect failed''])" using failed by (simp add: heap_wf_def)
    ultimately show ?thesis
      using failed Pair by (simp add: log_connect_error_def io_case_run connect_outcome.failed)
  next
    case (connected s' rack slot)
    then show ?thesis
      using Pair assms by (simp add: log_connect_error_def io_case_run)
  qed
qed

lemma connect_outcome_Connect:
  "heap_wf s \<Longrightarrow> connect_outcome E cx s (Connect E cx s)"
  by (auto simp: Connect_def autoConnect_def Let_def connect_outcome.failed nn.R_refl
      intro!: connect_outcome_log connect_outcome_try_pairs connect_outcome_once split: option.split)

lemma client_inv_Connect:
  assumes "client_inv s"
  shows "client_inv (snd (Connect E cx s))"
proof -
  have wf: "heap_wf s" using assms by (simp add: client_inv_def)
  obtain r t where run: "Connect E cx s = (r, t)" by (cases "Connect E cx s")
  have "connect_outcome E cx s (r, t)" using connect_outcome_Connect [OF wf] run by metis
  then show ?thesis
    using assms run by (auto intro: client_inv_keeps connectOnce_success(1) no_new_conn_keeps)
qed

section \<open>At most one connection\<close>

definition one_conn :: "nat \<Rightarrow> client \<Rightarrow> bool" where
  \<comment> \<open>of the connections dialled from \<open>b\<close> on, none is open but the one the client holds\<close>
  "one_conn b s \<longleftrightarrow> b \<le> w_next s \<and>
     (\<forall>p. b \<le> p \<longrightarrow> p < w_next s \<longrightarrow> tConn (w_conns s p) \<noteq> None \<longrightarrow> clConn s = Some p)"

lemma one_connI:
  "b \<le> w_next s \<Longrightarrow> (\<And>p. b \<le> p \<Longrightarrow> p < w_next s \<Longrightarrow> tConn (w_conns s p) \<noteq> None \<Longrightarrow> clConn s = Some p) \<Longrightarrow>
     one_conn b s"
  by (simp add: one_conn_def)

lemma one_connD:
  "one_conn b s \<Longrightarrow> b \<le> w_next s"
  "one_conn b s \<Longrightarrow> b \<le> p \<Longrightarrow> p < w_next s \<Longrightarrow> clConn s \<noteq> Some p \<Longrightarrow> tConn (w_conns s p) = None"
  by (auto simp: one_conn_def)

definition tidy :: "client \<Rightarrow> client \<Rightarrow> bool" where
  "tidy s t \<longleftrightarrow> (\<forall>b. one_conn b s \<longrightarrow> one_conn b t)"

interpretation td: io_frame tidy
  by unfold_locales (simp_all add: tidy_def)

lemma tidy_same:
  "w_next t = w_next s \<Longrightarrow> w_conns t = w_conns s \<Longrightarrow> clConn t = clConn s \<Longrightarrow> tidy s t"
  by (simp add: tidy_def one_conn_def)

lemma tidy_no_new_conn:
  assumes "no_new_conn s t"
  shows "tidy s t"
proof -
  have k: "keeps_session s t" using assms by (rule no_new_conn_keeps)
  have "one_conn b t" if b: "one_conn b s" for b
  proof (rule one_connI)
    show "b \<le> w_next t" using one_connD(1) [OF b] k by (simp add: keeps_session_def)
    show "clConn t = Some p" if p: "b \<le> p" "p < w_next t" "tConn (w_conns t p) \<noteq> None" for p
    proof (rule ccontr)
      assume "clConn t \<noteq> Some p"
      then have "p < w_next s \<Longrightarrow> tConn (w_conns s p) = None"
        using one_connD(2) [OF b p(1)] keeps_session_sel(1) [OF k] by simp
      then show False using p assms k by (cases "p < w_next s") (simp_all add: no_new_conn_def keeps_session_def)
    qed
  qed
  then show ?thesis by (simp add: tidy_def)
qed

lemma only_trace_tidy: "only_trace s t \<Longrightarrow> tidy s t"
  by (rule tidy_no_new_conn [OF only_trace_no_new_conn])

lemma tidy_connectOnce:
  assumes "client_inv s"
  shows "tidy s (snd (connectOnce E cx rack slot s))"
proof -
  have wf: "heap_wf s" using assms by (simp add: client_inv_def)
  show ?thesis
  proof (cases rule: connectOnce_cases [OF wf, of E cx rack slot])
    case (1 e t)
    then show ?thesis by (simp add: tidy_no_new_conn)
  next
    case (2 l r su t u)
    define i where "i = install_session (w_next s) rack slot l r su t"
    have i: "w_next i = w_next s + 1" "clConn i = Some (w_next s)" "\<And>p. p < w_next s \<Longrightarrow> w_conns i p = w_conns s p"
      using 2(5,7) by (simp_all add: i_def keeps_session_def)
    have u: "u = (case clConn s of None \<Rightarrow> i | Some old \<Rightarrow> snd (transport_Close E old i))"
      unfolding i_def by (rule 2(9))
    have "one_conn b u" if b: "one_conn b s" for b
    proof -
      have le: "b \<le> w_next s" by (rule one_connD(1) [OF b])
      have *: "w_next u = w_next i \<and> clConn u = clConn i \<and>
          (\<forall>p<w_next s. clConn s = Some p \<longrightarrow> tConn (w_conns u p) = None) \<and>
          (\<forall>p<w_next s. clConn s \<noteq> Some p \<longrightarrow> w_conns u p = w_conns i p)"
      proof (cases "clConn s")
        case None
        then show ?thesis using u by simp
      next
        case (Some old)
        then have ui: "u = snd (transport_Close E old i)" using u by simp
        show ?thesis unfolding ui by (simp add: transport_Close_frame transport_Close_closes transport_Close_other Some)
      qed
      show ?thesis
      proof (rule one_connI)
        show "b \<le> w_next u" using * i(1) le by simp
        show "clConn u = Some p" if "b \<le> p" "p < w_next u" "tConn (w_conns u p) \<noteq> None" for p
          using that * i one_connD(2) [OF b that(1)] by (cases "p < w_next s") (auto simp: less_Suc_eq)
      qed
    qed
    then show ?thesis using 2(1) by (simp add: tidy_def)
  qed
qed

lemma tidy_Connect:
  assumes "client_inv s"
  shows "tidy s (snd (Connect E cx s))"
proof -
  have wf: "heap_wf s" using assms by (simp add: client_inv_def)
  obtain r t where run: "Connect E cx s = (r, t)" by (cases "Connect E cx s")
  have "connect_outcome E cx s (r, t)" using connect_outcome_Connect [OF wf] run by metis
  then show ?thesis
  proof (cases rule: connect_outcome.cases)
    case (failed e)
    then show ?thesis using run by (simp add: tidy_no_new_conn)
  next
    case (connected s' rack slot)
    have "client_inv s'" by (rule client_inv_keeps [OF assms no_new_conn_keeps [OF connected(2)] connected(3)])
    from tidy_connectOnce [OF this, of E cx rack slot] have "tidy s' t" using connected(4) by simp
    then show ?thesis using run td.R_trans tidy_no_new_conn [OF connected(2)] by simp
  qed
qed

section \<open>Close\<close>

lemma Close_result:
  assumes "client_inv s"
  shows "client_inv (snd (Close E s))" "clConn (snd (Close E s)) = None"
    "clConn s = Some p \<Longrightarrow> tConn (w_conns (snd (Close E s)) p) = None"
    "fst (Close E s) \<noteq> None"
proof -
  show "client_inv (snd (Close E s))"
  proof (cases "clConn s")
    case None
    then show ?thesis using assms by (simp add: Close_def closeConnLocked_def)
  next
    case (Some c)
    have "heap_wf (snd (transport_Close E c s))"
      using assms by (intro transport_Close_wf) (simp add: client_inv_def)
    then show ?thesis
      using Some
      by (cases "transport_Close E c s") (simp add: Close_def closeConnLocked_def client_inv_def heap_wf_def)
  qed
  show "clConn (snd (Close E s)) = None"
    by (simp add: Close_def closeConnLocked_def split: option.split prod.split)
  show "clConn s = Some p \<Longrightarrow> tConn (w_conns (snd (Close E s)) p) = None"
    using transport_Close_closes [of E p s]
    by (cases "transport_Close E p s") (simp add: Close_def closeConnLocked_def)
  show "fst (Close E s) \<noteq> None"
    by (auto simp: Close_def closeConnLocked_def split: option.split prod.split)
       (metis not_None_eq transport_Close_no_panic)
qed

lemma tidy_Close: "tidy s (snd (Close E s))"
proof (cases "clConn s")
  case None
  then show ?thesis by (simp add: Close_def closeConnLocked_def td.R_refl)
next
  case (Some c)
  obtain r t where c: "transport_Close E c s = (r, t)" by (cases "transport_Close E c s")
  have t: "tConn (w_conns t c) = None" "\<And>p. p \<noteq> c \<Longrightarrow> w_conns t p = w_conns s p" "w_next t = w_next s"
    using transport_Close_closes [of E c s] transport_Close_other [of _ c E s] transport_Close_frame(1) [of E c s] c
    by simp_all
  have "tConn (w_conns t p) = None" if "one_conn b s" "b \<le> p" "p < w_next s" for b p
    using one_connD(2) [OF that] Some t by (cases "p = c") auto
  then have "one_conn b (snd (Close E s))" if "one_conn b s" for b
    using that one_connD(1) [OF that] Some t(3)
    by (intro one_connI) (simp_all add: Close_def closeConnLocked_def c)
  then show ?thesis by (simp add: tidy_def)
qed

section \<open>The request/response exchange\<close>

text \<open>The 16-bit sum of the two lengths cannot have wrapped when the slice it bounds exists.\<close>

lemma slice_sum_exact:
  assumes "slice xs (unat (a :: uint16)) (unat (a + b)) = Some ys"
  shows "unat (a + b) = unat a + unat b"
proof (cases "unat a + unat b < 65536")
  case True
  then show ?thesis by (simp add: unat_word_ariths)
next
  case False
  have "unat (a + b) = (unat a + unat b) mod 65536" by (simp add: unat_word_ariths)
  then have "unat (a + b) = unat a + unat b - 65536"
    using False unat_u16_lt [of a] unat_u16_lt [of b] by (simp add: mod_if)
  moreover have "unat a \<le> unat (a + b)" using assms by (auto simp: slice_def split: if_splits)
  ultimately show ?thesis using unat_u16_lt [of b] False by linarith
qed

lemma sendReceive_reply_Inr:
  assumes "sendReceive_reply C ref resp = Some (Inr (param, data))"
  obtains dec dt h rest where
    "cotp_Decode C resp = Inr dec" "decDT dec = Some dt"
    "ParseS7Header (dtUserData dt) = Some (Inr (h, rest))"
    "ref = 0 \<or> hPDURef h = ref" "hErrorClass h = 0" "hErrorCode h = 0"
    "length param = unat (hParamLength h)" "length data = unat (hDataLength h)"
    "param = take (unat (hParamLength h)) rest"
    "data = take (unat (hDataLength h)) (drop (unat (hParamLength h)) rest)"
proof -
  from assms obtain dec dt where d: "cotp_Decode C resp = Inr dec" "decDT dec = Some dt"
    by (auto simp: sendReceive_reply_def split: sum.splits option.splits)
  show ?thesis
  proof (cases rule: ParseS7Header_cases [of "dtUserData dt"])
    case (err e)
    with assms d show ?thesis by (simp add: sendReceive_reply_def)
  next
    case (ok h rest)
    have ok': "ref = 0 \<or> hPDURef h = ref" "hErrorClass h = 0 \<and> hErrorCode h = 0"
      using assms d ok by (auto simp: sendReceive_reply_def split: if_splits Option.bind_splits)
    have fit: "unat (hParamLength h) + unat (hDataLength h) \<le> length rest"
      using ParseS7Header_Inr(6) [OF ok] .
    have sl: "slice rest 0 (unat (hParamLength h)) = Some param"
      "slice rest (unat (hParamLength h)) (unat (hParamLength h + hDataLength h)) = Some data"
      using assms d ok ok' fit
      by (auto simp: sendReceive_reply_def Let_def split: if_splits Option.bind_splits)
    note sum = slice_sum_exact [OF sl(2)]
    have "param = take (unat (hParamLength h)) rest"
      "data = take (unat (hDataLength h)) (drop (unat (hParamLength h)) rest)"
      using sl by (auto simp: slice_def sum split: if_splits)
    then show ?thesis using that d ok ok' fit by auto
  qed
qed

lemma sendReceive_reply_total:
  assumes "\<And>dec dt. cotp_Decode C resp = Inr dec \<Longrightarrow> decDT dec = Some dt \<Longrightarrow>
    length (dtUserData dt) < 65546"
  shows "sendReceive_reply C ref resp \<noteq> None"
proof -
  have "sendReceive_reply C ref resp \<noteq> None"
    if d: "cotp_Decode C resp = Inr dec" "decDT dec = Some dt" for dec dt
  proof (cases rule: ParseS7Header_cases [of "dtUserData dt"])
    case (err e)
    then show ?thesis by (simp add: sendReceive_reply_def d)
  next
    case (ok h rest)
    have "unat (hParamLength h) + unat (hDataLength h) \<le> length rest"
      using ParseS7Header_Inr(6) [OF ok] .
    moreover have "length rest + 10 \<le> length (dtUserData dt)"
      using ParseS7Header_Inr(1,4,5) [OF ok] s7_offset_cases [of "dtUserData dt"] by auto
    ultimately have "unat (hParamLength h) + unat (hDataLength h) < 65536"
      using assms [OF d] by linarith
    then have "unat (hParamLength h + hDataLength h) = unat (hParamLength h) + unat (hDataLength h)"
      by (simp add: unat_word_ariths)
    then show ?thesis
      using ok by (auto simp: sendReceive_reply_def d Let_def NewS7ErrorWithParam_eq slice_def)
  qed
  then show ?thesis
    by (cases "cotp_Decode C resp") (auto simp: sendReceive_reply_def split: option.split)
qed

lemma only_trace_sendReceive: "only_trace s (snd (sendReceive E cx req ref s))"
  by (auto simp: sendReceive_def tr.R_refl intro!: tr.frame_bind tr.frame_wrap tr.frame_pure
      only_trace_atoms only_trace_SendContext only_trace_ReceiveContext split: option.split)

lemma sendReceive_not_connected:
  "clConn s = None \<Longrightarrow> sendReceive E cx req ref s = (Some (Inl (Sentinel ErrNotConnected)), s)"
  by (simp add: sendReceive_def)

lemma sendReceive_too_big:
  assumes "clConn s \<noteq> None" "0 < clPduSize s" "clPduSize s < int (length req)"
  obtains e where "sendReceive E cx req ref s = (Some (Inl e), s)" "errors_Is e ErrRequestExceedsPDU"
    "errors_As_S7 e = None" "errors_As_net e = None"
  using assms by (auto simp: sendReceive_def)

lemma sendReceive_fits:
  assumes "clConn s = Some c" "\<not> (0 < clPduSize s \<and> clPduSize s < int (length req))"
    "EncodeCOTPDT (env_cotp E) req = Inr dt"
  shows "sendReceive E cx req ref s =
    io_bind (SendContext E c cx dt) (\<lambda>_. io_bind (ctx_check cx) (\<lambda>_. io_bind (ReceiveContext E c cx)
      (\<lambda>resp. io_pure (sendReceive_reply (env_cotp E) ref resp)))) s"
proof -
  have wrap: "io_wrap (protocol_err ''encode COTP DT'') (io_pure (Some (EncodeCOTPDT (env_cotp E) req))) s
      = (Some (Inr dt), s)"
    by (simp add: assms(3) io_wrap_run)
  show ?thesis
    unfolding sendReceive_def using assms(1)
    by (simp add: if_not_P [OF assms(2)] io_bind_def io_case_def wrap
        del: de_Morgan_conj not_less)
qed

text \<open>What one exchange puts on the wire: nothing, or the request in one COTP data unit.\<close>

lemma receive_tail_tx:
  assumes "tConn (w_conns s c) = Some sock" "conn_wf (w_conns s c)"
  shows "\<exists>r evs. io_bind (ctx_check cx) (\<lambda>_. io_bind (ReceiveContext E c cx)
      (\<lambda>resp. io_pure (sendReceive_reply (env_cotp E) ref resp))) s = (r, grow s evs) \<and> tx_of evs = []"
proof (cases "ctx_err cx (w_trace s)")
  case (Some e)
  then show ?thesis by (intro exI [of _ "Some (Inl e)"] exI [of _ "[]"]) (simp add: ctx_check_def)
next
  case None
  obtain r evs where rcv: "ReceiveContext E c cx s = (Some r, grow s evs)" "tx_of evs = []"
    using ReceiveContext_open [OF assms] by blast
  then have "io_bind (ReceiveContext E c cx) (\<lambda>resp. io_pure (sendReceive_reply (env_cotp E) ref resp)) s =
      (fst (io_bind (ReceiveContext E c cx) (\<lambda>resp. io_pure (sendReceive_reply (env_cotp E) ref resp)) s), grow s evs)"
    by (cases r) simp_all
  with None rcv(2) show ?thesis by (auto simp: ctx_check_def)
qed

lemma sendReceive_tx:
  assumes "client_inv s" "clConn s = Some c"
  shows "\<exists>r evs sock. sendReceive E cx req ref s = (r, grow s evs) \<and> tConn (w_conns s c) = Some sock \<and>
    (tx_of evs = [] \<and> (\<exists>e. r = Some (Inl e)) \<or>
     (\<exists>dt. EncodeCOTPDT (env_cotp E) req = Inr dt \<and> tx_of evs = [(sock, dt)] \<and>
       \<not> (0 < clPduSize s \<and> clPduSize s < int (length req))))"
proof -
  obtain sock where sock: "tConn (w_conns s c) = Some sock"
    using assms by (auto simp: client_inv_def)
  have wf: "conn_wf (w_conns s c)" using assms by (simp add: client_inv_def heap_wf_def)
  consider (size) "0 < clPduSize s \<and> clPduSize s < int (length req)"
    | (encode) e where "\<not> (0 < clPduSize s \<and> clPduSize s < int (length req))" "EncodeCOTPDT (env_cotp E) req = Inl e"
    | (sends) dt where "\<not> (0 < clPduSize s \<and> clPduSize s < int (length req))" "EncodeCOTPDT (env_cotp E) req = Inr dt"
    by (cases "EncodeCOTPDT (env_cotp E) req") blast+
  then show ?thesis
  proof cases
    case size
    then show ?thesis
      using assms sock
      by (intro exI [of _ "fst (sendReceive E cx req ref s)"] exI [of _ "[]"] exI [of _ sock])
         (simp add: sendReceive_def)
  next
    case (encode e)
    then show ?thesis
      using assms sock
      by (intro exI [of _ "fst (sendReceive E cx req ref s)"] exI [of _ "[]"] exI [of _ sock])
         (simp add: sendReceive_def io_wrap_run)
  next
    case (sends dt)
    note run0 = sendReceive_fits [OF assms(2) sends, of cx ref]
    obtain r evs where send: "SendContext E c cx dt s = (Some r, grow s evs)"
      "tx_of evs = [(sock, dt)] \<or> tx_of evs = [] \<and> r \<noteq> Inr ()"
      using SendContext_open [OF sock wf] by blast
    show ?thesis
    proof (cases r)
      case (Inl e)
      have "sendReceive E cx req ref s = (Some (Inl e), grow s evs)"
        unfolding run0 using send(1) Inl by simp
      then show ?thesis using sock send(2) sends by blast
    next
      case (Inr u)
      obtain r' evs' where run: "sendReceive E cx req ref s = (r', grow s (evs @ evs'))" "tx_of evs' = []"
        using receive_tail_tx [of "grow s evs" c sock cx E ref] sock wf send(1) Inr unfolding run0 by auto
      then have "tx_of (evs @ evs') = [(sock, dt)]" using send(2) Inr by auto
      then show ?thesis using sock sends run(1) by blast
    qed
  qed
qed

lemma only_trace_client_inv: "only_trace s t \<Longrightarrow> client_inv s \<Longrightarrow> client_inv t"
  using client_inv_keeps only_trace_keeps_session heap_wf_only_trace
  by (metis client_inv_def)

lemma client_inv_sendReceive: "client_inv s \<Longrightarrow> client_inv (snd (sendReceive E cx req ref s))"
  by (rule only_trace_client_inv [OF only_trace_sendReceive])

lemma sendReceive_ok:
  assumes "sendReceive E cx req ref s = (Some (Inr pd), t)"
  obtains resp where "sendReceive_reply (env_cotp E) ref resp = Some (Inr pd)"
  using assms by (auto simp: sendReceive_def io_bind_ok_iff split: option.splits if_splits)

lemma nextPDURef_run [simp]:
  "nextPDURef s = (Some (Inr (ucast (clPduRef s + 1))), s\<lparr>clPduRef := clPduRef s + 1\<rparr>)"
  by (simp add: nextPDURef_def Let_def)

lemma client_inv_pduRef [simp]: "client_inv (s\<lparr>clPduRef := n\<rparr>) = client_inv s"
  by (cases "clConn s") (simp_all add: client_inv_def heap_wf_def)

end
