(* ===== verification/Wire_RW.thy ===== *)
theory Wire_RW
  imports Wire_Header
begin

text \<open>
  Read Var and Write Var (\<open>wire/pdu_rw.go\<close>): area and syntax validation, the S7Any address,
  the request encoders, and the response parsers with their length normalisation, bounds
  checks and fill bytes.
\<close>

section \<open>Syntax IDs and areas\<close>

definition SyntaxIDS7Any :: byte where "SyntaxIDS7Any = 0x10"
definition SyntaxIDDBRead :: byte where "SyntaxIDDBRead = 0xB0"
definition SyntaxID1200Symbolic :: byte where "SyntaxID1200Symbolic = 0xB2"
definition SyntaxIDNCK :: byte where "SyntaxIDNCK = 0x82"
definition SyntaxIDDriveES :: byte where "SyntaxIDDriveES = 0xA2"

definition ValidateRequestSyntax :: "byte \<Rightarrow> goerr option" where
  "ValidateRequestSyntax syntax =
     (if syntax = SyntaxIDS7Any then None
      else if syntax \<in> {SyntaxIDDBRead, SyntaxID1200Symbolic, SyntaxIDDriveES, 0x82, 0x83, 0x84}
        then Some (UnsupportedSyntaxError syntax)
      else Some (UnsupportedSyntaxError syntax))"

definition classicAreas :: "byte list" where
  \<comment> \<open>AreaDataRecord, AreaInputs, AreaOutputs, AreaMerkers, AreaDB, AreaDI, AreaLocal, AreaV,
     AreaCounter, AreaTimer, AreaIECCounter200, AreaIECTimer200, AreaPeripheral, AreaSysInfo,
     AreaSysFlags, AreaS7200AN, AreaS7200AO\<close>
  "classicAreas =
     [0x01, 0x81, 0x82, 0x83, 0x84, 0x85, 0x86, 0x87, 0x1C, 0x1D, 30, 31, 0x80, 0x03, 0x05, 0x06,
      0x07]"

definition ValidateArea :: "byte \<Rightarrow> goerr option" where
  "ValidateArea area =
     (if area \<in> set classicAreas then None
      else Some (s7msg (''unsupported area code 0x'' @ hexByte area)))"

definition areaNames :: "(byte \<times> string) list" where
  "areaNames =
    [(0x01, ''RECORD''), (0x03, ''SI200''), (0x05, ''SF200''), (0x06, ''AI200''), (0x07, ''AO200''),
     (0x80, ''P''), (0x81, ''I''), (0x82, ''Q''), (0x83, ''M''), (0x84, ''DB''), (0x85, ''DI''),
     (0x86, ''L''), (0x87, ''V''), (0x1C, ''C''), (0x1D, ''T''), (30, ''C200''), (31, ''T200'')]"

definition AreaString :: "byte \<Rightarrow> string" where
  "AreaString area =
     (case map_of areaNames area of Some s \<Rightarrow> s | None \<Rightarrow> ''0x'' @ fmt02X area)"

definition syntaxIDNames :: "(byte \<times> string) list" where
  "syntaxIDNames =
    [(SyntaxIDS7Any, ''S7ANY''), (0x11, ''ParameterShort''), (0x12, ''ParameterExtended''),
     (0x13, ''PBC-R_ID''), (0x15, ''ALARM_LOCKFREE''), (0x16, ''ALARM_IND''), (0x19, ''ALARM_ACK''),
     (0x1a, ''ALARM_QUERYREQ''), (0x1c, ''NOTIFY_IND''),
     (0x82, ''NCK''), (0x83, ''NCK_M''), (0x84, ''NCK_I''),
     (SyntaxIDDriveES, ''DRIVEESANY''), (SyntaxID1200Symbolic, ''1200SYM''),
     (SyntaxIDDBRead, ''DBREAD'')]"

definition SyntaxIDString :: "byte \<Rightarrow> string" where
  "SyntaxIDString syntax =
     (case map_of syntaxIDNames syntax of Some s \<Rightarrow> s | None \<Rightarrow> ''0x'' @ fmt02X syntax)"

section \<open>Transport sizes\<close>

definition TransportSizeByte :: byte where "TransportSizeByte = 0x02"

definition RespTransportSizeBit :: byte where "RespTransportSizeBit = 0x01"
definition RespTransportSizeByte :: byte where "RespTransportSizeByte = 0x02"
definition RespTransportSizeChar :: byte where "RespTransportSizeChar = 0x03"
definition RespTransportSizeWord :: byte where "RespTransportSizeWord = 0x04"
definition RespTransportSizeInt :: byte where "RespTransportSizeInt = 0x05"
definition RespTransportSizeDWord :: byte where "RespTransportSizeDWord = 0x06"
definition RespTransportSizeDInt :: byte where "RespTransportSizeDInt = 0x07"
definition RespTransportSizeReal :: byte where "RespTransportSizeReal = 0x08"
definition RespTransportSizeDATE :: byte where "RespTransportSizeDATE = 0x09"
definition RespTransportSizeTOD :: byte where "RespTransportSizeTOD = 0x0A"
definition RespTransportSizeTIME :: byte where "RespTransportSizeTIME = 0x0B"
definition RespTransportSizeS5TIME :: byte where "RespTransportSizeS5TIME = 0x0C"
definition RespTransportSizeDT :: byte where "RespTransportSizeDT = 0x0F"
definition RespTransportSizeCount :: byte where "RespTransportSizeCount = 0x1C"
definition RespTransportSizeTimer :: byte where "RespTransportSizeTimer = 0x1D"
definition RespTransportSizeIECCount :: byte where "RespTransportSizeIECCount = 30"
definition RespTransportSizeIECTimer :: byte where "RespTransportSizeIECTimer = 31"
definition RespTransportSizeHSCounter :: byte where "RespTransportSizeHSCounter = 32"

lemmas resp_size_defs = RespTransportSizeBit_def RespTransportSizeByte_def RespTransportSizeChar_def
  RespTransportSizeWord_def RespTransportSizeInt_def RespTransportSizeDWord_def
  RespTransportSizeDInt_def RespTransportSizeReal_def RespTransportSizeDATE_def
  RespTransportSizeTOD_def RespTransportSizeTIME_def RespTransportSizeS5TIME_def
  RespTransportSizeDT_def RespTransportSizeCount_def RespTransportSizeTimer_def
  RespTransportSizeIECCount_def RespTransportSizeIECTimer_def RespTransportSizeHSCounter_def

definition responseTransportSizeNames :: "(byte \<times> string) list" where
  "responseTransportSizeNames =
    [(RespTransportSizeBit, ''BIT''), (RespTransportSizeByte, ''BYTE''),
     (RespTransportSizeChar, ''CHAR''), (RespTransportSizeWord, ''WORD''),
     (RespTransportSizeInt, ''INT''), (RespTransportSizeDWord, ''DWORD''),
     (RespTransportSizeDInt, ''DINT''), (RespTransportSizeReal, ''REAL''),
     (RespTransportSizeDATE, ''DATE''), (RespTransportSizeTOD, ''TOD''),
     (RespTransportSizeTIME, ''TIME''), (RespTransportSizeS5TIME, ''S5TIME''),
     (RespTransportSizeDT, ''DATE_AND_TIME''), (RespTransportSizeCount, ''COUNTER''),
     (RespTransportSizeTimer, ''TIMER''), (RespTransportSizeIECCount, ''IEC_COUNTER''),
     (RespTransportSizeIECTimer, ''IEC_TIMER''), (RespTransportSizeHSCounter, ''HS_COUNTER'')]"

definition ResponseTransportSize_String :: "byte \<Rightarrow> string" where
  "ResponseTransportSize_String r =
     (case map_of responseTransportSizeNames r of Some s \<Rightarrow> s | None \<Rightarrow> ''0x'' @ fmt02X r)"

section \<open>Requests\<close>

record S7AnyAddress =
  anyArea :: byte
  anyDBNumber :: int
  anyStart :: int
  anySize :: int

definition EncodeS7Any :: "S7AnyAddress \<Rightarrow> bytes" where
  "EncodeS7Any addr =
     (let startBit = wrap64 (anyStart addr * 8)
      in [0x12, 0x0A, SyntaxIDS7Any, TransportSizeByte] @
         put16 (word_of_int (anySize addr)) @ put16 (word_of_int (anyDBNumber addr)) @
         [anyArea addr, word_of_int (startBit div 2 ^ 16), word_of_int (startBit div 2 ^ 8),
          word_of_int startBit])"

definition ReadVarRequestOverhead :: nat where
  "ReadVarRequestOverhead = S7HeaderSize + 2 + 12"

definition WriteVarRequestOverhead :: nat where
  "WriteVarRequestOverhead = S7HeaderSize + 2 + 12 + 4"

definition EncodeReadVarRequest :: "uint16 \<Rightarrow> S7AnyAddress list \<Rightarrow> bytes" where
  "EncodeReadVarRequest pduRef addrs =
     (let param = [FuncReadVar, of_nat (length addrs)] @ concat (map EncodeS7Any addrs)
      in EncodeS7Header ROSCTRJob pduRef (int (length param)) 0 @ param)"

definition EncodeWriteVarRequest :: "uint16 \<Rightarrow> S7AnyAddress \<Rightarrow> bytes \<Rightarrow> bytes" where
  "EncodeWriteVarRequest pduRef addr val =
     (let param = [FuncWriteVar, 1] @ EncodeS7Any addr;
          data = [RetCodeSuccess, 0x04] @ put16 (word_of_int (int (length val) * 8));
          data = data @ val;
          data = (if length data mod 2 \<noteq> 0 then data @ [0x00] else data)
      in EncodeS7Header ROSCTRJob pduRef (int (length param)) (int (length data)) @ param @ data)"

section \<open>Responses\<close>

record ReadVarItem =
  riReturnCode :: byte
  riRawTransportSize :: byte
  riRawLength :: uint16
  riData :: bytes

definition NormalizeResponseDataLength :: "byte \<Rightarrow> uint16 \<Rightarrow> goerr + nat" where
  "NormalizeResponseDataLength ts rawLength =
     (if ts \<in> {RespTransportSizeBit, RespTransportSizeChar, RespTransportSizeWord,
               RespTransportSizeInt, RespTransportSizeDWord, RespTransportSizeDInt,
               RespTransportSizeReal} then Inr ((unat rawLength + 7) div 8)
      else if ts = RespTransportSizeByte then Inr (unat rawLength)
      else if ts \<in> {RespTransportSizeDATE, RespTransportSizeS5TIME, RespTransportSizeCount,
               RespTransportSizeTimer, RespTransportSizeIECCount, RespTransportSizeIECTimer,
               RespTransportSizeHSCounter} then Inr ((unat rawLength + 7) div 8)
      else if ts \<in> {RespTransportSizeTOD, RespTransportSizeTIME} then Inr ((unat rawLength + 7) div 8)
      else if ts = RespTransportSizeDT then Inr ((unat rawLength + 7) div 8)
      else Inl (s7msg (''unknown response transport size 0x'' @ hexByte ts)))"

definition item_error :: "nat \<Rightarrow> sentinel \<Rightarrow> goerr" where
  \<comment> \<open>\<open>fmt.Errorf("read response item at offset %d: %w", offset, s)\<close>\<close>
  "item_error offset s =
     Errorf (''read response item at offset '' @ fmt_d (int offset) @ '': '') (Sentinel s) ''''"

definition decodeReadResponseItem ::
    "bytes \<Rightarrow> nat \<Rightarrow> bool \<Rightarrow> (goerr + ReadVarItem \<times> nat) option" where
  "decodeReadResponseItem data offset isLastItem =
     (if offset + 4 > length data then Some (Inl (item_error offset ErrTruncatedItemHeader))
      else do {
        retCode \<leftarrow> idx data offset;
        transportSize \<leftarrow> idx data (offset + 1);
        rawLength \<leftarrow> u16_at data (offset + 2);
        (case NormalizeResponseDataLength transportSize rawLength of
           Inl err \<Rightarrow> Some (Inl err)
         | Inr byteLen \<Rightarrow>
             if offset + 4 + byteLen > length data
             then Some (Inl (item_error offset ErrTruncatedItemPayload))
             else do {
               payload \<leftarrow>
                 (if retCode = RetCodeSuccess then slice data (offset + 4) (offset + 4 + byteLen)
                  else Some []);
               let item = \<lparr>riReturnCode = retCode, riRawTransportSize = transportSize,
                           riRawLength = rawLength, riData = payload\<rparr>;
               let next = offset + 4 + byteLen;
               if byteLen mod 2 \<noteq> 0 then
                 (if next \<ge> length data \<and> \<not> isLastItem
                  then Some (Inl (item_error offset ErrTruncatedItemPayload))
                  else Some (Inr (item, if next < length data then next + 1 else next)))
               else Some (Inr (item, next)) }) })"

fun read_items :: "bytes \<Rightarrow> nat \<Rightarrow> nat \<Rightarrow> ReadVarItem list \<Rightarrow> (goerr + ReadVarItem list) option" where
  \<comment> \<open>the loop of \<open>ParseReadVarResponse\<close>, with the number of items still to read\<close>
  "read_items data 0 offset items = Some (Inr items)"
| "read_items data (Suc n) offset items =
     do { r \<leftarrow> decodeReadResponseItem data offset (n = 0);
          case r of
            Inl err \<Rightarrow> Some (Inl err)
          | Inr (item, next) \<Rightarrow> read_items data n next (items @ [item]) }"

definition ParseReadVarResponse :: "bytes \<Rightarrow> bytes \<Rightarrow> (goerr + ReadVarItem list) option" where
  "ParseReadVarResponse param data =
     (if length param < 2 then Some (Inl (s7msg ''read response param too short''))
      else do {
        f \<leftarrow> idx param 0;
        if f \<noteq> FuncReadVar then Some (Inl (s7msg ''not a read var response''))
        else do {
          n \<leftarrow> idx param 1;
          read_items data (unat n) 0 [] } })"

definition ParseWriteVarResponse :: "bytes \<Rightarrow> bytes \<Rightarrow> goerr option option" where
  "ParseWriteVarResponse param data =
     (if length param < 2 then Some (Some (s7msg ''write response param too short''))
      else do {
        f \<leftarrow> idx param 0;
        if f \<noteq> FuncWriteVar then Some (Some (s7msg ''not a write var response''))
        else if length data < 1 then Some (Some (s7msg ''write response data too short''))
        else do { c \<leftarrow> idx data 0; Some (ReturnCodeError c) } })"

section \<open>Typed access to read items\<close>

definition decodeSuccessItem :: "ReadVarItem \<Rightarrow> nat \<Rightarrow> goerr + bytes" where
  "decodeSuccessItem item need =
     (if riReturnCode item \<noteq> RetCodeSuccess then Inl (s7msg ''item not success, cannot decode'')
      else if length (riData item) < need then
        Inl (s7msg (''item payload too short: need '' @ fmt_d (int need) @ '', got '' @
                    fmt_d (int (length (riData item)))))
      else Inr (riData item))"

definition DecodeAsByte :: "ReadVarItem \<Rightarrow> (goerr + byte) option" where
  "DecodeAsByte item =
     (case decodeSuccessItem item 1 of
        Inl err \<Rightarrow> Some (Inl err) | Inr data \<Rightarrow> map_option Inr (idx data 0))"

definition DecodeAsWord :: "ReadVarItem \<Rightarrow> (goerr + uint16) option" where
  "DecodeAsWord item =
     (case decodeSuccessItem item 2 of
        Inl err \<Rightarrow> Some (Inl err) | Inr data \<Rightarrow> map_option Inr (u16_at data 0))"

definition DecodeAsDWord :: "ReadVarItem \<Rightarrow> (goerr + uint32) option" where
  "DecodeAsDWord item =
     (case decodeSuccessItem item 4 of
        Inl err \<Rightarrow> Some (Inl err) | Inr data \<Rightarrow> map_option Inr (u32_at data 0))"

definition DecodeAsInt :: "ReadVarItem \<Rightarrow> (goerr + int) option" where
  "DecodeAsInt item =
     (case decodeSuccessItem item 2 of
        Inl err \<Rightarrow> Some (Inl err) | Inr data \<Rightarrow> map_option (Inr \<circ> sint) (u16_at data 0))"

definition DecodeAsDInt :: "ReadVarItem \<Rightarrow> (goerr + int) option" where
  "DecodeAsDInt item =
     (case decodeSuccessItem item 4 of
        Inl err \<Rightarrow> Some (Inl err) | Inr data \<Rightarrow> map_option (Inr \<circ> sint) (u32_at data 0))"

definition DecodeAsReal :: "ReadVarItem \<Rightarrow> (goerr + uint32) option" where
  "DecodeAsReal item =
     (case decodeSuccessItem item 4 of
        Inl err \<Rightarrow> Some (Inl err) | Inr data \<Rightarrow> map_option Inr (u32_at data 0))"

section \<open>Addresses on the wire\<close>

lemma length_EncodeS7Any [simp, enc_length]: "length (EncodeS7Any a) = 12"
  by (simp add: EncodeS7Any_def Let_def)

lemma uint_word_of_int_byte: "uint (word_of_int x :: byte) = x mod 256"
  by (simp add: uint_word_of_int)

lemma uint_word_of_int_u16: "uint (word_of_int x :: uint16) = x mod 65536"
  by (simp add: uint_word_of_int)

lemma wrap64_mod: "m dvd 2 ^ 64 \<Longrightarrow> wrap64 x mod m = x mod m"
proof -
  assume m: "m dvd 2 ^ 64"
  have "wrap64 x mod m = ((x + 2 ^ 63) mod 2 ^ 64 mod m - 2 ^ 63 mod m) mod m"
    unfolding wrap64_def by (simp only: mod_diff_eq)
  also have "\<dots> = ((x + 2 ^ 63) mod m - 2 ^ 63 mod m) mod m"
    using m by (simp only: mod_mod_cancel)
  also have "\<dots> = x mod m"
    by (simp add: mod_diff_eq)
  finally show ?thesis .
qed

lemma div_mod_split:
  fixes b c d e :: int
  assumes "0 \<le> c" "d * c = e"
  shows "d * (b div d mod c) + b mod d = b mod e"
  using zmod_zmult2_eq [OF assms(1), of b d] unfolding assms(2) by (rule sym)

lemma combine_bytes: "256 * x + y = u \<Longrightarrow> 256 * u + v = w \<Longrightarrow> 65536 * x + 256 * y + v = (w :: int)"
  by simp

lemma three_bytes:
  "65536 * (b div 65536 mod 256) + 256 * (b div 256 mod 256) + b mod 256 = b mod (16777216 :: int)"
proof (rule combine_bytes)
  have "b div 256 div 256 = b div (256 * 256)"
    by (rule zdiv_zmult2_eq [symmetric]) simp
  moreover have "256 * (b div 256 div 256 mod 256) + b div 256 mod 256 = b div 256 mod 65536"
    by (rule div_mod_split) simp_all
  ultimately show "256 * (b div 65536 mod 256) + b div 256 mod 256 = b div 256 mod 65536"
    by (simp only: mult_numeral_left semiring_norm) 
  show "256 * (b div 256 mod 65536) + b mod 256 = b mod 16777216"
    by (rule div_mod_split) simp_all
qed

definition any_start_bits :: "bytes \<Rightarrow> int" where
  \<comment> \<open>the 24-bit bit address at the end of an encoded address\<close>
  "any_start_bits bs = 65536 * uint (bs ! 9) + 256 * uint (bs ! 10) + uint (bs ! 11)"

definition any_size :: "bytes \<Rightarrow> int" where
  "any_size bs = uint (be16 (bs ! 4) (bs ! 5))"

definition any_db :: "bytes \<Rightarrow> int" where
  "any_db bs = uint (be16 (bs ! 6) (bs ! 7))"

lemma any_start_bits_EncodeS7Any: "any_start_bits (EncodeS7Any a) = (8 * anyStart a) mod 2 ^ 24"
proof -
  let ?b = "wrap64 (anyStart a * 8)"
  have "any_start_bits (EncodeS7Any a) =
      65536 * (?b div 65536 mod 256) + 256 * (?b div 256 mod 256) + ?b mod 256"
    by (simp add: any_start_bits_def EncodeS7Any_def Let_def put16_def uint_word_of_int_byte)
  also have "\<dots> = ?b mod 16777216" by (rule three_bytes)
  also have "\<dots> = (anyStart a * 8) mod 16777216" by (rule wrap64_mod) simp
  finally show ?thesis by (simp add: mult.commute)
qed

lemma any_size_EncodeS7Any: "any_size (EncodeS7Any a) = anySize a mod 65536"
  by (simp add: any_size_def EncodeS7Any_def Let_def put16_def uint_word_of_int_u16)

lemma any_db_EncodeS7Any: "any_db (EncodeS7Any a) = anyDBNumber a mod 65536"
  by (simp add: any_db_def EncodeS7Any_def Let_def put16_def uint_word_of_int_u16)

lemma any_area_EncodeS7Any: "EncodeS7Any a ! 8 = anyArea a"
  by (simp add: EncodeS7Any_def Let_def put16_def)

lemmas any_fields = any_start_bits_EncodeS7Any any_size_EncodeS7Any any_db_EncodeS7Any
  any_area_EncodeS7Any

definition addressable :: "S7AnyAddress \<Rightarrow> bool" where
  \<comment> \<open>what the fields of the S7Any address can hold\<close>
  "addressable a \<longleftrightarrow> 0 \<le> anyStart a \<and> anyStart a < 2 ^ 21 \<and>
     0 \<le> anySize a \<and> anySize a < 65536 \<and> 0 \<le> anyDBNumber a \<and> anyDBNumber a < 65536"

lemma EncodeS7Any_inj:
  assumes "addressable a" "addressable b" "EncodeS7Any a = EncodeS7Any b"
  shows "a = b"
proof -
  have start: "(8 * anyStart a) mod 2 ^ 24 = (8 * anyStart b) mod 2 ^ 24"
    using assms(3) any_start_bits_EncodeS7Any by metis
  have size: "anySize a mod 65536 = anySize b mod 65536"
    using assms(3) any_size_EncodeS7Any by metis
  have db: "anyDBNumber a mod 65536 = anyDBNumber b mod 65536"
    using assms(3) any_db_EncodeS7Any by metis
  have area: "anyArea a = anyArea b"
    using assms(3) any_area_EncodeS7Any by metis
  show ?thesis
    using start size db area assms(1,2)
    by (intro S7AnyAddress.equality) (simp_all add: addressable_def)
qed

section \<open>Sizes of the requests\<close>

lemma length_EncodeReadVarRequest:
  "length (EncodeReadVarRequest ref addrs) = 12 + 12 * length addrs"
proof -
  have "length (concat (map EncodeS7Any addrs)) = 12 * length addrs"
    by (induction addrs) simp_all
  then show ?thesis by (simp add: EncodeReadVarRequest_def Let_def)
qed

lemma length_EncodeReadVarRequest_one [simp, enc_length]:
  "length (EncodeReadVarRequest ref [a]) = 24"
  by (simp add: length_EncodeReadVarRequest)

lemma length_EncodeWriteVarRequest [enc_length]:
  "length (EncodeWriteVarRequest ref a val) = 28 + length val + length val mod 2"
proof -
  have "(4 + length val) mod 2 = length val mod 2" by presburger
  then show ?thesis by (cases "even (length val)") (simp_all add: EncodeWriteVarRequest_def Let_def odd_iff_mod_2_eq_one)
qed

section \<open>Response items\<close>

definition bit_sized :: "byte list" where
  "bit_sized = [0x01, 0x03, 0x04, 0x05, 0x06, 0x07, 0x08, 0x09, 0x0A, 0x0B, 0x0C, 0x0F, 0x1C, 0x1D,
    30, 31, 32]"

lemma NormalizeResponseDataLength_eq:
  "NormalizeResponseDataLength ts raw =
     (if ts = 0x02 then Inr (unat raw)
      else if ts \<in> set bit_sized then Inr ((unat raw + 7) div 8)
      else Inl (s7msg (''unknown response transport size 0x'' @ hexByte ts)))"
  by (simp add: NormalizeResponseDataLength_def resp_size_defs bit_sized_def)

lemma Normalize_le: "NormalizeResponseDataLength ts raw = Inr n \<Longrightarrow> n \<le> unat raw"
  by (auto simp: NormalizeResponseDataLength_eq split: if_splits)

lemma Normalize_lt: "NormalizeResponseDataLength ts raw = Inr n \<Longrightarrow> n < 65536"
  using Normalize_le [of ts raw n] unat_u16_lt [of raw] by simp

lemma Normalize_Inl_s7:
  "NormalizeResponseDataLength ts raw = Inl e \<Longrightarrow> errors_As_S7 e \<noteq> None"
  by (auto simp: NormalizeResponseDataLength_eq split: if_splits)

lemma decodeReadResponseItem_eq:
  "decodeReadResponseItem data off isLast = Some (
     if length data < off + 4 then Inl (item_error off ErrTruncatedItemHeader)
     else case NormalizeResponseDataLength (data ! (off + 1)) (be16 (data ! (off + 2)) (data ! (off + 3))) of
       Inl err \<Rightarrow> Inl err
     | Inr n \<Rightarrow>
         if length data < off + 4 + n then Inl (item_error off ErrTruncatedItemPayload)
         else if odd n \<and> length data = off + 4 + n \<and> \<not> isLast
           then Inl (item_error off ErrTruncatedItemPayload)
         else Inr (\<lparr>riReturnCode = data ! off, riRawTransportSize = data ! (off + 1),
                   riRawLength = be16 (data ! (off + 2)) (data ! (off + 3)),
                   riData = (if data ! off = RetCodeSuccess then take n (drop (off + 4) data) else [])\<rparr>,
                   if odd n \<and> off + 4 + n < length data then off + 4 + n + 1 else off + 4 + n))"
  by (auto simp: decodeReadResponseItem_def idx_def slice_def u16_at_in Let_def odd_iff_mod_2_eq_one
      numeral_3_eq_3 split: sum.splits)

lemma read_items_total: "read_items data n off acc \<noteq> None"
  by (induction n arbitrary: off acc)
     (auto simp: decodeReadResponseItem_eq split: sum.splits prod.splits)

lemma read_items_length:
  "read_items data n off acc = Some (Inr items) \<Longrightarrow> length items = length acc + n"
proof (induction n arbitrary: off acc)
  case (Suc n)
  then obtain r where r: "decodeReadResponseItem data off (n = 0) = Some r"
    by (auto simp: bind_eq_Some_conv)
  with Suc.prems obtain item next' where "read_items data n next' (acc @ [item]) = Some (Inr items)"
    by (cases r) auto
  from Suc.IH [OF this] show ?case by simp
qed simp

lemma ParseReadVarResponse_eq:
  "ParseReadVarResponse param data =
     (if length param < 2 then Some (Inl (s7msg ''read response param too short''))
      else if param ! 0 \<noteq> FuncReadVar then Some (Inl (s7msg ''not a read var response''))
      else read_items data (unat (param ! 1)) 0 [])"
  by (simp add: ParseReadVarResponse_def idx_def)

lemma ParseWriteVarResponse_eq:
  "ParseWriteVarResponse param data = Some (
     if length param < 2 then Some (s7msg ''write response param too short'')
     else if param ! 0 \<noteq> FuncWriteVar then Some (s7msg ''not a write var response'')
     else if data = [] then Some (s7msg ''write response data too short'')
     else ReturnCodeError (data ! 0))"
  by (auto simp: ParseWriteVarResponse_def idx_def)

section \<open>Reference encoding of a response\<close>

text \<open>
  A response is described by its items, each with the payload it carries on the wire; items
  of odd length are followed by a fill byte, except the last.
\<close>

definition item_wf :: "ReadVarItem \<Rightarrow> bool" where
  "item_wf it \<longleftrightarrow>
     NormalizeResponseDataLength (riRawTransportSize it) (riRawLength it) = Inr (length (riData it))"

definition item_bytes :: "ReadVarItem \<Rightarrow> bytes" where
  "item_bytes it = [riReturnCode it, riRawTransportSize it] @ put16 (riRawLength it) @ riData it"

fun encode_items :: "ReadVarItem list \<Rightarrow> bytes" where
  "encode_items [] = []"
| "encode_items [it] = item_bytes it"
| "encode_items (it # its) =
     item_bytes it @ (if odd (length (riData it)) then [0] else []) @ encode_items its"

definition visible :: "ReadVarItem \<Rightarrow> ReadVarItem" where
  \<comment> \<open>what the parser reports: the payload of a failed item is dropped\<close>
  "visible it = (if riReturnCode it = RetCodeSuccess then it else it\<lparr>riData := []\<rparr>)"

lemma length_item_bytes [simp]: "length (item_bytes it) = 4 + length (riData it)"
  by (simp add: item_bytes_def)

lemma item_bytes_nth:
  "item_bytes it @ ys =
     riReturnCode it # riRawTransportSize it # ucast (drop_bit 8 (riRawLength it)) #
     ucast (riRawLength it) # riData it @ ys"
  by (simp add: item_bytes_def put16_def)

lemma decode_item_bytes:
  assumes "item_wf it" "pre = length xs"
  shows "decodeReadResponseItem (xs @ item_bytes it @ ys) pre isLast = Some (
     if odd (length (riData it)) \<and> ys = [] \<and> \<not> isLast then Inl (item_error pre ErrTruncatedItemPayload)
     else Inr (visible it, pre + 4 + length (riData it) +
                           (if odd (length (riData it)) \<and> ys \<noteq> [] then 1 else 0)))"
proof -
  let ?d = "xs @ item_bytes it @ ys"
  have n: "?d ! pre = riReturnCode it" "?d ! (pre + 1) = riRawTransportSize it"
    "?d ! (pre + 2) = ucast (drop_bit 8 (riRawLength it))" "?d ! (pre + 3) = ucast (riRawLength it)"
    "drop (pre + 4) ?d = riData it @ ys"
    unfolding item_bytes_nth assms(2) by (simp_all add: nth_append)
  have l: "length ?d = pre + 4 + length (riData it) + length ys"
    by (simp add: assms(2))
  show ?thesis
    unfolding decodeReadResponseItem_eq n l be16_put16
    using assms(1) by (auto simp: item_wf_def visible_def)
qed

lemma read_items_encode_items:
  assumes "list_all item_wf its"
  shows "read_items (xs @ encode_items its) (length its) (length xs) acc =
    Some (Inr (acc @ map visible its))"
  using assms
proof (induction its arbitrary: xs acc rule: encode_items.induct)
  case 1
  show ?case by simp
next
  case (2 it)
  then have "decodeReadResponseItem (xs @ item_bytes it @ []) (length xs) True =
      Some (Inr (visible it, length xs + 4 + length (riData it)))"
    by (subst decode_item_bytes) auto
  then show ?case by simp
next
  case (3 it it2 its)
  let ?fill = "if odd (length (riData it)) then [0] else [] :: bytes"
  let ?tl = "encode_items (it2 # its)"
  have ne: "?fill @ ?tl \<noteq> []"
    by (cases its) (simp_all add: item_bytes_def)
  have step: "decodeReadResponseItem (xs @ item_bytes it @ (?fill @ ?tl)) (length xs) False =
      Some (Inr (visible it, length (xs @ item_bytes it @ ?fill)))"
    using "3.prems" ne by (subst decode_item_bytes) auto
  have IH: "read_items ((xs @ item_bytes it @ ?fill) @ ?tl) (length (it2 # its))
      (length (xs @ item_bytes it @ ?fill)) (acc @ [visible it]) =
      Some (Inr ((acc @ [visible it]) @ map visible (it2 # its)))"
    by (rule "3.IH") (use "3.prems" in simp)
  show ?case
    using step IH by simp
qed

end
