(* ===== verification/Read_Write.thy ===== *)
theory Read_Write
  imports Client_Props Wire_RW
begin

text \<open>
  Reading and writing memory areas (\<open>client/readwrite.go\<close>, with the result type of
  \<open>client/result.go\<close> and \<open>validateAddress\<close> of \<open>client/validation.go\<close>): address
  validation, the split of a request into chunks that fit the negotiated PDU, the exchange
  loop, and the classification of outcomes.

  The chunk loop of the source may in principle run for ever, so it is a
  \<open>partial_function\<close> whose termination is a theorem.  What the reader and the writer need
  of a plan (it ends, its chunks add up to the total, and each is between one and the
  maximum) is the locale \<open>chunk_plan\<close>, interpreted on \<open>planReadChunks\<close>.
\<close>

section \<open>Results\<close>

datatype ReadStatus =
    ReadStatusUnset
  | ReadStatusSuccess
  | ReadStatusShortRead
  | ReadStatusEmptyRead
  | ReadStatusRejected
  | ReadStatusTimeout
  | ReadStatusTransportErr
  | ReadStatusProtocolErr
  | ReadStatusInconclusive

fun ReadStatus_text :: "ReadStatus \<Rightarrow> string" where
  "ReadStatus_text ReadStatusUnset = ''''"
| "ReadStatus_text ReadStatusSuccess = ''success''"
| "ReadStatus_text ReadStatusShortRead = ''short-read''"
| "ReadStatus_text ReadStatusEmptyRead = ''empty-read''"
| "ReadStatus_text ReadStatusRejected = ''rejected''"
| "ReadStatus_text ReadStatusTimeout = ''timeout''"
| "ReadStatus_text ReadStatusTransportErr = ''transport-error''"
| "ReadStatus_text ReadStatusProtocolErr = ''protocol-error''"
| "ReadStatus_text ReadStatusInconclusive = ''inconclusive''"

record ReadResult =
  rrStatus :: ReadStatus
  rrRequestedLength :: int
  rrReturnedLength :: int
  rrData :: bytes
  rrWarnings :: "string list"
  rrMessage :: string
  rrCause :: "goerr option"
  rrItemStatus :: string
  rrReturnCode :: byte

definition ReadResult_OK :: "ReadResult option \<Rightarrow> bool" where
  "ReadResult_OK r = (case r of None \<Rightarrow> False | Some r \<Rightarrow> rrStatus r = ReadStatusSuccess)"

definition ReadResult_Success :: "ReadResult option \<Rightarrow> bool" where
  "ReadResult_Success r = ReadResult_OK r"

definition ReadResult_Err :: "ReadResult option \<Rightarrow> goerr option" where
  "ReadResult_Err r =
     (case r of
        None \<Rightarrow> Some (Sentinel ErrNilReadResult)
      | Some r \<Rightarrow>
          if rrStatus r = ReadStatusSuccess then None
          else let msg = (if rrMessage r \<noteq> '''' then rrMessage r else ReadStatus_text (rrStatus r))
               in Some (ReadOutcomeError msg (case rrCause r of None \<Rightarrow> [] | Some e \<Rightarrow> [e])))"

definition validateAddress :: "Address \<Rightarrow> goerr option" where
  "validateAddress addr =
     (if aStart addr < 0 then
        Some (ValidationError (''start offset must be >= 0, got '' @ fmt_d (aStart addr)))
      else if aSize addr < 0 then
        Some (ValidationError (''size must be >= 0, got '' @ fmt_d (aSize addr)))
      else if aArea addr = AreaDB \<and> aDBNumber addr < 0 then
        Some (ValidationError (''DB number must be >= 0, got '' @ fmt_d (aDBNumber addr)))
      else None)"

section \<open>Classification\<close>

definition classifyOpError :: "goerr option \<Rightarrow> ReadStatus" where
  "classifyOpError e =
     (case e of
        None \<Rightarrow> ReadStatusSuccess
      | Some err \<Rightarrow>
          if errors_Is err DeadlineExceeded then ReadStatusTimeout
          else if errors_As_net err = Some True then ReadStatusTimeout
          else if errors_Is err ErrNotConnected \<or> errors_Is err ErrConnectionNotEstablished
            then ReadStatusTransportErr
          else if errors_As_S7 err \<noteq> None then ReadStatusRejected
          else if errors_Is err ErrShortS7Header \<or> errors_Is err ErrInvalidS7ProtocolID \<or>
                  errors_Is err ErrShortS7AckHeader \<or> errors_Is err ErrS7PayloadLength
            then ReadStatusProtocolErr
          else if errors_Is err ErrProtocolFailure then ReadStatusProtocolErr
          else if errors_Is err ErrRequestExceedsPDU then ReadStatusProtocolErr
          else ReadStatusTransportErr)"

definition new_ReadResult :: "int \<Rightarrow> ReadResult" where
  "new_ReadResult requested =
     \<lparr>rrStatus = ReadStatusUnset, rrRequestedLength = requested, rrReturnedLength = 0, rrData = [],
      rrWarnings = [], rrMessage = '''', rrCause = None, rrItemStatus = '''', rrReturnCode = 0\<rparr>"

definition newFailedReadResult :: "int \<Rightarrow> goerr option \<Rightarrow> ReadResult" where
  "newFailedReadResult requested err =
     (new_ReadResult requested)
       \<lparr>rrStatus := classifyOpError err,
        rrMessage := (case err of None \<Rightarrow> '''' | Some e \<Rightarrow> err_text e),
        rrCause := err\<rparr>"

definition ClassifyReadOutcome :: "int \<Rightarrow> int \<Rightarrow> ReadStatus" where
  "ClassifyReadOutcome requested returned =
     (if requested \<le> 0 then ReadStatusSuccess
      else if returned = 0 then ReadStatusEmptyRead
      else if returned < requested then ReadStatusShortRead
      else ReadStatusSuccess)"

section \<open>Chunks\<close>

partial_function (option) chunk_loop :: "int \<Rightarrow> int \<Rightarrow> int list \<Rightarrow> int list option" where
  "chunk_loop maxChunk remaining out =
     (if remaining > 0 then
        (let n = remaining; n = (if n > maxChunk then maxChunk else n)
         in chunk_loop maxChunk (remaining - n) (out @ [n]))
      else Some out)"

definition planReadChunks :: "int \<Rightarrow> int \<Rightarrow> int list option" where
  \<comment> \<open>\<open>None\<close> would be a loop that does not end\<close>
  "planReadChunks total' maxChunk =
     (if total' \<le> 0 then Some []
      else let maxChunk = (if maxChunk \<le> 0 then total' else maxChunk)
           in chunk_loop maxChunk total' [])"

section \<open>Reading\<close>

definition stop_result :: "ReadResult \<Rightarrow> bytes \<Rightarrow> ReadStatus \<Rightarrow> string \<Rightarrow> ReadResult" where
  \<comment> \<open>\<open>out.Status = ..; out.Message = ..; out.ReturnedLength = len(result); out.Data = result\<close>\<close>
  "stop_result out result st msg =
     out\<lparr>rrStatus := st, rrMessage := msg, rrReturnedLength := int (length result), rrData := result\<rparr>"

definition finish_read :: "ReadResult \<Rightarrow> bytes \<Rightarrow> ReadResult" where
  "finish_read out result =
     (let out = out\<lparr>rrReturnedLength := int (length result), rrData := result\<rparr>;
          out = out\<lparr>rrStatus := ClassifyReadOutcome (rrRequestedLength out) (rrReturnedLength out)\<rparr>;
          out = (if rrStatus out = ReadStatusEmptyRead \<and> rrMessage out = ''''
                 then out\<lparr>rrMessage := ''target returned no data for requested range''\<rparr> else out)
      in if rrStatus out = ReadStatusShortRead \<and> rrMessage out = ''''
         then out\<lparr>rrMessage := ''short read: requested '' @ fmt_d (rrRequestedLength out) @ '', got '' @
                    fmt_d (rrReturnedLength out)\<rparr>
         else out)"

definition read_step ::
    "bytes \<Rightarrow> bytes \<Rightarrow> ReadResult \<Rightarrow> bytes \<Rightarrow> (goerr + ReadResult + bytes) option" where
  \<comment> \<open>what one response does to the read: a result to return at once, or the bytes so far\<close>
  "read_step param data out result =
     do { r \<leftarrow> ParseReadVarResponse param data;
          case r of
            Inl err \<Rightarrow> Some (Inr (Inl (stop_result out result ReadStatusProtocolErr (err_text err))))
          | Inr items \<Rightarrow>
              if length items = 0 then
                Some (Inr (Inl (stop_result out result ReadStatusEmptyRead ''no data returned'')))
              else do {
                item \<leftarrow> idx items 0;
                case ReturnCodeError (riReturnCode item) of
                  Some err \<Rightarrow>
                    Some (Inr (Inl ((stop_result out result ReadStatusRejected (err_text err))
                      \<lparr>rrReturnCode := riReturnCode item,
                       rrItemStatus := ItemReturnCodeString (riReturnCode item)\<rparr>)))
                | None \<Rightarrow> Some (Inr (Inr (result @ riData item))) } }"

definition pause :: "ctx \<Rightarrow> int \<Rightarrow> bool \<Rightarrow> (client, unit) io" where
  \<comment> \<open>the two tests at the top of each round: \<open>ctx.Err()\<close> and the rate limit\<close>
  "pause cx rateLimit firstChunk =
     io_bind (ctx_check cx) (\<lambda>_.
       if rateLimit > 0 \<and> \<not> firstChunk then ctx_sleep cx rateLimit else io_ret ())"

fun read_chunks ::
    "env \<Rightarrow> ctx \<Rightarrow> Address \<Rightarrow> int \<Rightarrow> ReadResult \<Rightarrow> bool \<Rightarrow> int \<Rightarrow> bytes \<Rightarrow> int list \<Rightarrow>
     (client, ReadResult) io" where
  "read_chunks E cx addr rateLimit out firstChunk offset result [] = io_ret (finish_read out result)"
| "read_chunks E cx addr rateLimit out firstChunk offset result (chunkSize # chunks) =
     io_case (pause cx rateLimit firstChunk) (\<lambda>r. case r of
       Inl err \<Rightarrow> io_ret (newFailedReadResult (rrRequestedLength out) (Some err))
     | Inr _ \<Rightarrow>
         let s7Addr = \<lparr>anyArea = aArea addr, anyDBNumber = aDBNumber addr, anyStart = offset,
                       anySize = chunkSize\<rparr> in
         io_bind nextPDURef (\<lambda>ref.
         io_case (sendReceive E cx (EncodeReadVarRequest ref [s7Addr]) ref) (\<lambda>r. case r of
           Inl err \<Rightarrow> io_ret (newFailedReadResult (rrRequestedLength out) (Some err))
         | Inr (param, data) \<Rightarrow>
             io_bind (io_pure (read_step param data out result)) (\<lambda>v. case v of
               Inl done' \<Rightarrow> io_ret done'
             | Inr result \<Rightarrow>
                 read_chunks E cx addr rateLimit out False (wrap64 (offset + chunkSize)) result chunks))))"

definition ReadArea :: "env \<Rightarrow> ctx \<Rightarrow> Address \<Rightarrow> (client, ReadResult) io" where
  "ReadArea E cx addr =
     (\<lambda>s. case validateAddress addr of
            Some err \<Rightarrow> io_fail err s
          | None \<Rightarrow>
              let reqLen = (if aSize addr < 0 then 0 else aSize addr);
                  out = new_ReadResult reqLen;
                  pduSize = clPduSize s;
                  rateLimit = oRateLimit (clOpts s);
                  maxData = pduSize - int ReadVarRequestOverhead;
                  maxData = (if maxData < 1 then 200 else maxData)
              in io_bind (io_pure (map_option Inr (planReadChunks (aSize addr) maxData))) (\<lambda>chunks.
                   read_chunks E cx addr rateLimit out True (aStart addr) [] chunks) s)"

section \<open>Writing\<close>

fun write_chunks ::
    "env \<Rightarrow> ctx \<Rightarrow> Address \<Rightarrow> bytes \<Rightarrow> int \<Rightarrow> bool \<Rightarrow> int \<Rightarrow> int list \<Rightarrow> (client, unit) io" where
  "write_chunks E cx addr data rateLimit firstChunk offset [] = io_ret ()"
| "write_chunks E cx addr data rateLimit firstChunk offset (chunkSize # chunks) =
     io_bind (pause cx rateLimit firstChunk) (\<lambda>_.
     io_bind (io_pure (map_option Inr (slice data (nat offset) (nat (offset + chunkSize))))) (\<lambda>chunk.
     let s7Addr = \<lparr>anyArea = aArea addr, anyDBNumber = aDBNumber addr,
                   anyStart = wrap64 (aStart addr + offset), anySize = int (length chunk)\<rparr> in
     io_bind nextPDURef (\<lambda>ref.
     io_bind (sendReceive E cx (EncodeWriteVarRequest ref s7Addr chunk) ref) (\<lambda>(param, respData).
     io_bind (io_pure (Option.bind (ParseWriteVarResponse param respData) opt_err)) (\<lambda>_.
       write_chunks E cx addr data rateLimit False (offset + chunkSize) chunks)))))"

definition WriteArea :: "env \<Rightarrow> ctx \<Rightarrow> Address \<Rightarrow> bytes \<Rightarrow> (client, unit) io" where
  "WriteArea E cx addr data =
     (\<lambda>s. case validateAddress addr of
            Some err \<Rightarrow> io_fail err s
          | None \<Rightarrow>
              io_bind (ctx_check cx) (\<lambda>_ s.
                let pduSize = clPduSize s;
                    rateLimit = oRateLimit (clOpts s);
                    maxPayload = pduSize - int WriteVarRequestOverhead;
                    maxPayload = (if maxPayload < 1 then 200 else maxPayload)
                in io_bind (io_pure (map_option Inr (planReadChunks (int (length data)) maxPayload)))
                     (\<lambda>chunks. write_chunks E cx addr data rateLimit True 0 chunks) s) s)"

section \<open>Convenience operations\<close>

definition ReadDB :: "env \<Rightarrow> ctx \<Rightarrow> int \<Rightarrow> int \<Rightarrow> int \<Rightarrow> (client, ReadResult) io" where
  "ReadDB E cx dbNum offset size' =
     ReadArea E cx \<lparr>aArea = AreaDB, aDBNumber = dbNum, aStart = offset, aSize = size'\<rparr>"

definition WriteDB :: "env \<Rightarrow> ctx \<Rightarrow> int \<Rightarrow> int \<Rightarrow> bytes \<Rightarrow> (client, unit) io" where
  "WriteDB E cx dbNum offset data =
     WriteArea E cx \<lparr>aArea = AreaDB, aDBNumber = dbNum, aStart = offset, aSize = int (length data)\<rparr> data"

definition ReadInputs :: "env \<Rightarrow> ctx \<Rightarrow> int \<Rightarrow> int \<Rightarrow> (client, ReadResult) io" where
  "ReadInputs E cx offset size' =
     ReadArea E cx \<lparr>aArea = AreaInputs, aDBNumber = 0, aStart = offset, aSize = size'\<rparr>"

definition ReadOutputs :: "env \<Rightarrow> ctx \<Rightarrow> int \<Rightarrow> int \<Rightarrow> (client, ReadResult) io" where
  "ReadOutputs E cx offset size' =
     ReadArea E cx \<lparr>aArea = AreaOutputs, aDBNumber = 0, aStart = offset, aSize = size'\<rparr>"

definition ReadMerkers :: "env \<Rightarrow> ctx \<Rightarrow> int \<Rightarrow> int \<Rightarrow> (client, ReadResult) io" where
  "ReadMerkers E cx offset size' =
     ReadArea E cx \<lparr>aArea = AreaMerkers, aDBNumber = 0, aStart = offset, aSize = size'\<rparr>"

end
