(* ===== verification/Read_Write_Props.thy ===== *)
theory Read_Write_Props
  imports Read_Write
begin

text \<open>
  Properties of reading and writing against an arbitrary peer: the chunk plan and the locale
  \<open>chunk_plan\<close> of what its callers rely on, totality, the session invariant, the shape of
  the result, and the classification of failures.
\<close>

section \<open>The chunk plan\<close>

definition even_split :: "int \<Rightarrow> int \<Rightarrow> int list" where
  \<comment> \<open>full chunks, then the remainder\<close>
  "even_split m t = replicate (nat (t div m)) m @ (if t mod m = 0 then [] else [t mod m])"

lemma even_split_step:
  assumes "0 < m" "m < t"
  shows "even_split m t = m # even_split m (t - m)"
proof -
  have d: "t div m = (t - m) div m + 1"
    using assms div_add_self2 [of m "t - m"] by simp
  have "0 \<le> (t - m) div m"
    using assms by (simp add: pos_imp_zdiv_nonneg_iff)
  then have "nat (t div m) = Suc (nat ((t - m) div m))"
    by (simp add: d nat_add_distrib)
  moreover have "t mod m = (t - m) mod m" by (simp add: minus_mod_self2)
  ultimately show ?thesis by (simp add: even_split_def)
qed

lemma even_split_last:
  assumes "0 < t" "t \<le> m"
  shows "even_split m t = [t]"
proof (cases "t = m")
  case True
  then show ?thesis using assms by (simp add: even_split_def)
next
  case False
  then show ?thesis using assms by (simp add: even_split_def)
qed

lemma chunk_loop_eq:
  assumes "0 < m"
  shows "chunk_loop m t out = Some (if t \<le> 0 then out else out @ even_split m t)"
proof (induction "nat t" arbitrary: t out rule: less_induct)
  case less
  show ?case
  proof (cases "t \<le> 0")
    case True
    then show ?thesis by (subst chunk_loop.simps) simp
  next
    case pos: False
    show ?thesis
    proof (cases "m < t")
      case True
      then have "chunk_loop m t out = chunk_loop m (t - m) (out @ [m])"
        using pos by (subst chunk_loop.simps) simp
      also have "\<dots> = Some (out @ even_split m t)"
        using less [of "t - m" "out @ [m]"] True assms even_split_step [OF assms True] by simp
      finally show ?thesis using pos by simp
    next
      case False
      then have "chunk_loop m t out = chunk_loop m 0 (out @ [t])"
        using pos by (subst chunk_loop.simps) simp
      also have "\<dots> = Some (out @ [t])" by (subst chunk_loop.simps) simp
      finally show ?thesis using pos False even_split_last [of t m] by simp
    qed
  qed
qed

lemma planReadChunks_eq:
  "planReadChunks t m =
     Some (if t \<le> 0 then [] else if m \<le> 0 then [t] else even_split m t)"
  by (simp add: planReadChunks_def Let_def chunk_loop_eq even_split_last)

lemma even_split_sum: "0 < m \<Longrightarrow> 0 \<le> t \<Longrightarrow> sum_list (even_split m t) = t"
  by (simp add: even_split_def sum_list_replicate pos_imp_zdiv_nonneg_iff)
     (metis add.right_neutral div_mult_mod_eq mult.commute)

lemma even_split_bounds:
  assumes "0 < m" "c \<in> set (even_split m t)"
  shows "0 < c \<and> c \<le> m"
proof -
  have "0 \<le> t mod m" "t mod m < m" using assms(1) by simp_all
  then show ?thesis using assms by (auto simp: even_split_def less_le split: if_splits)
qed

section \<open>What the callers of a plan rely on\<close>

fun cut :: "int list \<Rightarrow> 'a list \<Rightarrow> 'a list list" where
  "cut [] xs = []"
| "cut (c # cs) xs = take (nat c) xs # cut cs (drop (nat c) xs)"

fun offsets :: "int \<Rightarrow> int list \<Rightarrow> (int \<times> int) list" where
  \<comment> \<open>where each chunk starts, with its size\<close>
  "offsets start [] = []"
| "offsets start (c # cs) = (start, c) # offsets (start + c) cs"

lemma concat_cut: "\<forall>c\<in>set cs. 0 \<le> c \<Longrightarrow> concat (cut cs xs) = take (nat (sum_list cs)) xs"
proof (induction cs arbitrary: xs)
  case (Cons c cs)
  have "0 \<le> sum_list cs" using Cons.prems by (intro sum_list_nonneg) simp
  with Cons show ?case by (simp add: nat_add_distrib take_add)
qed simp

lemma offsets_range:
  "(o', c) \<in> set (offsets start cs) \<Longrightarrow> \<forall>c\<in>set cs. 0 \<le> c \<Longrightarrow>
     start \<le> o' \<and> o' + c \<le> start + sum_list cs \<and> c \<in> set cs"
proof (induction cs arbitrary: start)
  case (Cons d cs)
  have "0 \<le> sum_list cs" using Cons.prems by (intro sum_list_nonneg) simp
  with Cons.prems Cons.IH [of "start + d"] show ?case by auto
qed simp

lemma offsets_cover:
  "\<forall>c\<in>set cs. 0 \<le> c \<Longrightarrow> start \<le> a \<Longrightarrow> a < start + sum_list cs \<Longrightarrow>
     \<exists>o' c. (o', c) \<in> set (offsets start cs) \<and> o' \<le> a \<and> a < o' + c"
proof (induction cs arbitrary: start)
  case (Cons d cs)
  show ?case
  proof (cases "a < start + d")
    case True
    then show ?thesis using Cons.prems by auto
  next
    case False
    then show ?thesis using Cons.IH [of "start + d"] Cons.prems by auto
  qed
qed simp

locale chunk_plan =
  fixes plan :: "int \<Rightarrow> int \<Rightarrow> int list option"
  assumes ends: "plan t m \<noteq> None"
    and sums: "plan t m = Some cs \<Longrightarrow> sum_list cs = max 0 t"
    and bounded: "plan t m = Some cs \<Longrightarrow> c \<in> set cs \<Longrightarrow> 0 < c \<and> (0 < m \<longrightarrow> c \<le> m)"
begin

lemma chunks_obtain:
  obtains cs where "plan t m = Some cs" "sum_list cs = max 0 t" "\<forall>c\<in>set cs. 0 < c"
    "0 < m \<Longrightarrow> \<forall>c\<in>set cs. c \<le> m"
  using ends [of t m] sums [of t m] bounded [of t m] by auto

lemma chunks_le_total: "plan t m = Some cs \<Longrightarrow> c \<in> set cs \<Longrightarrow> c \<le> max 0 t"
  using member_le_sum_list [of c cs] bounded sums by fastforce

lemma reassembles:
  assumes "plan (int (length xs)) m = Some cs"
  shows "concat (cut cs xs) = xs"
proof -
  have "\<forall>c\<in>set cs. 0 \<le> c" using bounded [OF assms] by (auto simp: less_imp_le)
  then show ?thesis using sums [OF assms] by (simp add: concat_cut)
qed

lemma covers:
  assumes "plan t m = Some cs" "start \<le> a" "a < start + t"
  shows "\<exists>o' c. (o', c) \<in> set (offsets start cs) \<and> o' \<le> a \<and> a < o' + c"
  using offsets_cover [of cs start a] bounded [OF assms(1)] sums [OF assms(1)] assms(2,3)
  by (auto simp: less_imp_le)

lemma empty_iff: "plan t m = Some cs \<Longrightarrow> cs = [] \<longleftrightarrow> t \<le> 0"
proof
  assume "plan t m = Some cs" "cs = []"
  then show "t \<le> 0" using sums by fastforce
next
  assume p: "plan t m = Some cs" "t \<le> 0"
  show "cs = []"
  proof (rule ccontr)
    assume "cs \<noteq> []"
    then obtain c cs' where "cs = c # cs'" by (cases cs) auto
    then have "0 < c" "c \<le> max 0 t" using bounded [OF p(1), of c] chunks_le_total [OF p(1), of c] by auto
    then show False using p(2) by simp
  qed
qed

end

interpretation rc: chunk_plan planReadChunks
proof unfold_locales
  show "planReadChunks t m \<noteq> None" for t m by (simp add: planReadChunks_eq)
  show "planReadChunks t m = Some cs \<Longrightarrow> sum_list cs = max 0 t" for t m cs
    by (auto simp: planReadChunks_eq even_split_sum split: if_splits)
  show "planReadChunks t m = Some cs \<Longrightarrow> c \<in> set cs \<Longrightarrow> 0 < c \<and> (0 < m \<longrightarrow> c \<le> m)" for t m cs c
    using even_split_bounds [of m c t] by (auto simp: planReadChunks_eq split: if_splits)
qed

section \<open>Operations of an established session\<close>

definition same_session :: "client \<Rightarrow> client \<Rightarrow> bool" where
  \<comment> \<open>only calls to the outside happened and PDU references were drawn\<close>
  "same_session s t \<longleftrightarrow> (\<exists>evs n. t = s\<lparr>w_trace := w_trace s @ evs, clPduRef := n\<rparr>)"

interpretation ss: io_frame same_session
proof unfold_locales
  show "same_session s s" for s
    unfolding same_session_def by (intro exI [of _ "[]"] exI [of _ "clPduRef s"]) simp
  show "same_session s u" if 1: "same_session s t" and 2: "same_session t u" for s t u
  proof -
    obtain evs n where t: "t = s\<lparr>w_trace := w_trace s @ evs, clPduRef := n\<rparr>"
      using 1 unfolding same_session_def by blast
    obtain evs' n' where "u = t\<lparr>w_trace := w_trace t @ evs', clPduRef := n'\<rparr>"
      using 2 unfolding same_session_def by blast
    with t have "u = s\<lparr>w_trace := w_trace s @ (evs @ evs'), clPduRef := n'\<rparr>" by simp
    then show ?thesis unfolding same_session_def by blast
  qed
qed

lemma only_trace_same_session: "only_trace s t \<Longrightarrow> same_session s t"
proof -
  assume "only_trace s t"
  then obtain evs where "t = s\<lparr>w_trace := w_trace s @ evs\<rparr>" by (auto simp: only_trace_def)
  then have "t = s\<lparr>w_trace := w_trace s @ evs, clPduRef := clPduRef s\<rparr>" by simp
  then show ?thesis unfolding same_session_def by blast
qed

lemma same_session_pduRef: "same_session s (s\<lparr>clPduRef := n\<rparr>)"
  unfolding same_session_def by (intro exI [of _ "[]"] exI [of _ n]) simp

lemma same_session_sel:
  assumes "same_session s t"
  shows "clConn t = clConn s" "clPduSize t = clPduSize s" "clOpts t = clOpts s" "w_conns t = w_conns s"
    "w_next t = w_next s"
  using assms by (auto simp: same_session_def)

lemma same_session_inv: "same_session s t \<Longrightarrow> client_inv s \<Longrightarrow> client_inv t"
  by (cases "clConn s") (auto simp: same_session_def client_inv_def heap_wf_def)

definition socket_of :: "client \<Rightarrow> nat option" where
  "socket_of s = Option.bind (clConn s) (\<lambda>c. tConn (w_conns s c))"

definition session_of :: "client \<Rightarrow> nat option \<times> int" where
  "session_of s = (socket_of s, clPduSize s)"

lemma same_session_of: "same_session s t \<Longrightarrow> session_of t = session_of s"
  by (simp add: session_of_def socket_of_def same_session_sel)

definition sends :: "nat option \<times> int \<Rightarrow> (bytes \<Rightarrow> bool) \<Rightarrow> client \<Rightarrow> client \<Rightarrow> bool" where
  \<comment> \<open>in a well-formed session \<open>S\<close>, every frame sent goes to its socket and satisfies \<open>P\<close>\<close>
  "sends S P s t \<longleftrightarrow> (client_inv s \<and> session_of s = S \<longrightarrow> same_session s t \<and>
     (\<exists>evs. w_trace t = w_trace s @ evs \<and> (\<forall>(k, d)\<in>set (tx_of evs). Some k = fst S \<and> P d)))"

interpretation sn: io_frame "sends S P" for S P
proof unfold_locales
  show "sends S P s s" for s by (simp add: sends_def ss.R_refl)
  show "sends S P s u" if 1: "sends S P s t" and 2: "sends S P t u" for s t u
    unfolding sends_def
  proof (intro impI, elim conjE)
    assume s: "client_inv s" "session_of s = S"
    then obtain e where st: "same_session s t" "w_trace t = w_trace s @ e"
      "\<forall>(k, d)\<in>set (tx_of e). Some k = fst S \<and> P d"
      using 1 unfolding sends_def by blast
    moreover have "client_inv t" "session_of t = S"
      using s st same_session_inv same_session_of by auto
    then obtain e' where tu: "same_session t u" "w_trace u = w_trace t @ e'"
      "\<forall>(k, d)\<in>set (tx_of e'). Some k = fst S \<and> P d"
      using 2 unfolding sends_def by blast
    ultimately show "same_session s u \<and> (\<exists>evs. w_trace u = w_trace s @ evs \<and>
        (\<forall>(k, d)\<in>set (tx_of evs). Some k = fst S \<and> P d))"
      using ss.R_trans by (intro conjI exI [of _ "e @ e'"]) auto
  qed
qed

lemma sends_ctx:
  "sends S P s (snd (ctx_check cx s))" "sends S P s (snd (ctx_sleep cx d s))"
  "sends S P s (snd (nextPDURef s))"
proof -
  show "sends S P s (snd (ctx_check cx s))" by (simp add: ctx_check_def sn.R_refl)
  show "sends S P s (snd (ctx_sleep cx d s))"
    unfolding ctx_sleep_def
    by (rule sn.frame_bind)
       (auto simp: sn.R_refl sends_def only_trace_log intro!: only_trace_same_session)
  show "sends S P s (snd (nextPDURef s))"
    by (simp add: sends_def same_session_pduRef)
qed

lemma sends_pause: "sends S P s (snd (pause cx r f s))"
  unfolding pause_def by (auto intro!: sn.frame_bind sends_ctx sn.frame_pure)

lemma sends_sendReceive:
  assumes "\<And>dt. EncodeCOTPDT (env_cotp E) req = Inr dt \<Longrightarrow>
      \<not> (0 < snd S \<and> snd S < int (length req)) \<Longrightarrow> P dt"
  shows "sends S P s (snd (sendReceive E cx req ref s))"
  unfolding sends_def
proof (intro impI, elim conjE)
  let ?t = "snd (sendReceive E cx req ref s)"
  assume s: "client_inv s" "session_of s = S"
  have "\<exists>evs. w_trace ?t = w_trace s @ evs \<and> (\<forall>(k, d)\<in>set (tx_of evs). Some k = fst S \<and> P d)"
  proof (cases "clConn s")
    case None
    then show ?thesis by (simp add: sendReceive_not_connected)
  next
    case (Some c)
    from sendReceive_tx [OF s(1) Some, of E cx req ref] obtain r evs sock where
      run: "sendReceive E cx req ref s = (r, grow s evs)" and sock: "tConn (w_conns s c) = Some sock" and
      tx: "tx_of evs = [] \<or> (\<exists>dt. EncodeCOTPDT (env_cotp E) req = Inr dt \<and> tx_of evs = [(sock, dt)] \<and>
        \<not> (0 < clPduSize s \<and> clPduSize s < int (length req)))"
      by blast
    have "fst S = Some sock" "snd S = clPduSize s"
      using s(2) Some sock by (auto simp: session_of_def socket_of_def)
    then show ?thesis using run tx assms by (intro exI [of _ evs]) auto
  qed
  then show "same_session s ?t \<and>
      (\<exists>evs. w_trace ?t = w_trace s @ evs \<and> (\<forall>(k, d)\<in>set (tx_of evs). Some k = fst S \<and> P d))"
    using only_trace_same_session [OF only_trace_sendReceive] by simp
qed

section \<open>Totality\<close>

definition frames_bounded :: "env \<Rightarrow> bool" where
  \<comment> \<open>a TPKT frame holds at most 65535 bytes, so the user data of a decoded TPDU is shorter
     than 65546 bytes\<close>
  "frames_bounded E \<longleftrightarrow> (\<forall>tr sock resp dec dt. env_read E tr sock = Inr resp \<longrightarrow>
     cotp_Decode (env_cotp E) resp = Inr dec \<longrightarrow> decDT dec = Some dt \<longrightarrow> length (dtUserData dt) < 65546)"

definition safe :: "(client, 'a) io \<Rightarrow> bool" where
  \<comment> \<open>from a well-formed state: no panic, and a well-formed state after\<close>
  "safe m \<longleftrightarrow> (\<forall>s. client_inv s \<longrightarrow> no_panic m s \<and> client_inv (snd (m s)) \<and> tidy s (snd (m s)))"

lemma safeI:
  "(\<And>s. client_inv s \<Longrightarrow> no_panic m s) \<Longrightarrow> (\<And>s. client_inv s \<Longrightarrow> client_inv (snd (m s))) \<Longrightarrow>
     (\<And>s. client_inv s \<Longrightarrow> tidy s (snd (m s))) \<Longrightarrow> safe m"
  by (simp add: safe_def)

lemma safe_only_trace: "(\<And>s. no_panic m s) \<Longrightarrow> (\<And>s. only_trace s (snd (m s))) \<Longrightarrow> safe m"
  by (intro safeI) (blast intro: only_trace_client_inv only_trace_tidy)+

lemma safe_simps [simp, intro]:
  "safe (io_ret x)" "safe (io_fail e)" "safe (io_get f)" "safe (ctx_check cx)" "safe nextPDURef"
  by (simp_all add: safe_def ctx_check_def no_panic_def td.R_refl tidy_same)

lemma safe_pure: "r \<noteq> None \<Longrightarrow> safe (io_pure r)"
  by (simp add: safe_def td.R_refl)

lemma safe_case:
  assumes "safe m" "\<And>r. safe (k r)"
  shows "safe (io_case m k)"
proof (rule safeI)
  fix s assume s: "client_inv s"
  then obtain r t where run: "m s = (Some r, t)"
    using assms(1) by (cases "m s") (auto simp: safe_def no_panic_def)
  then have "client_inv t" "tidy s t" using s assms(1) by (auto simp: safe_def)
  then show "no_panic (io_case m k) s" "client_inv (snd (io_case m k s))" "tidy s (snd (io_case m k s))"
    using run assms(2) [of r] by (auto simp: safe_def no_panic_def io_case_def intro: td.R_trans)
qed

lemma safe_bind: "safe m \<Longrightarrow> (\<And>x. safe (k x)) \<Longrightarrow> safe (io_bind m k)"
  unfolding io_bind_def by (rule safe_case) (auto split: sum.split)

lemma safe_wrap: "safe m \<Longrightarrow> safe (io_wrap f m)"
  unfolding io_wrap_def by (rule safe_case) (auto split: sum.split)

lemma safe_state: "(\<And>s. client_inv s \<Longrightarrow> safe (m s)) \<Longrightarrow> safe (\<lambda>s. m s s)"
  by (simp add: safe_def no_panic_def)

lemma safe_sleep: "safe (ctx_sleep cx d)"
proof (rule safe_only_trace)
  show "no_panic (ctx_sleep cx d) s" for s
    unfolding ctx_sleep_def no_panic_def
    by (cases "ctx_wait cx (w_trace s) d") simp_all
qed (rule only_trace_sleep)

lemma safe_pause: "safe (pause cx r f)"
  unfolding pause_def by (rule safe_bind) (simp_all add: safe_sleep)

lemma ReceiveContext_read:
  assumes "ReceiveContext E c cx s = (Some (Inr p), t)"
  shows "\<exists>tr k. env_read E tr k = Inr p"
proof (cases "tConn (w_conns s c)")
  case None
  then show ?thesis using assms by (simp add: ReceiveContext_closed)
next
  case (Some sock)
  then show ?thesis
    using assms
    by (auto simp: ReceiveContext_def io_bind_ok_iff io_wrap_ok_iff ReadFrame_def split: option.splits)
qed

lemma np_sendReceive:
  assumes "client_inv s" "frames_bounded E"
  shows "no_panic (sendReceive E cx req ref) s"
proof (cases "clConn s")
  case None
  then show ?thesis by (simp add: no_panic_def sendReceive_not_connected)
next
  case (Some c)
  have wf: "conn_wf (w_conns s c)" using assms(1) by (simp add: client_inv_def heap_wf_def)
  have reply: "sendReceive_reply (env_cotp E) ref resp \<noteq> None"
    if rcv: "ReceiveContext E c cx s' = (Some (Inr resp), s'')" for resp s' s''
  proof -
    obtain tr sock where "env_read E tr sock = Inr resp"
      using ReceiveContext_read [OF rcv] by blast
    then show ?thesis
      using assms(2) sendReceive_reply_total unfolding frames_bounded_def by metis
  qed
  show ?thesis
  proof (cases "0 < clPduSize s \<and> clPduSize s < int (length req)")
    case True
    then show ?thesis using Some by (simp add: no_panic_def sendReceive_def)
  next
    case fits: False
    show ?thesis
    proof (cases "EncodeCOTPDT (env_cotp E) req")
      case (Inl e)
      then show ?thesis using Some fits by (simp add: no_panic_def sendReceive_def io_wrap_run)
    next
      case (Inr dt)
      show ?thesis
        unfolding no_panic_def sendReceive_fits [OF Some fits Inr]
        unfolding no_panic_def [symmetric]
      proof (intro np_bind np_SendContext np_ReceiveContext)
        show "conn_wf (w_conns s c)" by (rule wf)
        show "no_panic (ctx_check cx) t" for t :: client by simp
        show "conn_wf (w_conns t' c)"
          if "SendContext E c cx dt s = (Some (Inr x), t)" "ctx_check cx t = (Some (Inr y), t')" for x t y t'
          using that wf by (auto dest!: conns_keep)
        show "no_panic (io_pure (sendReceive_reply (env_cotp E) ref resp)) t'"
          if "ReceiveContext E c cx t = (Some (Inr resp), t')" for t resp t'
          using that by (auto dest: reply)
      qed
    qed
  qed
qed

lemma safe_sendReceive: "frames_bounded E \<Longrightarrow> safe (sendReceive E cx req ref)"
  by (rule safeI) (simp_all add: np_sendReceive client_inv_sendReceive only_trace_tidy only_trace_sendReceive)

lemma read_step_total: "read_step param data out result \<noteq> None"
proof -
  obtain r where r: "ParseReadVarResponse param data = Some r"
    by (cases "ParseReadVarResponse param data") (auto simp: ParseReadVarResponse_eq read_items_total split: if_splits)
  show ?thesis
    by (cases r) (auto simp: read_step_def r idx_def split: option.split)
qed

lemma read_step_Inr: "read_step param data out result \<noteq> Some (Inl e)"
  by (auto simp: read_step_def split: sum.splits Option.bind_splits option.splits if_splits)

lemma safe_read_chunks:
  "frames_bounded E \<Longrightarrow> safe (read_chunks E cx addr r out f off res cs)"
proof (induction cs arbitrary: f off res)
  case (Cons c cs)
  show ?case
    unfolding read_chunks.simps Let_def
    by (intro safe_case safe_pause allI)
       (auto intro!: safe_bind safe_case safe_sendReceive safe_pure read_step_total Cons split: sum.split)
qed simp

definition read_max :: "int \<Rightarrow> int" where
  "read_max pdu = (if pdu - 24 < 1 then 200 else pdu - 24)"

definition write_max :: "int \<Rightarrow> int" where
  "write_max pdu = (if pdu - 28 < 1 then 200 else pdu - 28)"

definition plan_of :: "int \<Rightarrow> int \<Rightarrow> int list" where
  "plan_of t m = the (planReadChunks t m)"

lemma plan_of_eq: "planReadChunks t m = Some (plan_of t m)"
  using rc.ends [of t m] by (auto simp: plan_of_def)

lemma overheads: "int ReadVarRequestOverhead = 24" "int WriteVarRequestOverhead = 28"
  by (simp_all add: ReadVarRequestOverhead_def WriteVarRequestOverhead_def S7HeaderSize_def)

lemma ReadArea_eq:
  "ReadArea E cx addr s =
     (case validateAddress addr of
        Some err \<Rightarrow> (Some (Inl err), s)
      | None \<Rightarrow> read_chunks E cx addr (oRateLimit (clOpts s)) (new_ReadResult (aSize addr)) True
                  (aStart addr) [] (plan_of (aSize addr) (read_max (clPduSize s))) s)"
  by (auto simp: ReadArea_def Let_def overheads read_max_def plan_of_eq validateAddress_def
      io_bind_def io_case_def split: if_splits)

lemma WriteArea_eq:
  "WriteArea E cx addr data s =
     (case validateAddress addr of
        Some err \<Rightarrow> (Some (Inl err), s)
      | None \<Rightarrow>
          (case ctx_err cx (w_trace s) of
             Some err \<Rightarrow> (Some (Inl err), s)
           | None \<Rightarrow> write_chunks E cx addr data (oRateLimit (clOpts s)) True 0
                       (plan_of (int (length data)) (write_max (clPduSize s))) s))"
  by (auto simp: WriteArea_def Let_def overheads write_max_def plan_of_eq ctx_check_def
      io_bind_def io_case_def split: option.splits)

lemma safe_ReadArea: "frames_bounded E \<Longrightarrow> safe (ReadArea E cx addr)"
  using safe_read_chunks [of E cx addr]
  by (auto simp: safe_def no_panic_def ReadArea_eq td.R_refl split: option.split)

lemma safe_write_chunks:
  assumes "frames_bounded E"
  shows "0 \<le> off \<Longrightarrow> \<forall>c\<in>set cs. 0 \<le> c \<Longrightarrow> off + sum_list cs \<le> int (length data) \<Longrightarrow>
    safe (write_chunks E cx addr data r f off cs)"
proof (induction cs arbitrary: f off)
  case (Cons c cs)
  have "0 \<le> sum_list cs" using Cons.prems(2) by (intro sum_list_nonneg) simp
  then have sl: "slice data (nat off) (nat (off + c)) = Some (take (nat (off + c) - nat off) (drop (nat off) data))"
    using Cons.prems by (intro slice_in conjI) (auto simp: nat_le_iff)
  have rest: "safe (write_chunks E cx addr data r False (off + c) cs)"
    using Cons.prems by (intro Cons.IH) auto
  have parse: "Option.bind (ParseWriteVarResponse param respData) opt_err \<noteq> None" for param respData
    by (simp add: ParseWriteVarResponse_eq)
  show ?case
    unfolding write_chunks.simps Let_def sl
    by (intro safe_bind safe_pause)
       (auto intro!: safe_bind safe_sendReceive [OF assms] safe_pure parse rest split: prod.split)
qed simp

lemma plan_of_bounds:
  "\<forall>c\<in>set (plan_of t m). 0 < c \<and> (0 < m \<longrightarrow> c \<le> m)" "sum_list (plan_of t m) = max 0 t"
  using rc.bounded [OF plan_of_eq] rc.sums [OF plan_of_eq] by auto

lemma plan_of_nonneg: "c \<in> set (plan_of t m) \<Longrightarrow> 0 \<le> c"
  using plan_of_bounds by fastforce

lemma read_max_pos: "0 < read_max p" by (simp add: read_max_def)
lemma write_max_pos: "0 < write_max p" by (simp add: write_max_def)

lemma safe_WriteArea: "frames_bounded E \<Longrightarrow> safe (WriteArea E cx addr data)"
  using safe_write_chunks [of E 0 "plan_of (int (length data)) m" data cx addr r True for m r]
  by (auto simp: safe_def no_panic_def WriteArea_eq td.R_refl plan_of_bounds plan_of_nonneg split: option.split)

section \<open>What is sent\<close>

definition read_frame :: "env \<Rightarrow> Address \<Rightarrow> int \<Rightarrow> bytes \<Rightarrow> bool" where
  \<comment> \<open>the frame of a read request for a piece of \<open>addr\<close> of at most \<open>m\<close> bytes\<close>
  "read_frame E addr m d \<longleftrightarrow> (\<exists>ref start n. 0 < n \<and> n \<le> m \<and>
     EncodeCOTPDT (env_cotp E) (EncodeReadVarRequest ref
       [\<lparr>anyArea = aArea addr, anyDBNumber = aDBNumber addr, anyStart = start, anySize = n\<rparr>]) = Inr d)"

lemma sends_read_chunks:
  "\<forall>c\<in>set cs. 0 < c \<and> c \<le> m \<Longrightarrow>
     sends S (read_frame E addr m) s (snd (read_chunks E cx addr r out f off res cs s))"
proof (induction cs arbitrary: f off res s)
  case (Cons c cs)
  have send: "sends S (read_frame E addr m) t (snd (sendReceive E cx (EncodeReadVarRequest ref
      [\<lparr>anyArea = aArea addr, anyDBNumber = aDBNumber addr, anyStart = off, anySize = c\<rparr>]) ref t))" for ref t
    using Cons.prems by (intro sends_sendReceive) (auto simp: read_frame_def)
  show ?case
    unfolding read_chunks.simps Let_def
    by (rule sn.frame_case)
       (use Cons in \<open>auto intro!: sends_pause sends_ctx sn.frame_bind sn.frame_case sn.frame_pure send
          simp del: nextPDURef_run io_run split: sum.split\<close>)
qed (simp add: sn.R_refl)

lemma sends_ReadArea:
  "session_of s = S \<Longrightarrow> sends S (read_frame E addr (read_max (snd S))) s (snd (ReadArea E cx addr s))"
  using plan_of_bounds(1) [of "aSize addr" "read_max (snd S)"] read_max_pos
  by (auto simp: ReadArea_eq session_of_def sn.R_refl intro!: sends_read_chunks split: option.split)

definition write_frame :: "env \<Rightarrow> Address \<Rightarrow> int \<Rightarrow> int \<Rightarrow> bytes \<Rightarrow> bool" where
  \<comment> \<open>the frame of a write request for a piece of at most \<open>m\<close> bytes, of at most \<open>pdu\<close> bytes\<close>
  "write_frame E addr m pdu d \<longleftrightarrow> (\<exists>ref start chunk. 0 < length chunk \<and> int (length chunk) \<le> m \<and>
     (0 < pdu \<longrightarrow> int (length (EncodeWriteVarRequest ref
       \<lparr>anyArea = aArea addr, anyDBNumber = aDBNumber addr, anyStart = start,
        anySize = int (length chunk)\<rparr> chunk)) \<le> pdu) \<and>
     EncodeCOTPDT (env_cotp E) (EncodeWriteVarRequest ref
       \<lparr>anyArea = aArea addr, anyDBNumber = aDBNumber addr, anyStart = start,
        anySize = int (length chunk)\<rparr> chunk) = Inr d)"

lemma sends_write_chunks:
  "0 \<le> off \<Longrightarrow> \<forall>c\<in>set cs. 0 < c \<and> c \<le> m \<Longrightarrow>
     sends S (write_frame E addr m (snd S)) s (snd (write_chunks E cx addr data r f off cs s))"
proof (induction cs arbitrary: f off s)
  case (Cons c cs)
  have IH: "sends S (write_frame E addr m (snd S)) t (snd (write_chunks E cx addr data r False (off + c) cs t))"
    for t using Cons.prems by (intro Cons.IH) auto
  let ?a = "\<lambda>chunk. \<lparr>anyArea = aArea addr, anyDBNumber = aDBNumber addr,
      anyStart = wrap64 (aStart addr + off), anySize = int (length chunk)\<rparr>"
  have send: "sends S (write_frame E addr m (snd S)) t
      (snd (sendReceive E cx (EncodeWriteVarRequest ref (?a chunk) chunk) ref t))"
    if "slice data (nat off) (nat (off + c)) = Some chunk" for chunk ref t
  proof (rule sends_sendReceive)
    fix dt
    assume enc: "EncodeCOTPDT (env_cotp E) (EncodeWriteVarRequest ref (?a chunk) chunk) = Inr dt"
      and fits: "\<not> (0 < snd S \<and> snd S < int (length (EncodeWriteVarRequest ref (?a chunk) chunk)))"
    have "length chunk = nat c"
      using slice_length [OF that] Cons.prems by auto
    then have "0 < length chunk" "int (length chunk) \<le> m" using Cons.prems by auto
    then show "write_frame E addr m (snd S) dt"
      unfolding write_frame_def using enc fits by (meson not_less)
  qed
  show ?case
  proof (cases "slice data (nat off) (nat (off + c))")
    case None
    show ?thesis
      unfolding write_chunks.simps Let_def None option.map io_bind_pure
      by (intro sn.frame_bind sends_pause sn.frame_pure)
  next
    case (Some chunk)
    show ?thesis
      unfolding write_chunks.simps Let_def Some option.map io_bind_pure
      by (intro sn.frame_bind sends_pause)
         (auto intro!: sends_ctx sn.frame_bind sn.frame_pure send [OF Some] IH
            simp del: nextPDURef_run io_run split: prod.split)
  qed
qed (simp add: sn.R_refl)

lemma sends_WriteArea:
  assumes "session_of s = S"
  shows "sends S (write_frame E addr (write_max (snd S)) (snd S)) s (snd (WriteArea E cx addr data s))"
proof -
  have "sends S (write_frame E addr (write_max (snd S)) (snd S)) s
      (snd (write_chunks E cx addr data r f 0 (plan_of (int (length data)) (write_max (snd S))) s))" for r f
    using plan_of_bounds(1) [of "int (length data)" "write_max (snd S)"] write_max_pos
    by (intro sends_write_chunks) auto
  then show ?thesis
    using assms by (auto simp: WriteArea_eq session_of_def sn.R_refl split: option.split)
qed

section \<open>What is returned\<close>

definition yields :: "('a \<Rightarrow> bool) \<Rightarrow> ('s, 'a) io \<Rightarrow> bool" where
  \<comment> \<open>never an error, and every value satisfies \<open>Q\<close>\<close>
  "yields Q m \<longleftrightarrow> (\<forall>s t r. m s = (Some r, t) \<longrightarrow> (\<exists>x. r = Inr x \<and> Q x))"

lemma yields_ret [intro]: "Q x \<Longrightarrow> yields Q (io_ret x)"
  by (simp add: yields_def)

lemma yields_case: "(\<And>r. yields Q (k r)) \<Longrightarrow> yields Q (io_case m k)"
  by (auto simp: yields_def io_case_def split: prod.splits option.splits)

lemma yields_bind:
  assumes "yields P m" "\<And>x. P x \<Longrightarrow> yields Q (k x)"
  shows "yields Q (io_bind m k)"
  unfolding yields_def
proof (intro allI impI)
  fix s t r assume run: "io_bind m k s = (Some r, t)"
  obtain r0 s0 where m: "m s = (Some r0, s0)"
    using run by (cases "m s") (auto simp: io_bind_def io_case_def split: option.splits)
  with assms(1) obtain x where "r0 = Inr x" "P x" unfolding yields_def by blast
  then show "\<exists>x. r = Inr x \<and> Q x"
    using run m assms(2) [of x] by (auto simp: yields_def)
qed

lemma yields_pduRef: "yields (\<lambda>_. True) nextPDURef"
  by (simp add: yields_def)

definition outcome_wf :: "int \<Rightarrow> ReadResult \<Rightarrow> bool" where
  "outcome_wf n rr \<longleftrightarrow>
     rrRequestedLength rr = n \<and> rrReturnedLength rr = int (length (rrData rr)) \<and> rrWarnings rr = [] \<and>
     (case rrStatus rr of
        ReadStatusSuccess \<Rightarrow> n \<le> rrReturnedLength rr \<and> rrCause rr = None \<and> rrReturnCode rr = 0
      | ReadStatusShortRead \<Rightarrow> 0 < rrReturnedLength rr \<and> rrReturnedLength rr < n \<and> rrCause rr = None
      | ReadStatusEmptyRead \<Rightarrow> 0 < n \<and> rrCause rr = None
      | ReadStatusRejected \<Rightarrow> 0 < n \<and>
          (rrCause rr \<noteq> None \<or>
           rrReturnCode rr \<noteq> RetCodeSuccess \<and> rrItemStatus rr = ItemReturnCodeString (rrReturnCode rr))
      | ReadStatusTimeout \<Rightarrow> 0 < n \<and> rrData rr = [] \<and> rrCause rr \<noteq> None
      | ReadStatusTransportErr \<Rightarrow> 0 < n \<and> rrData rr = [] \<and> rrCause rr \<noteq> None
      | ReadStatusProtocolErr \<Rightarrow> 0 < n
      | ReadStatusUnset \<Rightarrow> False
      | ReadStatusInconclusive \<Rightarrow> False)"

lemma classifyOpError_Some:
  "classifyOpError (Some e) \<in> {ReadStatusRejected, ReadStatusTimeout, ReadStatusTransportErr, ReadStatusProtocolErr}"
  by (simp add: classifyOpError_def)

lemma outcome_wf_failed: "0 < n \<Longrightarrow> outcome_wf n (newFailedReadResult n (Some e))"
  using classifyOpError_Some [of e]
  by (auto simp: outcome_wf_def newFailedReadResult_def new_ReadResult_def split: ReadStatus.split)

lemma outcome_wf_finish: "0 \<le> n \<Longrightarrow> outcome_wf n (finish_read (new_ReadResult n) res)"
  by (auto simp: outcome_wf_def finish_read_def new_ReadResult_def Let_def ClassifyReadOutcome_def)

lemma outcome_wf_step:
  "0 < n \<Longrightarrow> read_step param data (new_ReadResult n) res = Some (Inr (Inl rr)) \<Longrightarrow> outcome_wf n rr"
  by (auto simp: read_step_def outcome_wf_def stop_result_def new_ReadResult_def ReturnCodeError_Some_iff
      split: Option.bind_splits sum.splits if_splits option.splits)

lemma new_ReadResult_requested [simp]: "rrRequestedLength (new_ReadResult n) = n"
  by (simp add: new_ReadResult_def)

lemma yields_step:
  assumes "0 < n"
  shows "yields (\<lambda>v. \<forall>rr. v = Inl rr \<longrightarrow> outcome_wf n rr) (io_pure (read_step param data (new_ReadResult n) res))"
  unfolding yields_def
proof (intro allI impI)
  fix s t r assume "io_pure (read_step param data (new_ReadResult n) res) s = (Some r, t)"
  then have "read_step param data (new_ReadResult n) res = Some r" by simp
  then show "\<exists>x. r = Inr x \<and> (\<forall>rr. x = Inl rr \<longrightarrow> outcome_wf n rr)"
    using outcome_wf_step [OF assms] read_step_Inr by (cases r) auto
qed

lemma yields_read_chunks:
  "0 \<le> n \<Longrightarrow> (cs \<noteq> [] \<Longrightarrow> 0 < n) \<Longrightarrow>
     yields (outcome_wf n) (read_chunks E cx addr r (new_ReadResult n) f off res cs)"
proof (induction cs arbitrary: f off res)
  case Nil
  then show ?case unfolding read_chunks.simps by (intro yields_ret outcome_wf_finish)
next
  case (Cons c cs)
  then have n: "0 < n" by simp
  have IH: "yields (outcome_wf n) (read_chunks E cx addr r (new_ReadResult n) False off' res' cs)" for off' res'
    using n by (intro Cons.IH) auto
  have after: "yields (outcome_wf n) (io_bind (io_pure (read_step param data (new_ReadResult n) res))
      (\<lambda>v. case v of Inl done' \<Rightarrow> io_ret done' | Inr res' \<Rightarrow>
        read_chunks E cx addr r (new_ReadResult n) False (wrap64 (off + c)) res' cs))" for param data
    by (rule yields_bind [OF yields_step [OF n]]) (auto intro: IH split: sum.split)
  show ?case
    unfolding read_chunks.simps Let_def new_ReadResult_requested
    by (intro yields_case)
       (auto intro!: yields_case yields_bind [OF yields_pduRef] yields_ret outcome_wf_failed [OF n] after
          split: sum.split)
qed

lemma plan_of_Nil_iff: "plan_of t m = [] \<longleftrightarrow> t \<le> 0"
  using rc.empty_iff [OF plan_of_eq] .

lemma ReadArea_result:
  assumes "ReadArea E cx addr s = (Some r, t)"
  shows "case validateAddress addr of
      Some e \<Rightarrow> r = Inl e \<and> t = s
    | None \<Rightarrow> \<exists>rr. r = Inr rr \<and> outcome_wf (aSize addr) rr"
proof (cases "validateAddress addr")
  case None
  then have "0 \<le> aSize addr" by (auto simp: validateAddress_def split: if_splits)
  then have "yields (outcome_wf (aSize addr)) (read_chunks E cx addr (oRateLimit (clOpts s))
      (new_ReadResult (aSize addr)) True (aStart addr) [] (plan_of (aSize addr) (read_max (clPduSize s))))"
    by (rule yields_read_chunks) (auto simp: plan_of_Nil_iff)
  then show ?thesis
    using assms None by (simp add: ReadArea_eq yields_def)
next
  case (Some e)
  then show ?thesis using assms by (simp add: ReadArea_eq)
qed

section \<open>Connecting and closing are safe\<close>

lemma safe_Connect: "safe (Connect E cx)"
proof (rule safeI)
  fix s assume inv: "client_inv s"
  show "client_inv (snd (Connect E cx s))" by (rule client_inv_Connect [OF inv])
  show "tidy s (snd (Connect E cx s))" by (rule tidy_Connect [OF inv])
  have "connect_outcome E cx s (Connect E cx s)"
    using inv by (intro connect_outcome_Connect) (simp add: client_inv_def)
  then show "no_panic (Connect E cx) s"
    by (cases "Connect E cx s") (auto simp: no_panic_def elim: connect_outcome.cases)
qed

lemma safe_Close: "safe (Close E)"
  using Close_result(1,4) tidy_Close by (auto simp: safe_def no_panic_def)

end
