(* ===== verification/Target.thy ===== *)
theory Target
  imports Read_Write_Props
begin

text \<open>
  A target that answers every request.  Its behaviour is a function \<open>step\<close> from its state
  and the user data of a request to its new state and the user data of the answer; its state
  is what the frames sent so far have made of the initial state.  A peer that behaves like
  that, on a working network and with a COTP codec that returns what was put in, is an
  environment with \<open>answers\<close>.  One exchange of the client with such a target is one \<open>step\<close>.
\<close>

section \<open>Acknowledgements\<close>

definition ack_pdu :: "bytes \<Rightarrow> bytes \<Rightarrow> bytes \<Rightarrow> bytes" where
  "ack_pdu ref param data =
     [0x32, ROSCTRAckData, 0, 0] @ ref @ put16 (of_nat (length param)) @ put16 (of_nat (length data)) @
     [0, 0] @ param @ data"

section \<open>A peer that answers\<close>

definition user_of :: "cotp_lib \<Rightarrow> bytes \<Rightarrow> bytes" where
  "user_of C frame =
     (case cotp_Decode C frame of
        Inl _ \<Rightarrow> []
      | Inr dec \<Rightarrow> (case decDT dec of None \<Rightarrow> [] | Some dt \<Rightarrow> dtUserData dt))"

definition cotp_faithful :: "cotp_lib \<Rightarrow> bool" where
  \<comment> \<open>what is put into a DT TPDU is what is decoded from it\<close>
  "cotp_faithful C \<longleftrightarrow> (\<forall>req. \<exists>dt dec d. EncodeCOTPDT C req = Inr dt \<and> cotp_Decode C dt = Inr dec \<and>
     decDT dec = Some d \<and> dtUserData d = req)"

type_synonym 'st target = "'st \<Rightarrow> bytes \<Rightarrow> 'st \<times> bytes"

definition is_dt :: "cotp_lib \<Rightarrow> bytes \<Rightarrow> bool" where
  \<comment> \<open>the frame is a data TPDU\<close>
  "is_dt C frame = (case cotp_Decode C frame of Inl _ \<Rightarrow> False | Inr dec \<Rightarrow> decDT dec \<noteq> None)"

definition target_state :: "cotp_lib \<Rightarrow> 'st target \<Rightarrow> 'st \<Rightarrow> (nat \<times> bytes) list \<Rightarrow> 'st" where
  "target_state C step st0 frames =
     fold (\<lambda>(k, d) st. if is_dt C d then fst (step st (user_of C d)) else st) frames st0"

definition answers :: "env \<Rightarrow> 'st target \<Rightarrow> 'st \<Rightarrow> bool" where
  "answers E step st0 \<longleftrightarrow>
     cotp_faithful (env_cotp E) \<and>
     (\<forall>tr k. env_set_deadline E tr k = None) \<and> (\<forall>tr k d. env_write E tr k d = None) \<and>
     (\<forall>tr k d frames. tx_of tr = frames @ [(k, d)] \<longrightarrow> is_dt (env_cotp E) d \<longrightarrow>
        env_read E tr k = EncodeCOTPDT (env_cotp E)
          (snd (step (target_state (env_cotp E) step st0 frames) (user_of (env_cotp E) d))))"

definition ctx_live :: "ctx \<Rightarrow> bool" where
  \<comment> \<open>a context that never ends\<close>
  "ctx_live cx \<longleftrightarrow> (\<forall>tr. ctx_err cx tr = None) \<and> (\<forall>tr d. ctx_wait cx tr d = None)"

definition state_of :: "env \<Rightarrow> 'st target \<Rightarrow> 'st \<Rightarrow> 'z world_scheme \<Rightarrow> 'st" where
  \<comment> \<open>the target's state after the frames sent so far\<close>
  "state_of E step st0 s = target_state (env_cotp E) step st0 (tx_of (w_trace s))"

lemma target_state_snoc:
  "target_state C step st0 (frames @ [(k, d)]) =
     (if is_dt C d then fst (step (target_state C step st0 frames) (user_of C d))
      else target_state C step st0 frames)"
  by (simp add: target_state_def)

section \<open>One exchange\<close>

definition accepts :: "uint16 \<Rightarrow> bytes \<Rightarrow> bytes \<times> bytes \<Rightarrow> bool" where
  \<comment> \<open>the client takes this user data as the answer to its request \<open>ref\<close>\<close>
  "accepts ref ans pd \<longleftrightarrow> (\<forall>C resp dec dt. cotp_Decode C resp = Inr dec \<longrightarrow> decDT dec = Some dt \<longrightarrow>
     dtUserData dt = ans \<longrightarrow> sendReceive_reply C ref resp = Some (Inr pd))"

lemma acceptsI:
  assumes "ParseS7Header ans = Some (Inr (h, param @ data))" "hPDURef h = ref" "hErrorClass h = 0"
    "hErrorCode h = 0" "hParamLength h = of_nat (length param)" "hDataLength h = of_nat (length data)"
    "length param + length data < 65536"
  shows "accepts ref ans (param, data)"
proof -
  have n: "unat (of_nat (length param) :: uint16) = length param"
    "unat (of_nat (length data) :: uint16) = length data"
    using assms(7) by (subst unat_of_nat; simp)+
  have sum: "unat (of_nat (length param) + of_nat (length data) :: uint16) = length param + length data"
    using assms(7) by (simp flip: of_nat_add) (subst unat_of_nat; simp)
  show ?thesis
    unfolding accepts_def using assms(1-6) n sum by (simp add: sendReceive_reply_def slice_def)
qed

lemma ack_pdu_header:
  assumes "length param + length data < 65536"
  obtains h where "ParseS7Header (ack_pdu (put16 ref) param data) = Some (Inr (h, param @ data))"
    "hPDURef h = ref" "hErrorClass h = 0" "hErrorCode h = 0" "hParamLength h = of_nat (length param)"
    "hDataLength h = of_nat (length data)"
proof -
  let ?d = "ack_pdu (put16 ref) param data"
  have off: "s7_offset ?d = 12" by (simp add: s7_offset_def ack_pdu_def)
  have n: "unat (of_nat (length param) :: uint16) = length param"
    "unat (of_nat (length data) :: uint16) = length data"
    using assms by (subst unat_of_nat; simp)+
  have list: "?d = [0x32, ROSCTRAckData, 0, 0, ucast (drop_bit 8 ref), ucast ref,
      ucast (drop_bit 8 (of_nat (length param) :: uint16)), ucast (of_nat (length param) :: uint16),
      ucast (drop_bit 8 (of_nat (length data) :: uint16)), ucast (of_nat (length data) :: uint16),
      0, 0] @ param @ data"
    by (simp add: ack_pdu_def put16_def)
  have need: "s7_need ?d = length param + length data"
    unfolding s7_need_def list using n by simp
  have "\<not> length ?d < 10" "?d ! 0 = 0x32" "\<not> length ?d < 12" "drop 12 ?d = param @ data"
    "length ?d - 12 = length param + length data"
    unfolding list by simp_all
  then have "ParseS7Header ?d = Some (Inr (s7_header_of ?d, param @ data))"
    by (simp add: ParseS7Header_eq off need)
  moreover have "hPDURef (s7_header_of ?d) = ref" "hErrorClass (s7_header_of ?d) = 0"
    "hErrorCode (s7_header_of ?d) = 0" "hParamLength (s7_header_of ?d) = of_nat (length param)"
    "hDataLength (s7_header_of ?d) = of_nat (length data)"
    unfolding s7_header_of_def off unfolding list by simp_all
  ultimately show ?thesis by (rule that)
qed

lemma ack_pdu_accepts:
  assumes "length param + length data < 65536"
  shows "accepts ref (ack_pdu (put16 ref) param data) (param, data)"
  by (rule ack_pdu_header [OF assms, of ref]) (rule acceptsI, assumption+, rule assms)

definition userdata_pdu :: "bytes \<Rightarrow> bytes \<Rightarrow> bytes \<Rightarrow> bytes" where
  "userdata_pdu ref param data =
     [0x32, ROSCTRUserdata, 0, 0] @ ref @ put16 (of_nat (length param)) @ put16 (of_nat (length data)) @
     param @ data"

lemma userdata_pdu_accepts:
  assumes "length param + length data < 65536"
  shows "accepts ref (userdata_pdu (put16 ref) param data) (param, data)"
proof (rule acceptsI)
  let ?h = "job_header ROSCTRUserdata ref (int (length param)) (int (length data))"
  have "userdata_pdu (put16 ref) param data =
      EncodeS7Header ROSCTRUserdata ref (int (length param)) (int (length data)) @ param @ data"
    by (simp add: userdata_pdu_def EncodeS7Header_def put16_def)
  then show "ParseS7Header (userdata_pdu (put16 ref) param data) = Some (Inr (?h, param @ data))"
    using assms ParseS7Header_EncodeS7Header [of ROSCTRUserdata "int (length param)" "int (length data)"
        "param @ data" ref]
    by (simp add: ROSCTRUserdata_def ROSCTRAck_def ROSCTRAckData_def)
qed (simp_all add: job_header_def assms)

lemma SendContext_live:
  assumes "tConn (w_conns s c) = Some sock" "conn_wf (w_conns s c)" "ctx_live cx"
    and "\<And>tr k. env_set_deadline E tr k = None" "\<And>tr k d. env_write E tr k d = None"
  shows "\<exists>evs. SendContext E c cx data s = (Some (Inr ()), grow s evs) \<and> tx_of evs = [(sock, data)]"
proof -
  define dl where "dl = EvWriteDeadline sock
    (io_deadline (env_now E (w_trace s)) (tTimeout (w_conns s c)) (ctx_deadline cx))"
  have "SendContext E c cx data s = (Some (Inr ()), grow s ((dl #
      (if tTracer (w_conns s c) then [EvTrace ''TX'' data] else [])) @ [EvTX sock data]))"
    using assms by (simp add: SendContext_def setWriteDeadline_def Let_def ctx_check_def tracer_Trace_def
        WriteFrame_def conn_wf_def ctx_live_def dl_def)
  moreover have "tx_of ((dl # (if tTracer (w_conns s c) then [EvTrace ''TX'' data] else [])) @
      [EvTX sock data]) = [(sock, data)]"
    by (simp add: dl_def)
  ultimately show ?thesis by blast
qed

lemma ReceiveContext_live:
  assumes "tConn (w_conns s c) = Some sock" "conn_wf (w_conns s c)" "ctx_live cx"
    and "\<And>tr k. env_set_deadline E tr k = None"
    and "\<And>evs. tx_of evs = [] \<Longrightarrow> env_read E (w_trace s @ evs) sock = Inr p"
  shows "\<exists>evs. ReceiveContext E c cx s = (Some (Inr p), grow s evs) \<and> tx_of evs = []"
proof -
  define dl where "dl = EvReadDeadline sock
    (io_deadline (env_now E (w_trace s)) (tTimeout (w_conns s c)) (ctx_deadline cx))"
  have "env_read E (w_trace s @ [dl]) sock = Inr p"
    by (rule assms(5)) (simp add: dl_def)
  then have "ReceiveContext E c cx s = (Some (Inr p), grow s ([dl, EvRX sock] @
      (if tTracer (w_conns s c) then [EvTrace ''RX'' p] else [])))"
    using assms(1-4) by (simp add: ReceiveContext_def setReadDeadline_def Let_def ctx_check_def
        tracer_Trace_def ReadFrame_def conn_wf_def ctx_live_def dl_def io_wrap_run)
  moreover have "tx_of ([dl, EvRX sock] @
      (if tTracer (w_conns s c) then [EvTrace ''RX'' p] else [])) = []"
    by (simp add: dl_def)
  ultimately show ?thesis by blast
qed

lemma cotp_faithful_dt:
  assumes "cotp_faithful C"
  obtains dt where "EncodeCOTPDT C req = Inr dt" "user_of C dt = req" "is_dt C dt"
proof -
  obtain dt dec d where "EncodeCOTPDT C req = Inr dt" "cotp_Decode C dt = Inr dec" "decDT dec = Some d"
    "dtUserData d = req"
    using assms unfolding cotp_faithful_def by blast
  then show ?thesis using that [of dt] by (simp add: user_of_def is_dt_def)
qed

lemma exchange:
  assumes "client_inv s" "clConn s = Some c" "ctx_live cx" "answers E step st0"
    and "clPduSize s = 0 \<or> int (length req) \<le> clPduSize s"
    and "step (state_of E step st0 s) req = (st', ans)" "accepts ref ans (param, data)"
  shows "\<exists>t. sendReceive E cx req ref s = (Some (Inr (param, data)), t) \<and> same_session s t \<and>
    state_of E step st0 t = st'"
proof -
  let ?C = "env_cotp E"
  obtain sock where sock: "tConn (w_conns s c) = Some sock"
    using assms(1,2) by (auto simp: client_inv_def)
  have wf: "conn_wf (w_conns s c)" using assms(1) by (simp add: client_inv_def heap_wf_def)
  have sv: "cotp_faithful ?C" "env_set_deadline E tr k = None" "env_write E tr k d = None" for tr k d
    using assms(4) by (simp_all add: answers_def)
  obtain dt where dt: "EncodeCOTPDT ?C req = Inr dt" "user_of ?C dt = req" "is_dt ?C dt"
    using sv(1) by (rule cotp_faithful_dt)
  obtain resp dec d where resp: "EncodeCOTPDT ?C ans = Inr resp"
    "cotp_Decode ?C resp = Inr dec" "decDT dec = Some d" "dtUserData d = ans"
    using sv(1) unfolding cotp_faithful_def by blast
  obtain e1 where send: "SendContext E c cx dt s = (Some (Inr ()), grow s e1)" "tx_of e1 = [(sock, dt)]"
    using SendContext_live [OF sock wf assms(3)] sv by blast
  have "env_read E (w_trace (grow s e1) @ evs) sock = Inr resp" if "tx_of evs = []" for evs
  proof -
    have "tx_of (w_trace (grow s e1) @ evs) = tx_of (w_trace s) @ [(sock, dt)]"
      using that send(2) by simp
    then have "env_read E (w_trace (grow s e1) @ evs) sock = EncodeCOTPDT ?C
        (snd (step (target_state ?C step st0 (tx_of (w_trace s))) (user_of ?C dt)))"
      using assms(4) dt(3) unfolding answers_def by blast
    then show ?thesis using assms(6) resp(1) dt(2) by (simp add: state_of_def)
  qed
  then obtain e2 where rcv: "ReceiveContext E c cx (grow s e1) = (Some (Inr resp), grow (grow s e1) e2)"
    "tx_of e2 = []"
    using ReceiveContext_live [of "grow s e1" c sock cx E resp] sock wf assms(3) sv by auto
  let ?t = "grow (grow s e1) e2"
  have fits: "\<not> (0 < clPduSize s \<and> clPduSize s < int (length req))" using assms(5) by linarith
  have "sendReceive E cx req ref s = (Some (Inr (param, data)), ?t)"
    unfolding sendReceive_fits [OF assms(2) fits dt(1)]
    using send rcv assms(3) assms(7) [unfolded accepts_def] resp(2-4)
    by (simp add: ctx_check_def ctx_live_def)
  moreover have "same_session s ?t"
    by (rule only_trace_same_session) (auto simp: only_trace_def)
  moreover have "state_of E step st0 ?t = st'"
    using send(2) rcv(2) dt(2,3) assms(6) by (simp add: state_of_def target_state_snoc)
  ultimately show ?thesis by blast
qed

section \<open>A round of a request loop\<close>

lemma pause_live:
  assumes "ctx_live cx"
  shows "\<exists>evs. pause cx r f s = (Some (Inr ()), grow s evs) \<and> tx_of evs = []"
proof (cases "0 < r \<and> \<not> f")
  case True
  then have "pause cx r f s = (Some (Inr ()), grow s [EvWait r])"
    using assms by (simp add: pause_def ctx_check_def ctx_sleep_def ctx_live_def)
  then show ?thesis by fastforce
next
  case False
  then have "pause cx r f s = (Some (Inr ()), grow s [])"
    using assms by (auto simp: pause_def ctx_check_def ctx_live_def)
  then show ?thesis by fastforce
qed

lemma state_of_pduRef [simp]: "state_of E step st0 (s\<lparr>clPduRef := n\<rparr>) = state_of E step st0 s"
  by (simp add: state_of_def)

lemma state_of_grow: "tx_of evs = [] \<Longrightarrow> state_of E step st0 (grow s evs) = state_of E step st0 s"
  by (simp add: state_of_def)

lemma same_session_grow: "same_session s (grow s evs)"
  by (rule only_trace_same_session) (auto simp: only_trace_def)

lemma same_session_drawn: "same_session s ((grow s evs)\<lparr>clPduRef := n\<rparr>)"
  using ss.R_trans [OF same_session_grow same_session_pduRef] .

lemma draw_ref:
  assumes "client_inv s"
  obtains ref u where "nextPDURef s = (Some (Inr ref), u)" "same_session s u" "client_inv u"
    "clConn u = clConn s" "clPduSize u = clPduSize s" "state_of E step st0 u = state_of E step st0 s"
  using assms that [of "ucast (clPduRef s + 1)" "s\<lparr>clPduRef := clPduRef s + 1\<rparr>"]
  by (simp add: same_session_pduRef)

lemma round_start:
  assumes "ctx_live cx" "client_inv s"
  obtains u0 ref u where "pause cx r f s = (Some (Inr ()), u0)" "nextPDURef u0 = (Some (Inr ref), u)"
    "same_session s u" "client_inv u" "clConn u = clConn s" "clPduSize u = clPduSize s"
    "state_of E step st0 u = state_of E step st0 s"
proof -
  obtain evs where p: "pause cx r f s = (Some (Inr ()), grow s evs)" "tx_of evs = []"
    using pause_live [OF assms(1)] by blast
  let ?u = "(grow s evs)\<lparr>clPduRef := clPduRef s + 1\<rparr>"
  have "same_session s ?u" by (rule same_session_drawn)
  then show ?thesis
    using that [OF p(1), of "ucast (clPduRef s + 1)" ?u] same_session_inv [of s ?u] assms(2)
    by (simp add: state_of_grow [OF p(2)])
qed

end
