(* ===== verification/Wire_SZL.thy ===== *)
theory Wire_SZL
  imports Wire_Header
begin

text \<open>
  System status list requests and responses (\<open>wire/pdu_szl.go\<close>): the userdata request PDU
  and the strict response parser, which checks the return code and the declared length
  against the bytes received.
\<close>

definition SZLModuleID :: uint16 where "SZLModuleID = 0x0011"
definition SZLComponentID :: uint16 where "SZLComponentID = 0x001C"
definition SZLCPUState :: uint16 where "SZLCPUState = 0x0424"
definition SZLProtectionInfo :: uint16 where "SZLProtectionInfo = 0x0232"
definition SZLDiagBuffer :: uint16 where "SZLDiagBuffer = 0x00A0"
definition SZLBlockList :: uint16 where "SZLBlockList = 0x0111"
definition SZLBlockInfo :: uint16 where "SZLBlockInfo = 0x0113"

lemmas szl_defs = SZLModuleID_def SZLComponentID_def SZLCPUState_def SZLProtectionInfo_def
  SZLDiagBuffer_def SZLBlockList_def SZLBlockInfo_def

definition szlIDNames :: "(uint16 \<times> string) list" where
  "szlIDNames =
   [(0x0011, ''Module identification''), (0x0012, ''All characteristics''),
     (0x0013, ''Data records of all memory areas''), (0x0014, ''All system areas of a module''),
     (0x0015, ''Data records of all block types''),
     (0x0016, ''Data records of all priority classes''), (0x0017, ''All SDBs of a module''),
     (0x0018, ''All data records''), (0x0019, ''Status of all LEDs''),
     (0x001C, ''Component identification''), (0x00A0, ''Diagnostic buffer''),
     (0x0111, ''Block list (single identification data record)''),
     (0x0112, ''Characteristics of a group''),
     (0x0113, ''Data record for one memory area / Block info''), (0x0114, ''One system area''),
     (0x0115, ''Data record of a block type''), (0x0116, ''Data record of priority class''),
     (0x0117, ''One single SDB''), (0x0124, ''Information about the last mode transition''),
     (0x0131, ''Information about a communication unit''),
     (0x0132, ''Status data for one communication section''),
     (0x0137, ''Details of one Ethernet interface''), (0x0174, ''Status of an LED''),
     (0x0181, ''Startup information of all synchronous error OBs''),
     (0x0182, ''Startup events of all synchronous error OBs''),
     (0x0190, ''Information of one DP master system''),
     (0x0191, ''Status information of all modules/racks with wrong type''),
     (0x01A0, ''Most recent diagnostic buffer entries''), (0x0200, ''Partial list extract''),
     (0x021C, ''Identification of all components (H system)''),
     (0x0221, ''Data records for specified interrupt''),
     (0x0222, ''Data records for specified interrupt''),
     (0x0223, ''Data records of priority classes being processed''),
     (0x0224, ''Processed mode transition''), (0x0232, ''Protection level''),
     (0x0281, ''Startup information of synchronous error OBs (one priority class)''),
     (0x0282, ''Startup events of synchronous error OBs (one priority class)''),
     (0x0291, ''Status information of all faulty modules''),
     (0x0292, ''Actual status of central racks/stations (DP)''),
     (0x0294, ''Actual status of rack/stations (DP/PN)''),
     (0x0300, ''Possible indexes of a partial list extract''),
     (0x031C, ''Identification of one component (redundant CPUs, H system)''),
     (0x0381, ''Startup information of all OBs of one priority class''),
     (0x0382, ''Startup events of all OBs of a priority class''),
     (0x0391, ''Status information of all modules not available''),
     (0x0392, ''State of battery backup of racks''), (0x0424, ''Current mode transition''),
     (0x0492, ''State of total backup of racks''),
     (0x04A0, ''Start information of all standard OBs''), (0x0524, ''Specified mode transition'')]"

definition SZLIDString :: "uint16 \<Rightarrow> string" where
  "SZLIDString id' =
     (case map_of szlIDNames id' of Some s \<Rightarrow> s | None \<Rightarrow> ''SZL 0x'' @ fmt04X id')"

definition UserdataSubParam :: byte where "UserdataSubParam = 0x44"
definition UserdataSZL :: byte where "UserdataSZL = 0x01"

definition EncodeSZLRequest :: "uint16 \<Rightarrow> uint16 \<Rightarrow> uint16 \<Rightarrow> bytes" where
  "EncodeSZLRequest pduRef szlID szlIndex =
     (let param = [0x00, 0x01, 0x12, 0x04, UserdataSubParam, UserdataSZL, 0x00, 0x00];
          data = [RetCodeSuccess, 0x09] @ put16 4 @ put16 szlID @ put16 szlIndex
      in EncodeS7Header ROSCTRUserdata pduRef (int (length param)) (int (length data)) @ param @ data)"

record SZLResponse =
  szSZLID :: uint16
  szSZLIndex :: uint16
  szDataLength :: uint16
  szData :: bytes

definition ParseSZLResponse :: "bytes \<Rightarrow> (goerr + SZLResponse) option" where
  "ParseSZLResponse data =
     (if length data < 8 then Some (Inl (s7msg ''SZL response too short''))
      else do {
        retCode \<leftarrow> idx data 0;
        (case ReturnCodeError retCode of
           Some err \<Rightarrow> Some (Inl err)
         | None \<Rightarrow> do {
             dataLen \<leftarrow> u16_at data 2;
             let end' = 4 + unat dataLen;
             if end' < 8 then Some (Inl (s7msg ''SZL data length too short''))
             else if end' > length data then Some (Inl (s7msg ''SZL data length mismatch''))
             else do {
               i \<leftarrow> u16_at data 4;
               x \<leftarrow> u16_at data 6;
               payload \<leftarrow> slice data 8 end';
               Some (Inr \<lparr>szSZLID = i, szSZLIndex = x, szDataLength = dataLen, szData = payload\<rparr>) } }) })"

section \<open>Lemmas\<close>

lemma length_EncodeSZLRequest [simp, enc_length]: "length (EncodeSZLRequest r i x) = 26"
  by (simp add: EncodeSZLRequest_def Let_def)

lemma ParseSZLResponse_eq:
  "ParseSZLResponse data = Some (
     if length data < 8 then Inl (s7msg ''SZL response too short'')
     else case ReturnCodeError (data ! 0) of
       Some err \<Rightarrow> Inl err
     | None \<Rightarrow>
         let n = unat (be16 (data ! 2) (data ! 3)) in
         if n < 4 then Inl (s7msg ''SZL data length too short'')
         else if length data < 4 + n then Inl (s7msg ''SZL data length mismatch'')
         else Inr \<lparr>szSZLID = be16 (data ! 4) (data ! 5), szSZLIndex = be16 (data ! 6) (data ! 7),
                   szDataLength = be16 (data ! 2) (data ! 3), szData = take (n - 4) (drop 8 data)\<rparr>)"
  by (auto simp: ParseSZLResponse_def idx_def slice_def u16_at_in Let_def ReturnCodeError_def)

lemma ParseSZLResponse_Inl_s7:
  "ParseSZLResponse data = Some (Inl e) \<Longrightarrow> errors_As_S7 e \<noteq> None"
  by (auto simp: ParseSZLResponse_eq Let_def ReturnCodeError_Some_iff split: if_splits option.splits)

definition szl_response_data :: "uint16 \<Rightarrow> uint16 \<Rightarrow> bytes \<Rightarrow> bytes" where
  \<comment> \<open>the data section a target answers with\<close>
  "szl_response_data szlID szlIndex payload =
     [RetCodeSuccess, 0x09] @ put16 (of_nat (length payload + 4)) @ put16 szlID @ put16 szlIndex @ payload"

lemma ParseSZLResponse_roundtrip:
  assumes "length payload + 4 < 65536"
  shows "ParseSZLResponse (szl_response_data i x payload @ rest) =
    Some (Inr \<lparr>szSZLID = i, szSZLIndex = x, szDataLength = of_nat (length payload + 4),
               szData = payload\<rparr>)"
proof -
  have n: "unat (of_nat (length payload + 4) :: uint16) = length payload + 4"
    using assms by (subst unat_of_nat) simp
  show ?thesis
    using n by (simp add: ParseSZLResponse_eq szl_response_data_def put16_def Let_def)
qed

lemma ParseSZLResponse_total: "ParseSZLResponse d \<noteq> None"
  by (simp add: ParseSZLResponse_eq)

end
