(* ===== verification/Szl_Text.thy ===== *)
theory Szl_Text
  imports Model_Types
begin

text \<open>
  The search of \<open>Identify\<close> for order number, firmware, CPU type and serial number in the raw text
  of a payload (\<open>populateInfoFromRaw\<close> and its helpers in \<open>client/szl.go\<close>).

  The functions it calls work on the runes of a string.  A text is the list of its runes, each with
  the bytes it was decoded from: a byte that is no part of valid UTF-8 is one rune U+FFFD, as in a
  range loop.  The operations cut texts only between runes, and a piece of a text decodes to the same
  runes, so one decoding at the start serves them all.

  The classes of runes are those of package \<open>unicode\<close>.  White space is written out; the tables
  of printable runes, letters, digits and upper cases are written out for ASCII and are otherwise
  the parameter \<open>unicode_lib\<close>.  A regular expression of package \<open>regexp\<close> is a \<open>regex\<close>,
  matched with the package's preference (leftmost, then greedy).

  The lemmas show what each search can find, and that it only fills fields that are empty.
\<close>

section \<open>Runes\<close>

type_synonym gochar = "nat \<times> bytes"
type_synonym gotext = "gochar list"

record unicode_lib =
  \<comment> \<open>tables for the runes from U+0080\<close>
  uPrint :: "nat \<Rightarrow> bool"
  uLetter :: "nat \<Rightarrow> bool"
  uDigit :: "nat \<Rightarrow> bool"
  uUpper :: "nat \<Rightarrow> nat"

definition RuneError :: nat where "RuneError = 0xFFFD"

definition IsSpace :: "nat \<Rightarrow> bool" where
  "IsSpace r \<longleftrightarrow> 9 \<le> r \<and> r \<le> 13 \<or> 0x2000 \<le> r \<and> r \<le> 0x200A \<or>
     r \<in> {0x20, 0x85, 0xA0, 0x1680, 0x2028, 0x2029, 0x202F, 0x205F, 0x3000}"

definition IsPrint :: "unicode_lib \<Rightarrow> nat \<Rightarrow> bool" where
  "IsPrint U r = (if r < 0x80 then 0x20 \<le> r \<and> r < 0x7F else uPrint U r)"

definition upper_letter :: "nat \<Rightarrow> bool" where "upper_letter r \<longleftrightarrow> 0x41 \<le> r \<and> r \<le> 0x5A"
definition lower_letter :: "nat \<Rightarrow> bool" where "lower_letter r \<longleftrightarrow> 0x61 \<le> r \<and> r \<le> 0x7A"
definition digit :: "nat \<Rightarrow> bool" where "digit r \<longleftrightarrow> 0x30 \<le> r \<and> r \<le> 0x39"

definition IsLetter :: "unicode_lib \<Rightarrow> nat \<Rightarrow> bool" where
  "IsLetter U r = (if r < 0x80 then upper_letter r \<or> lower_letter r else uLetter U r)"

definition IsDigit :: "unicode_lib \<Rightarrow> nat \<Rightarrow> bool" where
  "IsDigit U r = (if r < 0x80 then digit r else uDigit U r)"

definition ToUpper_rune :: "unicode_lib \<Rightarrow> nat \<Rightarrow> nat" where
  "ToUpper_rune U r = (if r < 0x80 then if lower_letter r then r - 32 else r else uUpper U r)"

definition continues :: "nat \<Rightarrow> byte \<Rightarrow> nat \<Rightarrow> bool" where
  "continues lo b hi \<longleftrightarrow> lo \<le> unat b \<and> unat b \<le> hi"

definition tail2 :: "nat \<Rightarrow> byte \<Rightarrow> nat" where
  "tail2 r b = r * 64 + (unat b - 0x80)"

definition first_rune :: "byte \<Rightarrow> bytes \<Rightarrow> nat \<times> nat" where
  \<comment> \<open>the rune at a byte and how many further bytes it takes\<close>
  "first_rune b0 bs =
     (let n = unat b0;
          more = (\<lambda>i. i < length bs \<and> continues 0x80 (bs ! i) 0xBF);
          second = (\<lambda>lo hi. 0 < length bs \<and> continues lo (bs ! 0) hi)
      in if n < 0x80 then (n, 0)
         else if 0xC2 \<le> n \<and> n \<le> 0xDF \<and> more 0 then (tail2 (n - 0xC0) (bs ! 0), 1)
         else if 0xE0 \<le> n \<and> n \<le> 0xEF \<and>
             second (if n = 0xE0 then 0xA0 else 0x80) (if n = 0xED then 0x9F else 0xBF) \<and> more 1
           then (tail2 (tail2 (n - 0xE0) (bs ! 0)) (bs ! 1), 2)
         else if 0xF0 \<le> n \<and> n \<le> 0xF4 \<and>
             second (if n = 0xF0 then 0x90 else 0x80) (if n = 0xF4 then 0x8F else 0xBF) \<and> more 1 \<and> more 2
           then (tail2 (tail2 (tail2 (n - 0xF0) (bs ! 0)) (bs ! 1)) (bs ! 2), 3)
         else (RuneError, 0))"

fun runes :: "bytes \<Rightarrow> gotext" where
  "runes [] = []"
| "runes (b # bs) = (case first_rune b bs of (r, n) \<Rightarrow> (r, b # take n bs) # runes (drop n bs))"

definition text_bytes :: "gotext \<Rightarrow> bytes" where
  "text_bytes cs = concat (map snd cs)"

definition EncodeRune :: "nat \<Rightarrow> bytes" where
  "EncodeRune r =
     (let r = (if 0xD800 \<le> r \<and> r \<le> 0xDFFF \<or> 0x10FFFF < r then RuneError else r);
          tl = (\<lambda>k. word_of_nat (0x80 + r div 64 ^ k mod 64))
      in if r < 0x80 then [word_of_nat r]
         else if r < 0x800 then [word_of_nat (0xC0 + r div 64), tl 0]
         else if r < 0x10000 then [word_of_nat (0xE0 + r div 64 ^ 2), tl 1, tl 0]
         else [word_of_nat (0xF0 + r div 64 ^ 3), tl 2, tl 1, tl 0])"

section \<open>Package strings\<close>

definition ToUpper :: "unicode_lib \<Rightarrow> gotext \<Rightarrow> gotext" where
  "ToUpper U = map (\<lambda>(r, _). let r = ToUpper_rune U r in (r, EncodeRune r))"

definition trim_both :: "(nat \<Rightarrow> bool) \<Rightarrow> gotext \<Rightarrow> gotext" where
  "trim_both p cs = rev (dropWhile (p \<circ> fst) (rev (dropWhile (p \<circ> fst) cs)))"

fun fields_func :: "(nat \<Rightarrow> bool) \<Rightarrow> gotext \<Rightarrow> gotext \<Rightarrow> gotext list" where
  \<comment> \<open>the current field comes last\<close>
  "fields_func p [] cur = (if cur = [] then [] else [cur])"
| "fields_func p (c # cs) cur =
     (if p (fst c) then (if cur = [] then [] else [cur]) @ fields_func p cs [] else fields_func p cs (cur @ [c]))"

fun single_spaces :: "gotext \<Rightarrow> gotext" where
  \<comment> \<open>\<open>strings.ReplaceAll(s, "  ", " ")\<close>\<close>
  "single_spaces (a # b # cs) =
     (if fst a = 0x20 \<and> fst b = 0x20 then a # single_spaces cs else a # single_spaces (b # cs))"
| "single_spaces cs = cs"

definition ascii :: "string \<Rightarrow> nat list" where
  "ascii s = map of_char s"

fun has_text :: "nat list \<Rightarrow> gotext \<Rightarrow> bool" where
  \<comment> \<open>\<open>strings.Contains\<close> for an ASCII text\<close>
  "has_text pat [] = (pat = [])"
| "has_text pat (c # cs) = (take (length pat) (map fst (c # cs)) = pat \<or> has_text pat cs)"

section \<open>Package regexp\<close>

datatype regex =
    Class "nat \<Rightarrow> bool"
  | Cat regex regex
  | Rep nat "nat option" regex \<comment> \<open>greedy, at least and at most so often\<close>

fun repeats :: "(gotext \<Rightarrow> gotext list) \<Rightarrow> nat \<Rightarrow> nat \<Rightarrow> gotext \<Rightarrow> gotext list" where
  \<comment> \<open>what is left after \<open>lo\<close> to \<open>hi\<close> further repetitions, the preferred match first\<close>
  "repeats f lo 0 cs = (if lo = 0 then [cs] else [])"
| "repeats f lo (Suc hi) cs =
     concat (map (repeats f (lo - 1) hi) (f cs)) @ (if lo = 0 then [cs] else [])"

primrec rests :: "regex \<Rightarrow> gotext \<Rightarrow> gotext list" where
  \<comment> \<open>what is left after each match at the start, the preferred match first.  An unbounded repetition
     of an expression that does not match the empty text ends with the text\<close>
  "rests (Class p) cs = (case cs of [] \<Rightarrow> [] | c # cs' \<Rightarrow> if p (fst c) then [cs'] else [])"
| "rests (Cat a b) cs = concat (map (rests b) (rests a cs))"
| "rests (Rep lo hi a) cs = repeats (rests a) lo (case hi of None \<Rightarrow> lo + length cs | Some h \<Rightarrow> h) cs"

fun FindString :: "regex \<Rightarrow> gotext \<Rightarrow> gotext option" where
  "FindString re [] = None"
| "FindString re (c # cs) =
     (case rests re (c # cs) of
        [] \<Rightarrow> FindString re cs
      | rest # _ \<Rightarrow> Some (take (length (c # cs) - length rest) (c # cs)))"

fun FindAllString :: "regex \<Rightarrow> gotext \<Rightarrow> gotext list" where
  \<comment> \<open>for an expression that does not match the empty text\<close>
  "FindAllString re [] = []"
| "FindAllString re (c # cs) =
     (case rests re (c # cs) of
        [] \<Rightarrow> FindAllString re cs
      | rest # _ \<Rightarrow>
          if length rest \<le> length cs
          then take (length (c # cs) - length rest) (c # cs) # FindAllString re rest
          else FindAllString re cs)"

definition folded :: "nat set \<Rightarrow> nat \<Rightarrow> bool" where
  \<comment> \<open>\<open>(?i)\<close>: the simple case foldings of a set of ASCII characters, with U+017F for S and U+212A for K\<close>
  "folded S r \<longleftrightarrow> r \<in> S \<or> lower_letter r \<and> r - 32 \<in> S \<or> r = 0x17F \<and> 0x53 \<in> S \<or> r = 0x212A \<and> 0x4B \<in> S"

definition upper_set :: "nat set" where "upper_set = {0x41..0x5A}"
definition digit_set :: "nat set" where "digit_set = {0x30..0x39}"

definition lit :: "char \<Rightarrow> regex" where
  "lit c = Class (folded {of_char c})"

definition orderRegex :: regex where
  \<comment> \<open>\<open>(?i)6ES7[0-9A-Z\-\/]{4,}\<close>\<close>
  "orderRegex =
     Cat (lit CHR ''6'') (Cat (lit CHR ''E'') (Cat (lit CHR ''S'') (Cat (lit CHR ''7'')
       (Rep 4 None (Class (folded (digit_set \<union> upper_set \<union> {0x2D, 0x2F})))))))"

definition firmwareRegex :: regex where
  \<comment> \<open>\<open>(?i)V\s*\d+(?:\.\d+){1,3}\<close>\<close>
  "firmwareRegex =
     (let space = Class (\<lambda>r. r \<in> {9, 10, 12, 13, 32}); digits = Rep 1 None (Class digit)
      in Cat (lit CHR ''V'') (Cat (Rep 0 None space) (Cat digits
           (Rep 1 (Some 3) (Cat (Class (\<lambda>r. r = 0x2E)) digits)))))"

definition serialRegex :: regex where
  \<comment> \<open>\<open>(?i)[A-Z0-9]{8,24}\<close>\<close>
  "serialRegex = Rep 8 (Some 24) (Class (folded (upper_set \<union> digit_set)))"

section \<open>The search\<close>

definition normalizeToken :: "gotext \<Rightarrow> gotext" where
  "normalizeToken s =
     single_spaces (trim_both (\<lambda>r. r \<in> {0x22, 0x27, 0x5B, 0x5D, 0x28, 0x29, 0x7B, 0x7D, 0x3B, 0x2C})
       (trim_both IsSpace s))"

definition isLikelySerial :: "unicode_lib \<Rightarrow> gotext \<Rightarrow> bool" where
  "isLikelySerial U s \<longleftrightarrow>
     \<not> (length (text_bytes s) < 8 \<or> 24 < length (text_bytes s)) \<and>
     list_ex (IsLetter U \<circ> fst) s \<and> list_ex (IsDigit U \<circ> fst) s"

definition extractPrintableTokens :: "unicode_lib \<Rightarrow> bytes \<Rightarrow> gotext list" where
  "extractPrintableTokens U raw =
     filter (\<lambda>p. 4 \<le> length (text_bytes p))
       (map (normalizeToken \<circ> trim_both IsSpace) (fields_func (\<lambda>r. r = 0 \<or> \<not> IsPrint U r) (runes raw) []))"

fun join_spaces :: "gotext list \<Rightarrow> gotext" where
  "join_spaces [] = []"
| "join_spaces [t] = t"
| "join_spaces (t # ts) = t @ (0x20, [0x20]) # join_spaces ts"

definition find_joined :: "gotext \<Rightarrow> DeviceInfo \<Rightarrow> DeviceInfo" where
  \<comment> \<open>the searches in the joined text before the loop\<close>
  "find_joined joined info =
     (let info = (case FindString orderRegex joined of
                    Some m \<Rightarrow> if diOrderNumber info = [] then info\<lparr>diOrderNumber := text_bytes (normalizeToken m)\<rparr> else info
                  | None \<Rightarrow> info)
      in case FindString firmwareRegex joined of
           Some m \<Rightarrow> if diFWVersion info = [] then info\<lparr>diFWVersion := text_bytes (normalizeToken m)\<rparr> else info
         | None \<Rightarrow> info)"

definition find_token :: "unicode_lib \<Rightarrow> gotext \<Rightarrow> DeviceInfo \<Rightarrow> DeviceInfo" where
  \<comment> \<open>the body of the loop over the tokens\<close>
  "find_token U tok info =
     (let tok = normalizeToken tok;
          u = ToUpper U tok;
          info = (if diOrderNumber info = [] \<and> has_text (ascii ''6ES7'') u
                  then info\<lparr>diOrderNumber := text_bytes tok\<rparr> else info);
          info = (if diCPUType info = [] \<and> (has_text (ascii ''CPU'') u \<or> has_text (ascii ''S7-'') u)
                  then info\<lparr>diCPUType := text_bytes tok\<rparr> else info);
          info = (if diFWVersion info = [] \<and> has_text (ascii ''V'') u \<and> list_ex (IsDigit U \<circ> fst) u
                  then info\<lparr>diFWVersion := text_bytes tok\<rparr> else info)
      in if diSerialNumber info = [] \<and> isLikelySerial U u
         then info\<lparr>diSerialNumber := text_bytes tok\<rparr> else info)"

definition find_serial :: "unicode_lib \<Rightarrow> gotext \<Rightarrow> DeviceInfo \<Rightarrow> DeviceInfo" where
  \<comment> \<open>the search after the loop\<close>
  "find_serial U joined info =
     (if diSerialNumber info = [] then
        case find (\<lambda>m. isLikelySerial U (ToUpper U m) \<and> \<not> has_text (ascii ''6ES7'') (ToUpper U m))
               (FindAllString serialRegex joined) of
          Some m \<Rightarrow> info\<lparr>diSerialNumber := text_bytes (normalizeToken m)\<rparr>
        | None \<Rightarrow> info
      else info)"

definition populateInfoFromRaw :: "unicode_lib \<Rightarrow> DeviceInfo \<Rightarrow> bytes \<Rightarrow> DeviceInfo" where
  "populateInfoFromRaw U info raw =
     (let tokens = extractPrintableTokens U raw; joined = join_spaces tokens
      in find_serial U joined (fold (find_token U) tokens (find_joined joined info)))"

section \<open>The example of the unit test\<close>

definition ex_unicode :: unicode_lib where
  \<comment> \<open>nothing beyond ASCII is printable, except U+FFFD\<close>
  "ex_unicode =
     \<lparr>uPrint = (\<lambda>r. r = RuneError), uLetter = (\<lambda>_. False), uDigit = (\<lambda>_. False),
      uUpper = (\<lambda>r. if r = 0x17F then 0x53 else r)\<rparr>"

definition to_bytes :: "string \<Rightarrow> bytes" where
  "to_bytes s = map of_char s"

section \<open>Texts and their parts\<close>

text \<open>Decoding loses nothing: the bytes of the runes are the bytes of the text.\<close>

lemma text_bytes_runes: "text_bytes (runes bs) = bs"
  by (induction bs rule: runes.induct) (auto simp: text_bytes_def split: prod.split)

lemma set_trim_both: "set (trim_both p cs) \<subseteq> set cs"
  by (auto simp: trim_both_def dest!: set_dropWhileD)

lemma in_dropWhile: "c \<in> set cs \<Longrightarrow> \<not> q c \<Longrightarrow> c \<in> set (dropWhile q cs)"
  by (induction cs) auto

lemma trim_both_keeps: "c \<in> set cs \<Longrightarrow> \<not> p (fst c) \<Longrightarrow> c \<in> set (trim_both p cs)"
  unfolding trim_both_def by (simp add: in_dropWhile)

lemma trim_both_id: "list_all (\<lambda>c. \<not> p (fst c)) cs \<Longrightarrow> trim_both p cs = cs"
proof -
  have keep: "dropWhile (p \<circ> fst) xs = xs" if "list_all (\<lambda>c. \<not> p (fst c)) xs" for xs :: gotext
    using that by (cases xs) auto
  show "list_all (\<lambda>c. \<not> p (fst c)) cs \<Longrightarrow> trim_both p cs = cs"
    using keep [of cs] keep [of "rev cs"] unfolding trim_both_def by simp
qed

lemma set_single_spaces: "set (single_spaces cs) \<subseteq> set cs"
  by (induction cs rule: single_spaces.induct) auto

lemma single_spaces_keeps: "c \<in> set cs \<Longrightarrow> fst c \<noteq> 0x20 \<Longrightarrow> c \<in> set (single_spaces cs)"
  by (induction cs rule: single_spaces.induct) auto

lemma single_spaces_id: "list_all (\<lambda>c. fst c \<noteq> 0x20) cs \<Longrightarrow> single_spaces cs = cs"
  by (induction cs rule: single_spaces.induct) auto

lemma set_normalizeToken: "set (normalizeToken cs) \<subseteq> set cs"
  unfolding normalizeToken_def using set_single_spaces set_trim_both by blast

definition plain :: "nat \<Rightarrow> bool" where
  \<comment> \<open>a rune that \<open>normalizeToken\<close> never drops\<close>
  "plain r \<longleftrightarrow> \<not> IsSpace r \<and> r \<notin> {0x22, 0x27, 0x5B, 0x5D, 0x28, 0x29, 0x7B, 0x7D, 0x3B, 0x2C}"

lemma plain_not_space: "plain r \<Longrightarrow> r \<noteq> 0x20"
  by (auto simp: plain_def IsSpace_def)

lemma normalizeToken_keeps: "c \<in> set cs \<Longrightarrow> plain (fst c) \<Longrightarrow> c \<in> set (normalizeToken cs)"
  unfolding normalizeToken_def
  by (intro single_spaces_keeps trim_both_keeps) (auto simp: plain_not_space, auto simp: plain_def)

lemma normalizeToken_id:
  assumes "list_all (\<lambda>c. plain (fst c)) cs"
  shows "normalizeToken cs = cs"
proof -
  have "list_all (\<lambda>c. \<not> IsSpace (fst c)) cs" "list_all (\<lambda>c. fst c \<noteq> 0x20) cs"
    "list_all (\<lambda>c. fst c \<notin> {0x22, 0x27, 0x5B, 0x5D, 0x28, 0x29, 0x7B, 0x7D, 0x3B, 0x2C}) cs"
    using assms plain_not_space by (auto simp: list_all_iff plain_def)
  then show ?thesis by (simp add: normalizeToken_def trim_both_id single_spaces_id)
qed

lemma set_fields_func: "f \<in> set (fields_func p cs cur) \<Longrightarrow> set f \<subseteq> set cs \<union> set cur"
  by (induction p cs cur rule: fields_func.induct) (fastforce split: if_splits)+

lemma set_tokens: "t \<in> set (extractPrintableTokens U raw) \<Longrightarrow> set t \<subseteq> set (runes raw)"
  unfolding extractPrintableTokens_def
  using set_fields_func set_normalizeToken set_trim_both by fastforce

lemma set_join_spaces: "set (join_spaces ts) \<subseteq> insert (0x20, [0x20]) (\<Union>t\<in>set ts. set t)"
  by (induction ts rule: join_spaces.induct) auto

lemma has_text_appears: "has_text [r] cs \<longleftrightarrow> r \<in> fst ` set cs"
  by (induction cs) auto

lemma has_text_prefix: "take (length pat) (map fst cs) = pat \<Longrightarrow> pat \<noteq> [] \<Longrightarrow> has_text pat cs"
  by (cases cs) auto

section \<open>What a match is\<close>

primrec spells :: "regex \<Rightarrow> gotext \<Rightarrow> bool" where
  \<comment> \<open>the specification: the texts of an expression\<close>
  "spells (Class p) m \<longleftrightarrow> (\<exists>c. m = [c] \<and> p (fst c))"
| "spells (Cat a b) m \<longleftrightarrow> (\<exists>x y. m = x @ y \<and> spells a x \<and> spells b y)"
| "spells (Rep lo hi a) m \<longleftrightarrow>
     (\<exists>ms. m = concat ms \<and> lo \<le> length ms \<and> (\<forall>h. hi = Some h \<longrightarrow> length ms \<le> h) \<and> (\<forall>x\<in>set ms. spells a x))"

lemma repeats_sound:
  assumes "\<And>cs rest. rest \<in> set (f cs) \<Longrightarrow> \<exists>m. cs = m @ rest \<and> P m"
  shows "rest \<in> set (repeats f lo hi cs) \<Longrightarrow>
    \<exists>ms. cs = concat ms @ rest \<and> lo \<le> length ms \<and> length ms \<le> hi \<and> (\<forall>x\<in>set ms. P x)"
proof (induction hi arbitrary: lo cs)
  case 0
  then show ?case by (auto split: if_splits)
next
  case (Suc hi)
  show ?case
  proof (cases "rest \<in> set (concat (map (repeats f (lo - 1) hi) (f cs)))")
    case True
    then obtain cs' where cs': "cs' \<in> set (f cs)" "rest \<in> set (repeats f (lo - 1) hi cs')" by auto
    obtain m where "cs = m @ cs'" "P m" using assms [OF cs'(1)] by blast
    moreover obtain ms where "cs' = concat ms @ rest" "lo - 1 \<le> length ms" "length ms \<le> hi" "\<forall>x\<in>set ms. P x"
      using Suc.IH [OF cs'(2)] by blast
    ultimately show ?thesis by (intro exI [of _ "m # ms"]) auto
  next
    case False
    then show ?thesis using Suc.prems by (intro exI [of _ "[]"]) (auto split: if_splits)
  qed
qed

lemma rests_sound: "rest \<in> set (rests re cs) \<Longrightarrow> \<exists>m. cs = m @ rest \<and> spells re m"
proof (induction re arbitrary: cs rest)
  case (Class p)
  then show ?case by (cases cs) (auto split: if_splits)
next
  case (Cat a b)
  then obtain mid where mid: "mid \<in> set (rests a cs)" "rest \<in> set (rests b mid)" by auto
  show ?case using Cat.IH(1) [OF mid(1)] Cat.IH(2) [OF mid(2)] by fastforce
next
  case (Rep lo hi a)
  from Rep.prems obtain n where "rest \<in> set (repeats (rests a) lo n cs)" "\<And>h. hi = Some h \<Longrightarrow> n = h"
    by auto
  from repeats_sound [where P = "spells a", OF Rep.IH this(1)] this(2) show ?case by auto
qed

lemma rests_take:
  assumes "rests re cs = rest # others"
  shows "spells re (take (length cs - length rest) cs)"
  using rests_sound [of rest re cs] assms by auto

lemma FindString_match: "FindString re cs = Some m \<Longrightarrow> spells re m \<and> set m \<subseteq> set cs"
proof (induction cs)
  case (Cons c cs)
  show ?case
  proof (cases "rests re (c # cs)")
    case Nil
    then show ?thesis using Cons by auto
  next
    case (Cons rest others)
    then show ?thesis using Cons.prems rests_take [OF Cons] set_take_subset [of _ "c # cs"] by auto
  qed
qed simp

lemma FindAllString_match: "m \<in> set (FindAllString re cs) \<Longrightarrow> spells re m \<and> set m \<subseteq> set cs"
proof (induction re cs rule: FindAllString.induct)
  case (2 re c cs)
  show ?case
  proof (cases "rests re (c # cs)")
    case Nil
    then show ?thesis using 2 by auto
  next
    case (Cons rest others)
    obtain m' where m': "c # cs = m' @ rest" using rests_sound [of rest re "c # cs"] Cons by auto
    then have "set rest \<subseteq> set (c # cs)" by (metis Un_upper2 set_append)
    then show ?thesis
      using 2 Cons rests_take [OF Cons] set_take_subset [of "length (c # cs) - length rest" "c # cs"]
      by (auto split: if_splits)
  qed
qed simp

section \<open>What the search finds\<close>

definition found :: "(gotext \<Rightarrow> bool) \<Rightarrow> gochar set \<Rightarrow> bytes \<Rightarrow> bytes \<Rightarrow> bool" where
  \<comment> \<open>the field kept its value, or it was empty and has got a text of the runes \<open>A\<close> with \<open>P\<close>\<close>
  "found P A old new \<longleftrightarrow> new = old \<or> old = [] \<and> (\<exists>cs. new = text_bytes cs \<and> P cs \<and> set cs \<subseteq> A)"

definition fills :: "unicode_lib \<Rightarrow> gochar set \<Rightarrow> DeviceInfo \<Rightarrow> DeviceInfo \<Rightarrow> bool" where
  "fills U A i j \<longleftrightarrow>
     j = i\<lparr>diOrderNumber := diOrderNumber j, diCPUType := diCPUType j, diFWVersion := diFWVersion j,
           diSerialNumber := diSerialNumber j\<rparr> \<and>
     found (\<lambda>cs. has_text (ascii ''6ES7'') (ToUpper U cs)) A (diOrderNumber i) (diOrderNumber j) \<and>
     found (\<lambda>cs. has_text (ascii ''CPU'') (ToUpper U cs) \<or> has_text (ascii ''S7-'') (ToUpper U cs)) A (diCPUType i) (diCPUType j) \<and>
     found (\<lambda>cs. has_text (ascii ''V'') (ToUpper U cs) \<and> list_ex (IsDigit U \<circ> fst) (ToUpper U cs)) A (diFWVersion i) (diFWVersion j) \<and>
     found (\<lambda>cs. isLikelySerial U (ToUpper U cs)) A (diSerialNumber i) (diSerialNumber j)"

lemma found_trans: "found P A a b \<Longrightarrow> found P A b c \<Longrightarrow> found P A a c"
  by (auto simp: found_def)

lemma fills_refl: "fills U A i i"
  by (simp add: fills_def found_def)

lemma fills_trans: "fills U A i j \<Longrightarrow> fills U A j k \<Longrightarrow> fills U A i k"
  by (cases i; cases j; cases k) (auto simp: fills_def intro: found_trans)

lemma find_token_fills:
  assumes "set tok \<subseteq> A"
  shows "fills U A i (find_token U tok i)"
proof -
  have "set (normalizeToken tok) \<subseteq> A" using assms set_normalizeToken by blast
  then show ?thesis unfolding find_token_def Let_def fills_def found_def by auto
qed

lemma fold_fills: "(\<And>t. t \<in> set ts \<Longrightarrow> set t \<subseteq> A) \<Longrightarrow> fills U A i (fold (find_token U) ts i)"
proof (induction ts arbitrary: i)
  case (Cons t ts)
  show ?case using fills_trans [OF find_token_fills Cons.IH] Cons.prems by simp
qed (simp add: fills_refl)

lemma folded_plain: "folded (digit_set \<union> upper_set \<union> {0x2D, 0x2F}) r \<Longrightarrow> plain r"
  by (auto simp: folded_def digit_set_def upper_set_def lower_letter_def plain_def IsSpace_def)

lemma serial_plain:
  assumes "spells serialRegex m"
  shows "list_all (\<lambda>c. plain (fst c)) m"
proof -
  obtain ms where ms: "m = concat ms" "\<forall>x\<in>set ms. \<exists>c. x = [c] \<and> folded (upper_set \<union> digit_set) (fst c)"
    using assms by (auto simp: serialRegex_def)
  have "folded (upper_set \<union> digit_set) r \<Longrightarrow> plain r" for r
    using folded_plain [of r] by (auto simp: folded_def)
  then show ?thesis unfolding ms(1) list_all_iff using ms(2) by fastforce
qed

lemma lit_upper:
  assumes "spells (lit c) m" "upper_letter (of_char c) \<or> digit (of_char c)" "uUpper U 0x17F = 0x53"
    and "of_char c \<noteq> (0x4B :: nat)"
  obtains x where "m = [x]" "ToUpper_rune U (fst x) = of_char c" "plain (fst x)"
proof -
  obtain x where x: "m = [x]" "folded {of_char c} (fst x)" using assms(1) by (auto simp: lit_def)
  have "ToUpper_rune U (fst x) = of_char c \<and> plain (fst x)"
    using x(2) assms(2-4)
    by (auto simp: folded_def ToUpper_rune_def lower_letter_def upper_letter_def digit_def plain_def IsSpace_def)
  then show ?thesis using that x(1) by blast
qed

lemma order_upper:
  assumes "spells orderRegex m" "uUpper U 0x17F = 0x53"
  shows "has_text (ascii ''6ES7'') (ToUpper U (normalizeToken m))"
proof -
  obtain a b c d r where m: "m = a @ b @ c @ d @ r" "spells (lit CHR ''6'') a" "spells (lit CHR ''E'') b"
    "spells (lit CHR ''S'') c" "spells (lit CHR ''7'') d"
    "spells (Rep 4 None (Class (folded (digit_set \<union> upper_set \<union> {0x2D, 0x2F})))) r"
    using assms(1) unfolding orderRegex_def spells.simps by blast
  obtain a' where a: "a = [a']" "ToUpper_rune U (fst a') = of_char CHR ''6''" "plain (fst a')"
    by (rule lit_upper [OF m(2) _ assms(2)]) (simp_all add: upper_letter_def digit_def)
  obtain b' where b: "b = [b']" "ToUpper_rune U (fst b') = of_char CHR ''E''" "plain (fst b')"
    by (rule lit_upper [OF m(3) _ assms(2)]) (simp_all add: upper_letter_def digit_def)
  obtain c' where c: "c = [c']" "ToUpper_rune U (fst c') = of_char CHR ''S''" "plain (fst c')"
    by (rule lit_upper [OF m(4) _ assms(2)]) (simp_all add: upper_letter_def digit_def)
  obtain d' where d: "d = [d']" "ToUpper_rune U (fst d') = of_char CHR ''7''" "plain (fst d')"
    by (rule lit_upper [OF m(5) _ assms(2)]) (simp_all add: upper_letter_def digit_def)
  obtain ms where "r = concat ms" "\<forall>x\<in>set ms. \<exists>c. x = [c] \<and> folded (digit_set \<union> upper_set \<union> {0x2D, 0x2F}) (fst c)"
    using m(6) unfolding spells.simps by blast
  then have "list_all (\<lambda>c. plain (fst c)) r" using folded_plain by (fastforce simp: list_all_iff)
  then have "normalizeToken m = m" using m(1) a b c d by (intro normalizeToken_id) simp
  then show ?thesis
    using m(1) a b c d by (intro has_text_prefix) (simp_all add: ascii_def ToUpper_def split_def Let_def)
qed

lemma firmware_upper:
  assumes "spells firmwareRegex m"
  shows "has_text (ascii ''V'') (ToUpper U (normalizeToken m)) \<and>
    list_ex (IsDigit U \<circ> fst) (ToUpper U (normalizeToken m))"
proof -
  obtain v s d r where m: "m = v @ s @ d @ r" "spells (lit CHR ''V'') v" "spells (Rep 1 None (Class digit)) d"
    using assms unfolding firmwareRegex_def Let_def spells.simps(2) by blast
  obtain x where x: "v = [x]" "folded {of_char CHR ''V''} (fst x)" using m(2) by (auto simp: lit_def)
  have "fst x = 0x56 \<or> fst x = 0x76" using x(2) by (auto simp: folded_def lower_letter_def)
  then have V: "ToUpper_rune U (fst x) = 0x56" "plain (fst x)"
    by (auto simp: ToUpper_rune_def lower_letter_def plain_def IsSpace_def)
  obtain y ds where y: "d = y # ds" "digit (fst y)"
    using m(3) by (fastforce simp: Suc_le_length_iff)
  then have D: "IsDigit U (ToUpper_rune U (fst y))" "plain (fst y)"
    by (auto simp: IsDigit_def ToUpper_rune_def digit_def lower_letter_def plain_def IsSpace_def)
  have "x \<in> set (normalizeToken m)" "y \<in> set (normalizeToken m)"
    using m(1) x(1) y(1) V(2) D(2) by (auto intro: normalizeToken_keeps)
  then show ?thesis
    using V(1) D(1) by (force simp: ascii_def has_text_appears list_ex_iff ToUpper_def split_def Let_def image_iff)
qed

lemma find_joined_fills:
  assumes "set joined \<subseteq> A" "uUpper U 0x17F = 0x53"
  shows "fills U A i (find_joined joined i)"
proof -
  have sub: "set (normalizeToken m) \<subseteq> A" if "FindString re joined = Some m" for re m
    using FindString_match [OF that] assms(1) set_normalizeToken by blast
  have "has_text (ascii ''6ES7'') (ToUpper U (normalizeToken m))" if "FindString orderRegex joined = Some m" for m
    using FindString_match [OF that] order_upper assms(2) by blast
  moreover have "has_text (ascii ''V'') (ToUpper U (normalizeToken m)) \<and>
      list_ex (IsDigit U \<circ> fst) (ToUpper U (normalizeToken m))" if "FindString firmwareRegex joined = Some m" for m
    using FindString_match [OF that] firmware_upper by blast
  ultimately show ?thesis
    using sub unfolding find_joined_def Let_def fills_def found_def by (auto split: option.split) blast+
qed

lemma find_serial_fills:
  assumes "set joined \<subseteq> A"
  shows "fills U A i (find_serial U joined i)"
proof -
  have "normalizeToken m = m \<and> isLikelySerial U (ToUpper U m) \<and> set m \<subseteq> A"
    if "find (\<lambda>m. isLikelySerial U (ToUpper U m) \<and> \<not> has_text (ascii ''6ES7'') (ToUpper U m))
          (FindAllString serialRegex joined) = Some m" for m
  proof -
    have m: "m \<in> set (FindAllString serialRegex joined)" "isLikelySerial U (ToUpper U m)"
      using that by (auto simp: find_Some_iff)
    show ?thesis
      using FindAllString_match [OF m(1)] normalizeToken_id [OF serial_plain] m(2) assms by blast
  qed
  then show ?thesis
    unfolding find_serial_def fills_def found_def by (auto split: option.split)
qed

lemma populate_fills:
  assumes "uUpper U 0x17F = 0x53"
  shows "fills U (insert (0x20, [0x20]) (set (runes raw))) i (populateInfoFromRaw U i raw)"
proof -
  let ?A = "insert (0x20, [0x20]) (set (runes raw))" and ?ts = "extractPrintableTokens U raw"
  have ts: "t \<in> set ?ts \<Longrightarrow> set t \<subseteq> ?A" for t using set_tokens by blast
  have joined: "set (join_spaces ?ts) \<subseteq> ?A" using set_join_spaces [of ?ts] ts by blast
  from fills_trans [OF fills_trans [OF find_joined_fills [OF joined assms] fold_fills [OF ts]] find_serial_fills [OF joined]]
  show ?thesis by (simp add: populateInfoFromRaw_def Let_def)
qed

lemma populate_keeps_order:
  assumes "diOrderNumber i \<noteq> []"
  shows "diOrderNumber (populateInfoFromRaw U i raw) = diOrderNumber i"
proof -
  have tokens: "diOrderNumber (fold (find_token U) ts j) = diOrderNumber j" if "diOrderNumber j \<noteq> []" for ts j
    using that
  proof (induction ts arbitrary: j)
    case (Cons t ts)
    have "diOrderNumber (find_token U t j) = diOrderNumber j" using Cons.prems by (simp add: find_token_def Let_def)
    then show ?case using Cons by simp
  qed simp
  have joined: "diOrderNumber (find_joined cs i) = diOrderNumber i" for cs
    using assms by (auto simp: find_joined_def Let_def split: option.split)
  have "diOrderNumber (find_serial U cs j) = diOrderNumber j" for cs j
    by (simp add: find_serial_def split: option.split)
  then show ?thesis
    using joined tokens assms by (simp add: populateInfoFromRaw_def Let_def)
qed

section \<open>A payload that is one token\<close>

definition token_byte :: "byte \<Rightarrow> bool" where
  \<comment> \<open>a printable ASCII character that no normalisation drops\<close>
  "token_byte b \<longleftrightarrow> unat b < 0x7F \<and> 0x20 \<le> unat b \<and> plain (unat b)"

definition byte_text :: "bytes \<Rightarrow> gotext" where
  "byte_text bs = map (\<lambda>b. (unat b, [b])) bs"

lemma runes_ascii: "list_all (\<lambda>b. unat b < 0x80) bs \<Longrightarrow> runes bs = byte_text bs"
  by (induction bs) (auto simp: byte_text_def first_rune_def Let_def)

lemma text_bytes_byte_text: "text_bytes (byte_text bs) = bs"
  by (induction bs) (auto simp: text_bytes_def byte_text_def)

lemma fields_func_none: "list_all (\<lambda>c. \<not> p (fst c)) cs \<Longrightarrow> cs \<noteq> [] \<Longrightarrow> fields_func p cs [] = [cs]"
proof -
  have "list_all (\<lambda>c. \<not> p (fst c)) cs \<Longrightarrow> fields_func p cs cur = (if cur @ cs = [] then [] else [cur @ cs])" for cur
    by (induction cs arbitrary: cur) auto
  then show "list_all (\<lambda>c. \<not> p (fst c)) cs \<Longrightarrow> cs \<noteq> [] \<Longrightarrow> fields_func p cs [] = [cs]" by simp
qed

lemma tokens_single:
  assumes "list_all token_byte bs" "4 \<le> length bs"
  shows "extractPrintableTokens U bs = [byte_text bs]" "normalizeToken (byte_text bs) = byte_text bs"
proof -
  have ascii: "list_all (\<lambda>b. unat b < 0x80) bs" and plain: "list_all (\<lambda>c. plain (fst c)) (byte_text bs)"
    using assms(1) by (auto simp: list_all_iff token_byte_def byte_text_def)
  have "list_all (\<lambda>c. \<not> (fst c = 0 \<or> \<not> IsPrint U (fst c))) (byte_text bs)"
    using assms(1) by (auto simp: list_all_iff token_byte_def byte_text_def IsPrint_def)
  moreover have "byte_text bs \<noteq> []" using assms(2) by (auto simp: byte_text_def)
  ultimately have "fields_func (\<lambda>r. r = 0 \<or> \<not> IsPrint U r) (byte_text bs) [] = [byte_text bs]"
    by (rule fields_func_none)
  moreover have "trim_both IsSpace (byte_text bs) = byte_text bs"
    using plain by (intro trim_both_id) (auto simp: list_all_iff plain_def)
  ultimately show "extractPrintableTokens U bs = [byte_text bs]" "normalizeToken (byte_text bs) = byte_text bs"
    using assms(2) normalizeToken_id [OF plain]
    by (simp_all add: extractPrintableTokens_def runes_ascii [OF ascii] text_bytes_byte_text)
qed

lemma upper_ascii:
  assumes "r < 0x80"
  shows "length (EncodeRune (ToUpper_rune U r)) = 1" "IsLetter U (ToUpper_rune U r) \<longleftrightarrow> IsLetter U r"
    "IsDigit U (ToUpper_rune U r) \<longleftrightarrow> IsDigit U r"
proof -
  have "ToUpper_rune U r < 0x80" using assms by (auto simp: ToUpper_rune_def)
  then show "length (EncodeRune (ToUpper_rune U r)) = 1" by (simp add: EncodeRune_def Let_def)
  show "IsLetter U (ToUpper_rune U r) \<longleftrightarrow> IsLetter U r" "IsDigit U (ToUpper_rune U r) \<longleftrightarrow> IsDigit U r"
    using assms by (auto simp: ToUpper_rune_def IsLetter_def IsDigit_def upper_letter_def lower_letter_def digit_def)
qed

lemma single_token_serial:
  assumes "list_all token_byte bs" "8 \<le> length bs" "length bs \<le> 24" "diSerialNumber i = []"
    and "list_ex (\<lambda>b. upper_letter (unat b) \<or> lower_letter (unat b)) bs" "list_ex (\<lambda>b. digit (unat b)) bs"
  shows "diSerialNumber (populateInfoFromRaw U i bs) = bs"
proof -
  have ascii: "b \<in> set bs \<Longrightarrow> unat b < 0x80" for b using assms(1) by (auto simp: list_all_iff token_byte_def)
  have "length (text_bytes (ToUpper U (byte_text bs))) = length bs"
    using ascii upper_ascii(1)
    by (induction bs) (auto simp: text_bytes_def ToUpper_def byte_text_def Let_def)
  moreover obtain b where b: "b \<in> set bs" "IsLetter U (ToUpper_rune U (unat b))"
    using assms(5) ascii upper_ascii(2) by (auto simp: list_ex_iff IsLetter_def)
  moreover obtain d where d: "d \<in> set bs" "IsDigit U (ToUpper_rune U (unat d))"
    using assms(6) ascii upper_ascii(3) by (auto simp: list_ex_iff IsDigit_def)
  have "(ToUpper_rune U (unat x), EncodeRune (ToUpper_rune U (unat x))) \<in> set (ToUpper U (byte_text bs))"
    if "x \<in> set bs" for x
    using that by (force simp: ToUpper_def byte_text_def Let_def)
  from this [OF b(1)] this [OF d(1)] b(2) d(2)
  have "list_ex (IsLetter U \<circ> fst) (ToUpper U (byte_text bs))" "list_ex (IsDigit U \<circ> fst) (ToUpper U (byte_text bs))"
    by (force simp: list_ex_iff)+
  ultimately have "isLikelySerial U (ToUpper U (byte_text bs))" using assms(2,3) by (simp add: isLikelySerial_def)
  moreover have "diSerialNumber (find_joined joined i) = []" for joined
    using assms(4) by (auto simp: find_joined_def Let_def split: option.split)
  ultimately have "diSerialNumber (find_token U (byte_text bs) (find_joined (byte_text bs) i)) = bs"
    using tokens_single [OF assms(1)] assms(2) by (simp add: find_token_def Let_def text_bytes_byte_text)
  moreover have "bs \<noteq> []" using assms(2) by auto
  ultimately show ?thesis
    using tokens_single [OF assms(1)] assms(2) by (simp add: populateInfoFromRaw_def find_serial_def Let_def)
qed

end
