(* ===== verification/Szl_Ops.thy ===== *)
theory Szl_Ops
  imports Target Wire_SZL Szl_Text
begin

text \<open>
  The system status list operations of the client (\<open>client/szl.go\<close>): identification, CPU
  state, protection level and the diagnostic buffer.

  \<open>Identify\<close> returns a value and an error at the same time; the model returns both as
  options.  Its heuristic search of the raw text is \<open>populateInfoFromRaw\<close> of \<open>Szl_Text\<close>, whose
  Unicode tables \<open>U\<close> it passes on.  A Go slice
  expression is checked against the capacity, not the length.  \<open>Identify\<close> slices up to byte 22 of
  a payload of which only 20 bytes are checked, so \<open>szl_read\<close> returns the payload together with the
  bytes that follow it in the receive buffer: those that \<open>ParseSZLResponse\<close> left over, and
  \<open>env_room\<close>.  All other slices of the program are inside the length.
\<close>

section \<open>Operations\<close>

definition szl_read :: "env \<Rightarrow> ctx \<Rightarrow> uint16 \<Rightarrow> uint16 \<Rightarrow> (client, bytes \<times> bytes) io" where
  \<comment> \<open>the common body: draw a reference, send the request, parse the response; the result is the
     slice \<open>resp.Data\<close>, that is \<open>data[8:end]\<close>, and what lies behind it\<close>
  "szl_read E cx szlID szlIndex =
     io_bind nextPDURef (\<lambda>ref.
     io_bind (sendReceive E cx (EncodeSZLRequest ref szlID szlIndex) ref) (\<lambda>(_, data).
     io_bind (io_pure (ParseSZLResponse data)) (\<lambda>resp.
     io_get (\<lambda>s. (szData resp, drop (8 + length (szData resp)) data @ env_room E (w_trace s))))))"

definition szl_exchange :: "env \<Rightarrow> ctx \<Rightarrow> uint16 \<Rightarrow> uint16 \<Rightarrow> (client, bytes) io" where
  \<comment> \<open>the same for the callers that stay inside the payload\<close>
  "szl_exchange E cx szlID szlIndex = io_bind (szl_read E cx szlID szlIndex) (\<lambda>(raw, behind). io_ret raw)"

definition readModuleIDSZL :: "env \<Rightarrow> ctx \<Rightarrow> (client, bytes \<times> bytes) io" where
  "readModuleIDSZL E cx = szl_read E cx SZLModuleID 0"

definition readComponentIDSZL :: "env \<Rightarrow> ctx \<Rightarrow> (client, bytes \<times> bytes) io" where
  "readComponentIDSZL E cx = szl_read E cx SZLComponentID 0"

fun trim_end :: "bytes \<Rightarrow> nat \<Rightarrow> nat" where
  "trim_end data 0 = 0"
| "trim_end data (Suc n) = (if data ! n = 0 \<or> data ! n = 0x20 then trim_end data n else Suc n)"

definition trimString :: "bytes \<Rightarrow> bytes" where
  "trimString data = take (trim_end data (length data)) data"

definition zero_DeviceInfo :: DeviceInfo where
  "zero_DeviceInfo =
     \<lparr>diOrderNumber = [], diSerialNumber = [], diModuleName = [], diPlantID = [], diCopyright = [],
      diModuleType = [], diFWVersion = [], diHWVersion = [], diCPUType = [], diCPUFamily = []\<rparr>"

definition use_module ::
    "unicode_lib \<Rightarrow> goerr + bytes \<times> bytes \<Rightarrow> DeviceInfo \<Rightarrow> goerr list \<Rightarrow>
     (goerr + DeviceInfo \<times> goerr list) option" where
  "use_module U r info errs =
     (case r of
        Inl err \<Rightarrow> Some (Inr (info, errs @ [err]))
      | Inr (raw, behind) \<Rightarrow>
          if length raw \<ge> 20 then do {
            s \<leftarrow> reslice raw behind 2 22;
            Some (Inr (populateInfoFromRaw U (info\<lparr>diOrderNumber := trimString s\<rparr>) raw, errs)) }
          else if length raw > 0 then
            Some (Inr (info, errs @ [ErrorText (''module ID SZL payload too short: got '' @
                                                fmt_d (int (length raw)))]))
          else Some (Inr (info, errs)))"

definition use_component ::
    "unicode_lib \<Rightarrow> goerr + bytes \<times> bytes \<Rightarrow> DeviceInfo \<Rightarrow> goerr list \<Rightarrow>
     (goerr + DeviceInfo \<times> goerr list) option" where
  "use_component U r info errs =
     (case r of
        Inl err \<Rightarrow> Some (Inr (info, errs @ [err]))
      | Inr (raw, behind) \<Rightarrow>
          if length raw \<ge> 34 then do {
            a \<leftarrow> reslice raw behind 2 26;
            b \<leftarrow> reslice raw behind 26 34;
            Some (Inr (populateInfoFromRaw U (info\<lparr>diModuleName := trimString a, diPlantID := trimString b\<rparr>) raw, errs)) }
          else if length raw > 0 then
            Some (Inr (info, errs @ [ErrorText (''component ID SZL payload too short: got '' @
                                                fmt_d (int (length raw)))]))
          else Some (Inr (info, errs)))"

definition identify_result :: "DeviceInfo \<Rightarrow> goerr list \<Rightarrow> DeviceInfo option \<times> goerr option" where
  "identify_result info errs =
     (if length errs = 2 then (None, Some (Joined errs))
      else if length errs = 1 then (Some info, Some (errs ! 0))
      else (Some info, None))"

definition Identify ::
    "unicode_lib \<Rightarrow> env \<Rightarrow> ctx \<Rightarrow>
     (client, DeviceInfo option \<times> goerr option) io" where
  "Identify U E cx =
     io_case (readModuleIDSZL E cx) (\<lambda>rm.
     io_bind (io_pure (use_module U rm zero_DeviceInfo [])) (\<lambda>(info, errs).
     io_case (readComponentIDSZL E cx) (\<lambda>rc'.
     io_bind (io_pure (use_component U rc' info errs)) (\<lambda>(info, errs).
     io_ret (identify_result info errs)))))"

definition cpu_state_of :: "bytes \<Rightarrow> CPUState option" where
  "cpu_state_of d =
     (if length d \<ge> 4 then do {
        state \<leftarrow> idx d 2;
        Some (if state = 0x08 then CPUStateRun
              else if state = 0x04 then CPUStateStop
              else if state = 0x01 then CPUStateStartup
              else CPUStateUnknown) }
      else Some CPUStateUnknown)"

definition GetCPUState :: "env \<Rightarrow> ctx \<Rightarrow> (client, CPUState) io" where
  "GetCPUState E cx =
     io_bind (szl_exchange E cx SZLCPUState 0) (\<lambda>d. io_pure (map_option Inr (cpu_state_of d)))"

definition protection_of :: "bytes \<Rightarrow> ProtectionLevel option" where
  "protection_of d =
     (if length d \<ge> 4 then do { level \<leftarrow> idx d 2; Some (level AND 0x03) }
      else Some ProtectionNone)"

definition GetProtectionLevel :: "env \<Rightarrow> ctx \<Rightarrow> (client, ProtectionLevel) io" where
  "GetProtectionLevel E cx =
     io_bind (szl_exchange E cx SZLProtectionInfo 0) (\<lambda>d. io_pure (map_option Inr (protection_of d)))"

definition ReadDiagBufferRaw :: "env \<Rightarrow> ctx \<Rightarrow> (client, bytes) io" where
  "ReadDiagBufferRaw E cx = szl_exchange E cx SZLDiagBuffer 0"

definition diagEntrySize :: nat where "diagEntrySize = 20"

function diag_entries :: "bytes \<Rightarrow> nat \<Rightarrow> DiagEntry list \<Rightarrow> DiagEntry list option" where
  "diag_entries raw offset entries =
     (if offset + diagEntrySize \<le> length raw then do {
        a \<leftarrow> idx raw offset;
        b \<leftarrow> idx raw (offset + 1);
        c \<leftarrow> idx raw (offset + 2);
        p \<leftarrow> idx raw (offset + 3);
        let entry = \<lparr>deTimestamp = '''', deEventID = push_bit 8 (ucast a) OR ucast b, deEventClass = c,
                     dePriority = p, deDescription = '''', deInfo1 = 0, deInfo2 = 0\<rparr>;
        diag_entries raw (offset + diagEntrySize) (entries @ [entry]) }
      else Some entries)"
  by pat_completeness auto
termination
  by (relation "measure (\<lambda>(raw, offset, entries). length raw - offset)") (auto simp: diagEntrySize_def)

declare diag_entries.simps [simp del]

definition ReadDiagBuffer :: "env \<Rightarrow> ctx \<Rightarrow> (client, DiagBuffer) io" where
  "ReadDiagBuffer E cx =
     io_bind (ReadDiagBufferRaw E cx) (\<lambda>raw.
     io_bind (io_pure (map_option Inr (diag_entries raw 0 []))) (\<lambda>es.
     io_ret \<lparr>dbEntries = es, dbTotalCount = int (length es)\<rparr>))"

section \<open>Totality and the session\<close>

lemma safe_szl_read: "frames_bounded E \<Longrightarrow> safe (szl_read E cx i x)"
  unfolding szl_read_def
  by (intro safe_bind) (auto intro!: safe_bind safe_sendReceive safe_pure simp: ParseSZLResponse_eq)

lemma safe_szl_exchange: "frames_bounded E \<Longrightarrow> safe (szl_exchange E cx i x)"
  unfolding szl_exchange_def by (rule safe_bind [OF safe_szl_read]) (auto split: prod.split)

lemma safe_ReadDiagBufferRaw: "frames_bounded E \<Longrightarrow> safe (ReadDiagBufferRaw E cx)"
  unfolding ReadDiagBufferRaw_def by (rule safe_szl_exchange)

lemma cpu_state_of_total: "cpu_state_of d \<noteq> None"
  by (simp add: cpu_state_of_def idx_def)

lemma protection_of_total: "protection_of d \<noteq> None"
  by (simp add: protection_of_def idx_def)

lemma safe_GetCPUState: "frames_bounded E \<Longrightarrow> safe (GetCPUState E cx)"
  unfolding GetCPUState_def
  by (intro safe_bind safe_szl_exchange safe_pure) (auto simp: cpu_state_of_total)

lemma safe_GetProtectionLevel: "frames_bounded E \<Longrightarrow> safe (GetProtectionLevel E cx)"
  unfolding GetProtectionLevel_def
  by (intro safe_bind safe_szl_exchange safe_pure) (auto simp: protection_of_total)

definition diag_entry_at :: "bytes \<Rightarrow> nat \<Rightarrow> DiagEntry" where
  "diag_entry_at raw k =
     \<lparr>deTimestamp = '''', deEventID = be16 (raw ! (20 * k)) (raw ! (20 * k + 1)),
      deEventClass = raw ! (20 * k + 2), dePriority = raw ! (20 * k + 3), deDescription = '''',
      deInfo1 = 0, deInfo2 = 0\<rparr>"

lemma diag_entries_eq:
  "diag_entries raw (20 * k) acc = Some (acc @ map (diag_entry_at raw) [k..<max k (length raw div 20)])"
proof (induction "length raw div 20 - k" arbitrary: k acc)
  case 0
  then have "\<not> 20 * k + 20 \<le> length raw" by linarith
  then show ?case using 0 by (simp add: diag_entries.simps diagEntrySize_def)
next
  case (Suc n)
  then have lt: "k < length raw div 20" by linarith
  then have le: "20 * k + 20 \<le> length raw" by linarith
  have "diag_entries raw (20 * k) acc = diag_entries raw (20 * Suc k) (acc @ [diag_entry_at raw k])"
    using le by (subst diag_entries.simps)
      (simp add: diagEntrySize_def idx_def diag_entry_at_def be16_def Let_def add.commute or.commute)
  also have "\<dots> = Some (acc @ [diag_entry_at raw k] @ map (diag_entry_at raw)
      [Suc k..<max (Suc k) (length raw div 20)])"
    using Suc.hyps(1) [of "Suc k" "acc @ [diag_entry_at raw k]"] Suc.hyps(2) by simp
  also have "[diag_entry_at raw k] @ map (diag_entry_at raw) [Suc k..<max (Suc k) (length raw div 20)] =
      map (diag_entry_at raw) [k..<max k (length raw div 20)]"
    using lt by (simp add: upt_conv_Cons max_def)
  finally show ?case .
qed

lemma diag_entries_0: "diag_entries raw 0 [] = Some (map (diag_entry_at raw) [0..<length raw div 20])"
  using diag_entries_eq [of raw 0 "[]"] by simp

lemma safe_ReadDiagBuffer: "frames_bounded E \<Longrightarrow> safe (ReadDiagBuffer E cx)"
  unfolding ReadDiagBuffer_def ReadDiagBufferRaw_def
  by (intro safe_bind safe_szl_exchange safe_pure safe_simps) (auto simp: diag_entries_0)

section \<open>A target with a system status list\<close>

definition szl_step :: "(uint16 \<Rightarrow> uint16 \<Rightarrow> bytes) target" where
  "szl_step f req =
     (let szlID = be16 (req ! 22) (req ! 23); szlIndex = be16 (req ! 24) (req ! 25)
      in (f, userdata_pdu (take 2 (drop 4 req))
            [0x00, 0x01, 0x12, 0x08, 0x12, 0x84, 0x01, 0x00, 0x00, 0x00, 0x00, 0x00]
            (szl_response_data szlID szlIndex (f szlID szlIndex))))"

lemma EncodeSZLRequest_list:
  "EncodeSZLRequest ref i x = [0x32, ROSCTRUserdata, 0, 0] @ put16 ref @
     [0, 8, 0, 8, 0x00, 0x01, 0x12, 0x04, UserdataSubParam, UserdataSZL, 0x00, 0x00,
      RetCodeSuccess, 0x09, 0, 4] @ put16 i @ put16 x"
  by (simp add: EncodeSZLRequest_def EncodeS7Header_list Let_def put16_def)

lemma szl_step_request:
  "szl_step f (EncodeSZLRequest ref i x) = (f, userdata_pdu (put16 ref)
     [0x00, 0x01, 0x12, 0x08, 0x12, 0x84, 0x01, 0x00, 0x00, 0x00, 0x00, 0x00]
     (szl_response_data i x (f i x)))"
  by (simp add: szl_step_def EncodeSZLRequest_list put16_def Let_def)

lemma length_szl_response_data [simp]: "length (szl_response_data i x p) = 8 + length p"
  by (simp add: szl_response_data_def)

lemma szl_state: "state_of E szl_step f s = f"
proof -
  have "fold (\<lambda>(k, d) st. if is_dt C d then fst (szl_step st (user_of C d)) else st) frames f = f" for C and frames :: "(nat \<times> bytes) list"
    by (induction frames) (auto simp: szl_step_def Let_def)
  then show ?thesis by (simp add: state_of_def target_state_def)
qed

lemma szl_read_answers:
  assumes "ctx_live cx" "answers E szl_step f" "client_inv s" "clConn s \<noteq> None"
    and "clPduSize s = 0 \<or> 26 \<le> clPduSize s" "length (f i x) < 65500"
  shows "\<exists>t. szl_read E cx i x s = (Some (Inr (f i x, env_room E (w_trace t))), t) \<and> same_session s t"
proof -
  obtain c where c: "clConn s = Some c" using assms(4) by auto
  obtain ref u where u: "nextPDURef s = (Some (Inr ref), u)" "same_session s u" "client_inv u"
    "clConn u = clConn s" "clPduSize u = clPduSize s"
    using draw_ref [OF assms(3)] by metis
  let ?param = "[0x00, 0x01, 0x12, 0x08, 0x12, 0x84, 0x01, 0x00, 0x00, 0x00, 0x00, 0x00] :: bytes"
  obtain t where t: "sendReceive E cx (EncodeSZLRequest ref i x) ref u =
      (Some (Inr (?param, szl_response_data i x (f i x))), t)" "same_session u t"
    using exchange [OF u(3) _ assms(1,2) _ _ userdata_pdu_accepts [of ?param "szl_response_data i x (f i x)" ref],
        of c "EncodeSZLRequest ref i x" f] u c assms(5,6) szl_step_request [of f ref i x]
    by (auto simp: szl_state)
  have "ParseSZLResponse (szl_response_data i x (f i x)) =
      Some (Inr \<lparr>szSZLID = i, szSZLIndex = x, szDataLength = of_nat (length (f i x) + 4), szData = f i x\<rparr>)"
    using ParseSZLResponse_roundtrip [of "f i x" i x "[]"] assms(6) by simp
  then have "szl_read E cx i x s = (Some (Inr (f i x, env_room E (w_trace t))), t)"
    using u(1) t(1) by (simp add: szl_read_def del: nextPDURef_run)
  then show ?thesis using ss.R_trans [OF u(2) t(2)] by blast
qed

lemma szl_exchange_answers:
  assumes "ctx_live cx" "answers E szl_step f" "client_inv s" "clConn s \<noteq> None"
    and "clPduSize s = 0 \<or> 26 \<le> clPduSize s" "length (f i x) < 65500"
  shows "\<exists>t. szl_exchange E cx i x s = (Some (Inr (f i x)), t) \<and> same_session s t"
  using szl_read_answers [OF assms] by (auto simp: szl_exchange_def)

section \<open>Results of the operations\<close>

definition order_overrun :: "goerr + bytes \<times> bytes \<Rightarrow> bool" where
  \<comment> \<open>the payload passes the length check, but its buffer ends before byte 22\<close>
  "order_overrun r =
     (case r of Inl _ \<Rightarrow> False | Inr (raw, behind) \<Rightarrow> 20 \<le> length raw \<and> length raw + length behind < 22)"

lemma order_overrun_iff:
  "order_overrun r \<longleftrightarrow> (\<exists>raw behind. r = Inr (raw, behind) \<and> 20 \<le> length raw \<and> length raw + length behind < 22)"
  by (auto simp: order_overrun_def split: sum.split)

lemma use_module_fault: "use_module U r info errs = None \<longleftrightarrow> order_overrun r"
  by (auto simp: use_module_def order_overrun_def reslice_def slice_def split: sum.split)

lemma use_module_total:
  "\<not> order_overrun r \<Longrightarrow> \<exists>info' errs'. use_module U r info errs = Some (Inr (info', errs'))"
  by (auto simp: use_module_def order_overrun_def reslice_def slice_def split: sum.splits)

lemma use_component_total: "\<exists>info' errs'. use_component U r info errs = Some (Inr (info', errs'))"
  by (auto simp: use_component_def reslice_def slice_def split: sum.split)

definition module_failed :: "goerr + bytes \<times> bytes \<Rightarrow> bool" where
  \<comment> \<open>the read failed, or its payload is too short to hold an order number\<close>
  "module_failed r = (case r of Inl _ \<Rightarrow> True | Inr (raw, _) \<Rightarrow> raw \<noteq> [] \<and> length raw < 20)"

definition component_failed :: "goerr + bytes \<times> bytes \<Rightarrow> bool" where
  "component_failed r = (case r of Inl _ \<Rightarrow> True | Inr (raw, _) \<Rightarrow> raw \<noteq> [] \<and> length raw < 34)"

lemma use_module_errs:
  "use_module U r info [] = Some (Inr (info', errs')) \<Longrightarrow> length errs' = (if module_failed r then 1 else 0)"
  by (auto simp: use_module_def module_failed_def split: sum.splits if_splits Option.bind_splits)

lemma use_component_errs:
  "use_component U r info errs = Some (Inr (info', errs')) \<Longrightarrow>
     length errs' = length errs + (if component_failed r then 1 else 0)"
  by (auto simp: use_component_def component_failed_def split: sum.splits if_splits Option.bind_splits)

lemma Identify_run:
  assumes "readModuleIDSZL E cx s = (Some rm, u)" "readComponentIDSZL E cx u = (Some rc', t)"
    and "\<not> order_overrun rm"
  obtains info1 errs1 info2 errs2 where "use_module U rm zero_DeviceInfo [] = Some (Inr (info1, errs1))"
    "use_component U rc' info1 errs1 = Some (Inr (info2, errs2))"
    "Identify U E cx s = (Some (Inr (identify_result info2 errs2)), t)"
proof -
  obtain info1 errs1 where 1: "use_module U rm zero_DeviceInfo [] = Some (Inr (info1, errs1))"
    using use_module_total [OF assms(3)] by blast
  obtain info2 errs2 where 2: "use_component U rc' info1 errs1 = Some (Inr (info2, errs2))"
    using use_component_total by blast
  show ?thesis using that [OF 1 2] assms(1,2) 1 2 by (simp add: Identify_def io_case_def)
qed

lemma Identify_contract:
  assumes "readModuleIDSZL E cx s = (Some rm, u)" "readComponentIDSZL E cx u = (Some rc', t)"
    and "\<not> order_overrun rm"
  shows "\<exists>info err. Identify U E cx s = (Some (Inr (info, err)), t) \<and>
    (info = None \<longleftrightarrow> module_failed rm \<and> component_failed rc') \<and>
    (err = None \<longleftrightarrow> \<not> module_failed rm \<and> \<not> component_failed rc')"
proof -
  obtain info1 errs1 info2 errs2 where run: "use_module U rm zero_DeviceInfo [] = Some (Inr (info1, errs1))"
    "use_component U rc' info1 errs1 = Some (Inr (info2, errs2))"
    "Identify U E cx s = (Some (Inr (identify_result info2 errs2)), t)"
    using Identify_run [OF assms, of U] by metis
  then show ?thesis
    using use_module_errs [OF run(1)] use_component_errs [OF run(2)] by (auto simp: identify_result_def)
qed

lemma Identify_overrun:
  assumes "readModuleIDSZL E cx s = (Some rm, u)" "order_overrun rm"
  shows "Identify U E cx s = (None, u)"
proof -
  have "use_module U rm zero_DeviceInfo [] = None"
    using use_module_fault assms(2) by blast
  then show ?thesis using assms(1) by (simp add: Identify_def io_case_def io_bind_def)
qed

text \<open>When the buffer is long enough the order number is read from the buffer, also behind the payload.\<close>

lemma use_module_order:
  assumes "use_module U (Inr (raw, behind)) info errs = Some (Inr (info', errs'))" "20 \<le> length raw"
    and "trimString (take 20 (drop 2 (raw @ behind))) \<noteq> []"
  shows "diOrderNumber info' = trimString (take 20 (drop 2 (raw @ behind)))"
  using assms by (auto simp: use_module_def reslice_def slice_def populate_keeps_order split: if_splits)

lemma use_component_order:
  "use_component U r info errs = Some (Inr (info', errs')) \<Longrightarrow> diOrderNumber info \<noteq> [] \<Longrightarrow>
     diOrderNumber info' = diOrderNumber info"
  by (auto simp: use_component_def populate_keeps_order split: sum.splits if_splits Option.bind_splits)

lemma Identify_order_number:
  assumes "readModuleIDSZL E cx s = (Some (Inr (raw, behind)), u)" "readComponentIDSZL E cx u = (Some rc', t)"
    and "20 \<le> length raw" "22 \<le> length raw + length behind"
  shows "\<exists>info err. Identify U E cx s = (Some (Inr (Some info, err)), t) \<and>
    (trimString (take 20 (drop 2 (raw @ behind))) \<noteq> [] \<longrightarrow>
       diOrderNumber info = trimString (take 20 (drop 2 (raw @ behind))))"
proof -
  have no: "\<not> order_overrun (Inr (raw, behind))" using assms(4) by (simp add: order_overrun_def)
  obtain info1 errs1 info2 errs2 where run:
    "use_module U (Inr (raw, behind)) zero_DeviceInfo [] = Some (Inr (info1, errs1))"
    "use_component U rc' info1 errs1 = Some (Inr (info2, errs2))"
    "Identify U E cx s = (Some (Inr (identify_result info2 errs2)), t)"
    using Identify_run [OF assms(1,2) no, of U] by metis
  have "length errs2 \<noteq> 2"
    using use_module_errs [OF run(1)] use_component_errs [OF run(2)] assms(3) by (auto simp: module_failed_def)
  then have "fst (identify_result info2 errs2) = Some info2" by (simp add: identify_result_def)
  then show ?thesis
    using run(3) use_module_order [OF run(1) assms(3)] use_component_order [OF run(2)]
    by (cases "identify_result info2 errs2") auto
qed

lemma readComponentIDSZL_total:
  assumes "frames_bounded E" "client_inv s" "readModuleIDSZL E cx s = (Some rm, u)"
  shows "\<exists>rc' t. readComponentIDSZL E cx u = (Some rc', t)"
proof -
  have m: "safe (readModuleIDSZL E cx)" "safe (readComponentIDSZL E cx)"
    unfolding readModuleIDSZL_def readComponentIDSZL_def by (rule safe_szl_read [OF assms(1)])+
  have "client_inv u" using m(1) assms(2,3) unfolding safe_def by (metis snd_conv)
  then show ?thesis
    using m(2) by (cases "readComponentIDSZL E cx u") (auto simp: safe_def no_panic_def)
qed

lemma Identify_panics_iff:
  assumes "frames_bounded E" "client_inv s"
  shows "fst (Identify U E cx s) = None \<longleftrightarrow> (\<exists>rm. fst (readModuleIDSZL E cx s) = Some rm \<and> order_overrun rm)"
proof -
  have "safe (readModuleIDSZL E cx)"
    unfolding readModuleIDSZL_def by (rule safe_szl_read [OF assms(1)])
  then obtain rm u where rm: "readModuleIDSZL E cx s = (Some rm, u)"
    using assms(2) by (cases "readModuleIDSZL E cx s") (auto simp: safe_def no_panic_def)
  obtain rc' t where rc': "readComponentIDSZL E cx u = (Some rc', t)"
    using readComponentIDSZL_total [OF assms rm] by blast
  have "fst (Identify U E cx s) = None \<longleftrightarrow> order_overrun rm"
  proof (cases "order_overrun rm")
    case True
    then show ?thesis using Identify_overrun [OF rm(1)] by simp
  next
    case False
    then show ?thesis using Identify_contract [OF rm(1) rc' False, of U] by auto
  qed
  then show ?thesis using rm(1) by simp
qed

lemma trim_end_le: "trim_end d n \<le> n"
  by (induction n) auto

lemma trim_end_spec:
  "(\<forall>i. trim_end d n \<le> i \<and> i < n \<longrightarrow> d ! i = 0 \<or> d ! i = 0x20) \<and>
   (0 < trim_end d n \<longrightarrow> d ! (trim_end d n - 1) \<noteq> 0 \<and> d ! (trim_end d n - 1) \<noteq> 0x20)"
  by (induction n) (auto simp: less_Suc_eq)

lemma trimString_id: "xs \<noteq> [] \<Longrightarrow> last xs \<noteq> 0 \<Longrightarrow> last xs \<noteq> 0x20 \<Longrightarrow> trimString xs = xs"
  by (cases xs rule: rev_cases) (simp_all add: trimString_def nth_append)

end
