(* ===== verification/Wire_Blocks.thy ===== *)
theory Wire_Blocks
  imports Wire_SZL
begin

text \<open>
  Block lists, block information and the upload PDUs (\<open>wire/pdu_blocks.go\<close>), with the
  standard library's \<open>strings.TrimSpace\<close>, which the session ID goes through.
\<close>

section \<open>strings.TrimSpace\<close>

definition ascii_space :: "byte \<Rightarrow> bool" where
  "ascii_space b \<longleftrightarrow> b \<in> {9, 10, 11, 12, 13, 32}"

definition utf8_space2 :: "byte \<Rightarrow> byte \<Rightarrow> bool" where
  \<comment> \<open>U+0085 and U+00A0\<close>
  "utf8_space2 a b \<longleftrightarrow> a = 0xC2 \<and> b \<in> {0x85, 0xA0}"

definition utf8_space3 :: "byte \<Rightarrow> byte \<Rightarrow> byte \<Rightarrow> bool" where
  \<comment> \<open>U+1680, U+2000..U+200A, U+2028, U+2029, U+202F, U+205F, U+3000\<close>
  "utf8_space3 a b c \<longleftrightarrow>
     a = 0xE1 \<and> b = 0x9A \<and> c = 0x80 \<or>
     a = 0xE2 \<and> b = 0x80 \<and> (0x80 \<le> c \<and> c \<le> 0x8A \<or> c \<in> {0xA8, 0xA9, 0xAF}) \<or>
     a = 0xE2 \<and> b = 0x81 \<and> c = 0x9F \<or>
     a = 0xE3 \<and> b = 0x80 \<and> c = 0x80"

fun strip_spaces :: "(byte \<Rightarrow> byte \<Rightarrow> bool) \<Rightarrow> (byte \<Rightarrow> byte \<Rightarrow> byte \<Rightarrow> bool) \<Rightarrow> bytes \<Rightarrow> bytes" where
  "strip_spaces sp2 sp3 [] = []"
| "strip_spaces sp2 sp3 [a] = (if ascii_space a then [] else [a])"
| "strip_spaces sp2 sp3 [a, b] =
     (if ascii_space a then strip_spaces sp2 sp3 [b] else if sp2 a b then [] else [a, b])"
| "strip_spaces sp2 sp3 (a # b # c # s) =
     (if ascii_space a then strip_spaces sp2 sp3 (b # c # s)
      else if sp2 a b then strip_spaces sp2 sp3 (c # s)
      else if sp3 a b c then strip_spaces sp2 sp3 s
      else a # b # c # s)"

definition TrimSpace :: "bytes \<Rightarrow> bytes" where
  "TrimSpace s =
     (let l = strip_spaces utf8_space2 utf8_space3 s
      in rev (strip_spaces (\<lambda>b a. utf8_space2 a b) (\<lambda>c b a. utf8_space3 a b c) (rev l)))"

section \<open>Block lists and block information\<close>

definition BlockTypeOB :: byte where "BlockTypeOB = 0x38"
definition BlockTypeDB :: byte where "BlockTypeDB = 0x41"
definition BlockTypeSDB :: byte where "BlockTypeSDB = 0x42"
definition BlockTypeFC :: byte where "BlockTypeFC = 0x43"
definition BlockTypeSFC :: byte where "BlockTypeSFC = 0x44"
definition BlockTypeFB :: byte where "BlockTypeFB = 0x45"
definition BlockTypeSFB :: byte where "BlockTypeSFB = 0x46"

lemmas blocktype_defs = BlockTypeOB_def BlockTypeDB_def BlockTypeSDB_def BlockTypeFC_def
  BlockTypeSFC_def BlockTypeFB_def BlockTypeSFB_def

definition EncodeBlockListRequest :: "uint16 \<Rightarrow> byte \<Rightarrow> bytes" where
  "EncodeBlockListRequest pduRef blockType =
     (let index =
        (if blockType = BlockTypeOB then 0x0001
         else if blockType = BlockTypeDB then 0x0002
         else if blockType = BlockTypeSDB then 0x0003
         else if blockType = BlockTypeFC then 0x0004
         else if blockType = BlockTypeSFC then 0x0005
         else if blockType = BlockTypeFB then 0x0006
         else if blockType = BlockTypeSFB then 0x0007
         else 0x0000)
      in EncodeSZLRequest pduRef SZLBlockList index)"

record BlockListEntry =
  bleBlockType :: byte
  bleBlockNumber :: uint16
  bleLanguage :: byte
  bleFlags :: byte

record BlockInfoData =
  bidLoadMemory :: int
  bidLocalData :: int
  bidMC7Size :: int

definition ParseBlockInfoResponse :: "bytes \<Rightarrow> (goerr + BlockInfoData) option" where
  "ParseBlockInfoResponse szlData =
     (if length szlData < 6 then
        Some (Inl (ErrorText (''block info data too short: need 6 bytes, got '' @
                              fmt_d (int (length szlData)))))
      else do {
        a \<leftarrow> u16_at szlData 0;
        b \<leftarrow> u16_at szlData 2;
        c \<leftarrow> u16_at szlData 4;
        Some (Inr \<lparr>bidLoadMemory = uint a, bidLocalData = uint b, bidMC7Size = uint c\<rparr>) })"

function block_entries :: "bytes \<Rightarrow> nat \<Rightarrow> BlockListEntry list \<Rightarrow> BlockListEntry list option" where
  \<comment> \<open>the loop of \<open>ParseBlockListResponse\<close>\<close>
  "block_entries szlData offset entries =
     (if offset + 4 \<le> length szlData then do {
        num \<leftarrow> u16_at szlData offset;
        t \<leftarrow> idx szlData (offset + 2);
        l \<leftarrow> idx szlData (offset + 3);
        let entry = \<lparr>bleBlockType = t, bleBlockNumber = num, bleLanguage = drop_bit 4 l,
                     bleFlags = l AND 0x0F\<rparr>;
        block_entries szlData (offset + 4) (entries @ [entry]) }
      else Some entries)"
  by pat_completeness auto
termination
  by (relation "measure (\<lambda>(szlData, offset, entries). length szlData - offset)") auto

declare block_entries.simps [simp del]

definition ParseBlockListResponse :: "bytes \<Rightarrow> (goerr + BlockListEntry list) option" where
  "ParseBlockListResponse szlData =
     (if length szlData mod 4 \<noteq> 0 then
        Some (Inl (ErrorText (''block list data length '' @ fmt_d (int (length szlData)) @
                              '' not multiple of 4'')))
      else map_option Inr (block_entries szlData 0 []))"

section \<open>Upload\<close>

definition upload_type_char :: "byte \<Rightarrow> byte" where
  "upload_type_char blockType =
     (if blockType = BlockTypeOB then 0x38 \<comment> \<open>'8'\<close>
      else if blockType = BlockTypeDB then 0x41 \<comment> \<open>'A'\<close>
      else if blockType = BlockTypeFC then 0x43 \<comment> \<open>'C'\<close>
      else if blockType = BlockTypeFB then 0x45 \<comment> \<open>'E'\<close>
      else if blockType = BlockTypeSFC then 0x44 \<comment> \<open>'D'\<close>
      else if blockType = BlockTypeSFB then 0x46 \<comment> \<open>'F'\<close>
      else 0x41)"

definition num_digit :: "int \<Rightarrow> int \<Rightarrow> byte" where
  \<comment> \<open>\<open>'0' + byte((blockNum / d) % 10)\<close>\<close>
  "num_digit blockNum d = 0x30 + word_of_int (go_rem (go_div blockNum d) 10)"

definition EncodeStartUploadRequest :: "uint16 \<Rightarrow> byte \<Rightarrow> int \<Rightarrow> bytes" where
  "EncodeStartUploadRequest pduRef blockType blockNum =
     (let typeChar = upload_type_char blockType;
          param = [FuncUploadStart, 0x00, 0x00, 0x00, 0x00, 0x00, 0x00, 0x00, 0x09];
          numStr = [num_digit blockNum 10000, num_digit blockNum 1000, num_digit blockNum 100,
                    num_digit blockNum 10, num_digit blockNum 1];
          filename = [0x5F, typeChar] @ numStr @ [0x41, 0x00];
          param = param @ filename
      in EncodeS7Header ROSCTRJob pduRef (int (length param)) 0 @ param)"

definition ParseStartUploadResponse :: "bytes \<Rightarrow> (goerr + bytes) option" where
  "ParseStartUploadResponse param =
     (if length param < 10 then Some (Inl (s7msg ''invalid start upload response''))
      else do {
        f \<leftarrow> idx param 0;
        if f \<noteq> FuncUploadStart then Some (Inl (s7msg ''invalid start upload response''))
        else do {
          l \<leftarrow> idx param 8;
          let idLen = unat l;
          if idLen \<le> 0 \<or> 9 + idLen > length param
          then Some (Inl (s7msg ''invalid upload session id length''))
          else do { s \<leftarrow> slice param 9 (9 + idLen); Some (Inr (TrimSpace s)) } } })"

definition upload_request :: "byte \<Rightarrow> uint16 \<Rightarrow> bytes \<Rightarrow> bytes" where
  \<comment> \<open>the common body of \<open>EncodeUploadRequest\<close> and \<open>EncodeEndUploadRequest\<close>\<close>
  "upload_request func pduRef sessionID =
     (let id' = (if length sessionID > 255 then take 255 sessionID else sessionID);
          param = [func, 0, 0, 0, 0, 0, 0, 0, of_nat (length id')] @ id'
      in EncodeS7Header ROSCTRJob pduRef (int (length param)) 0 @ param)"

definition EncodeUploadRequest :: "uint16 \<Rightarrow> bytes \<Rightarrow> bytes" where
  "EncodeUploadRequest pduRef sessionID = upload_request FuncUpload pduRef sessionID"

definition EncodeEndUploadRequest :: "uint16 \<Rightarrow> bytes \<Rightarrow> bytes" where
  "EncodeEndUploadRequest pduRef sessionID = upload_request FuncUploadEnd pduRef sessionID"

record UploadChunk =
  ucDone :: bool
  ucData :: bytes

definition ParseUploadResponse :: "bytes \<Rightarrow> bytes \<Rightarrow> (goerr + UploadChunk) option" where
  "ParseUploadResponse param data =
     (if length param < 2 then Some (Inl (s7msg ''invalid upload response''))
      else do {
        f \<leftarrow> idx param 0;
        if f \<noteq> FuncUpload then Some (Inl (s7msg ''invalid upload response''))
        else do {
          status \<leftarrow> idx param 1;
          if length data < 4 then Some (Inl (ErrorText ''upload response data too short''))
          else do {
            bits \<leftarrow> u16_at data 2;
            let lengthBytes = (unat bits + 7) div 8;
            if 4 + lengthBytes > length data then
              Some (Inl (ErrorText (''upload response length overrun: need '' @
                fmt_d (int (4 + lengthBytes)) @ '' bytes, have '' @ fmt_d (int (length data)))))
            else do {
              payload \<leftarrow> slice data 4 (4 + lengthBytes);
              Some (Inr \<lparr>ucDone = (status = 0), ucData = payload\<rparr>) } } } })"

section \<open>Lemmas\<close>

lemma ParseBlockInfoResponse_eq:
  "ParseBlockInfoResponse d = Some (
     if length d < 6 then
       Inl (ErrorText (''block info data too short: need 6 bytes, got '' @ fmt_d (int (length d))))
     else Inr \<lparr>bidLoadMemory = uint (be16 (d ! 0) (d ! 1)), bidLocalData = uint (be16 (d ! 2) (d ! 3)),
               bidMC7Size = uint (be16 (d ! 4) (d ! 5))\<rparr>)"
  by (simp add: ParseBlockInfoResponse_def u16_at_in)

lemma ParseStartUploadResponse_eq:
  "ParseStartUploadResponse p = Some (
     if length p < 10 \<or> p ! 0 \<noteq> FuncUploadStart then Inl (s7msg ''invalid start upload response'')
     else if unat (p ! 8) = 0 \<or> length p < 9 + unat (p ! 8)
       then Inl (s7msg ''invalid upload session id length'')
     else Inr (TrimSpace (take (unat (p ! 8)) (drop 9 p))))"
  by (auto simp: ParseStartUploadResponse_def idx_def slice_def Let_def)

lemma ParseUploadResponse_eq:
  "ParseUploadResponse p d = Some (
     if length p < 2 \<or> p ! 0 \<noteq> FuncUpload then Inl (s7msg ''invalid upload response'')
     else if length d < 4 then Inl (ErrorText ''upload response data too short'')
     else let n = (unat (be16 (d ! 2) (d ! 3)) + 7) div 8 in
       if length d < 4 + n then
         Inl (ErrorText (''upload response length overrun: need '' @ fmt_d (int (4 + n)) @
                         '' bytes, have '' @ fmt_d (int (length d))))
       else Inr \<lparr>ucDone = (p ! 1 = 0), ucData = take n (drop 4 d)\<rparr>)"
  by (auto simp: ParseUploadResponse_def idx_def slice_def u16_at_in Let_def)

definition entry_bytes :: "BlockListEntry \<Rightarrow> bytes" where
  "entry_bytes e = put16 (bleBlockNumber e) @ [bleBlockType e, push_bit 4 (bleLanguage e) OR bleFlags e]"

definition entry_wf :: "BlockListEntry \<Rightarrow> bool" where
  \<comment> \<open>language and flags are nibbles\<close>
  "entry_wf e \<longleftrightarrow> bleLanguage e AND 0x0F = bleLanguage e \<and> bleFlags e AND 0x0F = bleFlags e"

lemma mask4_byte: "(0x0F :: byte) = mask 4"
  by (simp add: mask_eq_exp_minus_1)

lemma nibble_bits: "(x :: byte) AND 0x0F = x \<Longrightarrow> bit x n \<Longrightarrow> n < 4"
  unfolding mask4_byte by (metis bit_and_iff bit_mask_iff)

lemma nibbles_split:
  assumes "a AND 0x0F = a" "(b :: byte) AND 0x0F = b"
  shows "drop_bit 4 (push_bit 4 a OR b) = a" "(push_bit 4 a OR b) AND 0x0F = b"
proof -
  show "drop_bit 4 (push_bit 4 a OR b) = a"
    by (rule bit_word_eqI) (use assms in \<open>auto simp: bit_simps dest: nibble_bits\<close>)
  show "(push_bit 4 a OR b) AND 0x0F = b"
    unfolding mask4_byte
    by (rule bit_word_eqI) (use assms in \<open>auto simp: bit_simps dest: nibble_bits\<close>)
qed

lemma length_entry_bytes [simp]: "length (entry_bytes e) = 4"
  by (simp add: entry_bytes_def)

lemma block_entries_encode:
  assumes "list_all entry_wf es"
  shows "block_entries (xs @ concat (map entry_bytes es)) (length xs) acc = Some (acc @ es)"
  using assms
proof (induction es arbitrary: xs acc)
  case Nil
  show ?case by (simp add: block_entries.simps)
next
  case (Cons e es)
  let ?d = "xs @ concat (map entry_bytes (e # es))"
  have n: "?d ! length xs = ucast (drop_bit 8 (bleBlockNumber e))"
    "?d ! (length xs + 1) = ucast (bleBlockNumber e)"
    "?d ! (length xs + 2) = bleBlockType e"
    "?d ! (length xs + 3) = push_bit 4 (bleLanguage e) OR bleFlags e"
    by (simp_all add: nth_append entry_bytes_def put16_def)
  have len: "length xs + 4 \<le> length ?d" by simp
  have wf: "bleLanguage e AND 0x0F = bleLanguage e" "bleFlags e AND 0x0F = bleFlags e"
    using Cons.prems by (simp_all add: entry_wf_def)
  have IH: "block_entries ((xs @ entry_bytes e) @ concat (map entry_bytes es))
      (length (xs @ entry_bytes e)) (acc @ [e]) = Some ((acc @ [e]) @ es)"
    by (rule Cons.IH) (use Cons.prems in simp)
  have u: "u16_at ?d (length xs) = Some (bleBlockNumber e)"
    "idx ?d (length xs + 2) = Some (bleBlockType e)"
    "idx ?d (length xs + 3) = Some (push_bit 4 (bleLanguage e) OR bleFlags e)"
    using len n by (simp_all only: u16_at_in be16_put16 idx_in)
  have eta: "\<lparr>bleBlockType = bleBlockType e, bleBlockNumber = bleBlockNumber e,
      bleLanguage = bleLanguage e, bleFlags = bleFlags e\<rparr> = e"
    by (rule BlockListEntry.equality) simp_all
  have "block_entries ?d (length xs) acc = block_entries ?d (length xs + 4) (acc @ [e])"
    using len u nibbles_split [OF wf] by (subst block_entries.simps) (simp add: Let_def eta)
  also have "\<dots> = Some (acc @ e # es)" using IH by simp
  finally show ?case .
qed

end
