(* ===== verification/Block_Ops.thy ===== *)
theory Block_Ops
  imports Szl_Ops Wire_Blocks
begin

text \<open>
  The block operations of the client (\<open>client/blocks.go\<close>): block lists, block information,
  and the upload of a block with its retry loop and its deferred end-upload request.

  Operations that return a value together with an error return both as a pair.  The two
  bounded loops of the upload are structural recursions on the number of rounds left.
\<close>

section \<open>Operations\<close>

definition maxUploadChunks :: nat where "maxUploadChunks = 4096"
definition maxUploadRetries :: nat where "maxUploadRetries = 3"

definition isUploadProtocolError :: "goerr option \<Rightarrow> bool" where
  "isUploadProtocolError e =
     (case e of
        None \<Rightarrow> False
      | Some err \<Rightarrow> if errors_Is err ErrProtocolFailure then True else errors_As_S7 err \<noteq> None)"

definition block_of_entry :: "BlockListEntry \<Rightarrow> BlockInfo" where
  "block_of_entry e =
     zero_BlockInfo\<lparr>biType := bleBlockType e, biNumber := uint (bleBlockNumber e),
                    biLanguage := bleLanguage e, biFlags := bleFlags e\<rparr>"

definition ListBlocks :: "env \<Rightarrow> ctx \<Rightarrow> BlockType \<Rightarrow> (client, BlockInfo list) io" where
  "ListBlocks E cx bt =
     io_bind nextPDURef (\<lambda>ref.
     io_bind (sendReceive E cx (EncodeBlockListRequest ref bt) ref) (\<lambda>(_, data).
     io_bind (io_pure (ParseSZLResponse data)) (\<lambda>resp.
     io_bind (io_pure (ParseBlockListResponse (szData resp))) (\<lambda>entries.
     io_ret (map block_of_entry entries)))))"

definition all_block_types :: "BlockType list" where
  "all_block_types = [BlockOB, BlockDB, BlockSDB, BlockFC, BlockFB, BlockSFC, BlockSFB]"

fun list_types ::
    "env \<Rightarrow> ctx \<Rightarrow> BlockType list \<Rightarrow> BlockInfo list \<Rightarrow> goerr list \<Rightarrow>
     (client, BlockInfo list \<times> goerr option) io" where
  "list_types E cx [] all' errs =
     io_ret (all', if length errs > 0 then Some (Joined errs) else None)"
| "list_types E cx (bt # types) all' errs =
     io_case (ListBlocks E cx bt) (\<lambda>r. case r of
       Inl err \<Rightarrow>
         list_types E cx types all'
           (errs @ [Errorf (''list blocks '' @ BlockType_String bt @ '': '') err ''''])
     | Inr blocks \<Rightarrow> list_types E cx types (all' @ blocks) errs)"

definition ListAllBlocks :: "env \<Rightarrow> ctx \<Rightarrow> (client, BlockInfo list \<times> goerr option) io" where
  "ListAllBlocks E cx = list_types E cx all_block_types [] []"

definition check_block_number :: "int \<Rightarrow> goerr option" where
  "check_block_number num =
     (if num < 0 \<or> num > 0xFFFF then
        Some (ValidationError (''block number '' @ fmt_d num @ '' out of range (0..65535)''))
      else None)"

definition GetBlockInfo ::
    "env \<Rightarrow> ctx \<Rightarrow> BlockType \<Rightarrow> int \<Rightarrow> (client, BlockInfo \<times> goerr option) io" where
  \<comment> \<open>an error alone is \<open>(nil, err)\<close>\<close>
  "GetBlockInfo E cx bt num =
     (case check_block_number num of
        Some err \<Rightarrow> io_fail err
      | None \<Rightarrow>
          let szlIndex = push_bit 8 (ucast bt) OR word_of_int num in
          io_bind nextPDURef (\<lambda>ref.
          io_bind (sendReceive E cx (EncodeSZLRequest ref SZLBlockInfo szlIndex) ref) (\<lambda>(_, data).
          io_bind (io_pure (ParseSZLResponse data)) (\<lambda>resp.
          let info = zero_BlockInfo\<lparr>biType := bt, biNumber := num\<rparr> in
          io_case (io_pure (ParseBlockInfoResponse (szData resp))) (\<lambda>r. case r of
            Inl parseErr \<Rightarrow> io_ret (info, Some parseErr)
          | Inr blockInfo \<Rightarrow>
              io_ret (info\<lparr>biLoadMemory := bidLoadMemory blockInfo,
                           biLocalData := bidLocalData blockInfo,
                           biMC7Size := bidMC7Size blockInfo\<rparr>, None))))))"

fun upload_attempts ::
    "env \<Rightarrow> ctx \<Rightarrow> bytes \<Rightarrow> nat \<Rightarrow> nat \<Rightarrow> goerr option \<Rightarrow>
     (client, UploadChunk option \<times> goerr option) io" where
  \<comment> \<open>the attempts for chunk \<open>i\<close>: the chunk and \<open>lastErr\<close> after the loop\<close>
  "upload_attempts E cx sessionID i 0 lastErr = io_ret (None, lastErr)"
| "upload_attempts E cx sessionID i (Suc n) lastErr =
     io_bind (ctx_check cx) (\<lambda>_.
     io_bind nextPDURef (\<lambda>chunkRef.
     io_case (sendReceive E cx (EncodeUploadRequest chunkRef sessionID) chunkRef) (\<lambda>r. case r of
       Inl e \<Rightarrow>
         if isUploadProtocolError (Some e)
         then io_fail (Errorf (''upload chunk '' @ fmt_d (int i) @ '': '') e '''')
         else upload_attempts E cx sessionID i n (Some e)
     | Inr (param, data) \<Rightarrow>
         io_case (io_pure (ParseUploadResponse param data)) (\<lambda>r. case r of
           Inl e \<Rightarrow>
             let e = protocol_err ''parse upload response'' e in
             if isUploadProtocolError (Some e)
             then io_fail (Errorf (''upload chunk '' @ fmt_d (int i) @ '': '') e '''')
             else upload_attempts E cx sessionID i n (Some e)
         | Inr chunk \<Rightarrow> io_ret (Some chunk, None)))))"

fun upload_loop ::
    "env \<Rightarrow> ctx \<Rightarrow> bytes \<Rightarrow> nat \<Rightarrow> nat \<Rightarrow> bytes \<Rightarrow> nat \<Rightarrow> (client, bool \<times> bytes \<times> nat) io" where
  \<comment> \<open>rounds left, the chunk index, the payload and \<open>chunkCount\<close> so far; returns \<open>done\<close> with both\<close>
  "upload_loop E cx sessionID 0 i payload chunkCount = io_ret (False, payload, chunkCount)"
| "upload_loop E cx sessionID (Suc n) i payload chunkCount =
     io_bind (upload_attempts E cx sessionID i maxUploadRetries None) (\<lambda>(chunk, lastErr).
     case lastErr of
       Some err \<Rightarrow>
         io_fail (Errorf (''upload chunk '' @ fmt_d (int i) @ '' failed after '' @
           fmt_d (int maxUploadRetries) @ '' retries (received '' @ fmt_d (int (length payload)) @
           '' bytes so far): '') err '''')
     | None \<Rightarrow>
         (case chunk of
            None \<Rightarrow> io_pure None \<comment> \<open>\<open>chunk\<close> is nil\<close>
          | Some chunk \<Rightarrow>
              let payload = (if length (ucData chunk) > 0 then payload @ ucData chunk else payload);
                  chunkCount = (if length (ucData chunk) > 0 then chunkCount + 1 else chunkCount)
              in if ucDone chunk then io_ret (True, payload, chunkCount)
                 else upload_loop E cx sessionID n (i + 1) payload chunkCount))"

definition upload_cleanup :: "env \<Rightarrow> bytes \<Rightarrow> (client, unit) io" where
  \<comment> \<open>the deferred function\<close>
  "upload_cleanup E sessionID =
     (\<lambda>s. let cleanupCtx = context_with_timeout E (w_trace s) (500 * millisecond) in
       io_bind nextPDURef (\<lambda>endRef.
       io_case (sendReceive E cleanupCtx (EncodeEndUploadRequest endRef sessionID) endRef) (\<lambda>r s.
         if oLogger (clOpts s) then
           (case r of
              Inl err \<Rightarrow> log_ev (EvLog ''upload cleanup: end-upload failed (best-effort): %v'') s
            | Inr _ \<Rightarrow> log_ev (EvLog ''upload cleanup: end-upload sent'') s)
         else io_ret () s)) s)"

definition io_defer :: "(client, unit) io \<Rightarrow> (client, 'a) io \<Rightarrow> (client, 'a) io" where
  \<comment> \<open>\<open>defer f()\<close>: \<open>f\<close> runs on every exit and does not change the result\<close>
  "io_defer f m = io_case m (\<lambda>r. io_bind f (\<lambda>_. io_pure (Some r)))"

definition upload_result :: "BlockType \<Rightarrow> int \<Rightarrow> bool \<times> bytes \<times> nat \<Rightarrow> goerr + BlockData" where
  "upload_result bt num r =
     (case r of (done', payload, chunkCount) \<Rightarrow>
        if \<not> done' then
          Inl (ErrorText (''upload did not complete within '' @ fmt_d (int maxUploadChunks) @ '' chunks''))
        else if length payload = 0 \<and> chunkCount = 0 then
          Inl (ErrorText ''upload completed with no payload'')
        else Inr \<lparr>bdInfo = zero_BlockInfo\<lparr>biType := bt, biNumber := num\<rparr>, bdData = payload\<rparr>)"

definition UploadBlock :: "env \<Rightarrow> ctx \<Rightarrow> BlockType \<Rightarrow> int \<Rightarrow> (client, BlockData) io" where
  "UploadBlock E cx bt num =
     (case check_block_number num of
        Some err \<Rightarrow> io_fail err
      | None \<Rightarrow>
          io_bind nextPDURef (\<lambda>ref.
          io_bind (sendReceive E cx (EncodeStartUploadRequest ref bt num) ref) (\<lambda>(param, _).
          io_bind (io_wrap (protocol_err ''parse start upload'') (io_pure (ParseStartUploadResponse param)))
            (\<lambda>sessionID.
          io_defer (upload_cleanup E sessionID)
            (io_bind (upload_loop E cx sessionID maxUploadChunks 0 [] 0) (\<lambda>r.
               io_pure (Some (upload_result bt num r))))))))"

section \<open>Totality and the session\<close>

definition ensures :: "('a \<Rightarrow> bool) \<Rightarrow> (client, 'a) io \<Rightarrow> bool" where
  "ensures Q m \<longleftrightarrow> (\<forall>s x t. m s = (Some (Inr x), t) \<longrightarrow> Q x)"

lemma ensures_ret: "Q x \<Longrightarrow> ensures Q (io_ret x)"
  by (simp add: ensures_def)

lemma ensures_fail: "ensures Q (io_fail e)"
  by (simp add: ensures_def)

lemma ensures_case: "(\<And>r. ensures Q (k r)) \<Longrightarrow> ensures Q (io_case m k)"
  by (auto simp: ensures_def io_case_def split: prod.splits option.splits)

lemma ensures_bind: "(\<And>x. ensures Q (k x)) \<Longrightarrow> ensures Q (io_bind m k)"
  unfolding io_bind_def by (rule ensures_case) (auto intro: ensures_fail split: sum.split)

lemma safe_bind_post:
  assumes "safe m" "ensures Q m" "\<And>x. Q x \<Longrightarrow> safe (k x)"
  shows "safe (io_bind m k)"
proof (rule safeI)
  fix s assume s: "client_inv s"
  then obtain r t where run: "m s = (Some r, t)" and t: "client_inv t" "tidy s t"
    using assms(1) by (cases "m s") (auto simp: safe_def no_panic_def)
  have "no_panic (io_bind m k) s \<and> client_inv (snd (io_bind m k s)) \<and> tidy s (snd (io_bind m k s))"
  proof (cases r)
    case (Inl e)
    then show ?thesis using run t by (simp add: no_panic_def)
  next
    case (Inr x)
    then have "safe (k x)" using run assms(2,3) by (auto simp: ensures_def)
    then show ?thesis using run t Inr by (auto simp: no_panic_def safe_def intro: td.R_trans)
  qed
  then show "no_panic (io_bind m k) s" "client_inv (snd (io_bind m k s))" "tidy s (snd (io_bind m k s))" by simp_all
qed

lemma block_entries_total: "block_entries d off acc \<noteq> None"
proof (induction d off acc rule: block_entries.induct)
  case (1 d off acc)
  then show ?case
    by (subst block_entries.simps) (auto simp: u16_at_in idx_def Let_def simp del: not_None_eq)
qed

lemma ParseBlockListResponse_total: "ParseBlockListResponse d \<noteq> None"
  using block_entries_total by (simp add: ParseBlockListResponse_def)

lemma safe_ListBlocks: "frames_bounded E \<Longrightarrow> safe (ListBlocks E cx bt)"
  unfolding ListBlocks_def
  by (intro safe_bind safe_simps)
     (auto intro!: safe_bind safe_sendReceive safe_pure ParseSZLResponse_total ParseBlockListResponse_total)

lemma safe_ListAllBlocks: "frames_bounded E \<Longrightarrow> safe (ListAllBlocks E cx)"
proof -
  assume fb: "frames_bounded E"
  have "safe (list_types E cx types all' errs)" for types all' errs
  proof (induction types arbitrary: all' errs)
    case (Cons bt types)
    show ?case
      unfolding list_types.simps
      by (rule safe_case [OF safe_ListBlocks [OF fb]]) (auto intro: Cons split: sum.split)
  qed simp
  then show ?thesis by (simp add: ListAllBlocks_def)
qed

lemma safe_GetBlockInfo: "frames_bounded E \<Longrightarrow> safe (GetBlockInfo E cx bt num)"
  unfolding GetBlockInfo_def Let_def
  by (cases "check_block_number num")
     (auto intro!: safe_bind safe_sendReceive safe_pure safe_case ParseSZLResponse_total
        simp: ParseBlockInfoResponse_eq split: sum.split)

lemma safe_upload_attempts: "frames_bounded E \<Longrightarrow> safe (upload_attempts E cx sid i n lastErr)"
proof (induction n arbitrary: lastErr)
  case (Suc n)
  show ?case
    unfolding upload_attempts.simps Let_def
    by (intro safe_bind safe_simps)
       (auto intro!: safe_case safe_sendReceive safe_pure Suc simp: ParseUploadResponse_eq split: sum.split)
qed simp

lemma ensures_upload_attempts:
  "ensures (\<lambda>(chunk, lastErr'). lastErr' = None \<longrightarrow> chunk \<noteq> None \<or> n = 0 \<and> lastErr = None)
     (upload_attempts E cx sid i n lastErr)"
proof (induction n arbitrary: lastErr)
  case (Suc n)
  let ?Q = "\<lambda>(chunk, lastErr'). lastErr' = None \<longrightarrow> chunk \<noteq> None \<or> Suc n = 0 \<and> lastErr = None"
  have IH: "ensures ?Q (upload_attempts E cx sid i n (Some e))" for e
    using Suc [of "Some e"] unfolding ensures_def by fastforce
  show ?case
    unfolding upload_attempts.simps Let_def
    by (intro ensures_bind) (auto intro!: ensures_case ensures_ret ensures_fail IH IH [simplified] split: sum.split)
qed (auto simp: ensures_def)

lemma safe_upload_loop: "frames_bounded E \<Longrightarrow> safe (upload_loop E cx sid n i payload cc)"
proof (induction n arbitrary: i payload cc)
  case (Suc n)
  show ?case
    unfolding upload_loop.simps Let_def
    by (rule safe_bind_post [OF safe_upload_attempts ensures_upload_attempts])
       (use Suc in \<open>auto simp: maxUploadRetries_def split: option.split\<close>)
qed simp

lemma safe_log_ev: "safe (log_ev e)"
  by (rule safe_only_trace) (simp, rule only_trace_atoms(1))

lemma safe_if_logger: "safe m \<Longrightarrow> safe (\<lambda>s. if oLogger (clOpts s) then m s else io_ret () s)"
  by (simp add: safe_def no_panic_def td.R_refl)

lemma safe_upload_cleanup:
  assumes "frames_bounded E"
  shows "safe (upload_cleanup E sid)"
proof -
  have k: "safe (\<lambda>s. if oLogger (clOpts s) then
           (case r of
              Inl err \<Rightarrow> log_ev (EvLog ''upload cleanup: end-upload failed (best-effort): %v'') s
            | Inr _ \<Rightarrow> log_ev (EvLog ''upload cleanup: end-upload sent'') s)
         else io_ret () s)" for r :: "goerr + bytes \<times> bytes"
  proof (cases r)
    case (Inl e)
    show ?thesis unfolding Inl sum.case by (rule safe_if_logger [OF safe_log_ev])
  next
    case (Inr pd)
    show ?thesis unfolding Inr sum.case by (rule safe_if_logger [OF safe_log_ev])
  qed
  have "safe (io_bind nextPDURef (\<lambda>endRef.
       io_case (sendReceive E cx (EncodeEndUploadRequest endRef sid) endRef) (\<lambda>r s.
         if oLogger (clOpts s) then
           (case r of
              Inl err \<Rightarrow> log_ev (EvLog ''upload cleanup: end-upload failed (best-effort): %v'') s
            | Inr _ \<Rightarrow> log_ev (EvLog ''upload cleanup: end-upload sent'') s)
         else io_ret () s)))" for cx
    by (intro safe_bind safe_case safe_sendReceive assms k safe_simps)
  then show ?thesis
    unfolding safe_def no_panic_def upload_cleanup_def Let_def by blast
qed

lemma safe_defer: "safe f \<Longrightarrow> safe m \<Longrightarrow> safe (io_defer f m)"
  unfolding io_defer_def by (intro safe_case safe_bind safe_pure) auto

lemma safe_UploadBlock:
  assumes "frames_bounded E"
  shows "safe (UploadBlock E cx bt num)"
  unfolding UploadBlock_def
  by (cases "check_block_number num")
     (auto intro!: safe_bind safe_wrap safe_defer safe_sendReceive [OF assms] safe_pure
        safe_upload_cleanup [OF assms] safe_upload_loop [OF assms] simp: ParseStartUploadResponse_eq)

section \<open>A target that serves blocks\<close>

text \<open>
  The target has a directory \<open>dir\<close>: the segments of each block, by the code of its type and its
  number.  It reads the block from the file name of the start-upload request, an underscore, the
  character of the type code, five decimal digits, the file system \<open>A\<close> and a zero.
\<close>

definition decimal :: "bytes \<Rightarrow> nat" where
  "decimal ds = fold (\<lambda>d n. 10 * n + (unat d - 0x30)) ds 0"

definition file_name :: "bytes \<Rightarrow> (byte \<times> nat) option" where
  "file_name nm =
     (if length nm = 9 \<and> nm ! 0 = 0x5F \<and> list_all (\<lambda>d. 0x30 \<le> d \<and> d \<le> 0x39) (take 5 (drop 2 nm)) \<and>
         drop 7 nm = [0x41, 0]
      then Some (nm ! 1, decimal (take 5 (drop 2 nm))) else None)"

definition upload_step :: "(byte \<Rightarrow> nat \<Rightarrow> bytes list) \<Rightarrow> bytes \<Rightarrow> bytes list target" where
  \<comment> \<open>the state is the list of segments still to be sent; a start request selects the block, every
     later request of the transfer names the session \<open>sid\<close>\<close>
  "upload_step dir sid segs req =
     (let ref = take 2 (drop 4 req)
      in if req ! 10 = FuncUploadStart then
           (case file_name (drop 19 req) of
              None \<Rightarrow> (segs, [])
            | Some (type, num) \<Rightarrow>
                (dir type num,
                 ack_pdu ref ([FuncUploadStart, 0, 0, 0, 0, 0, 0, 0, of_nat (length sid)] @ sid) []))
         else if drop 19 req \<noteq> sid then (segs, [])
         else if req ! 10 = FuncUpload then
           (case segs of
              [] \<Rightarrow> (segs, [])
            | seg # rest \<Rightarrow>
                (rest, ack_pdu ref [FuncUpload, if rest = [] then 0 else 1]
                         ([0x00, 0xFB] @ put16 (of_nat (8 * length seg)) @ seg)))
         else if req ! 10 = FuncUploadEnd then (segs, ack_pdu ref [FuncUploadEnd] [])
         else (segs, []))"

lemma upload_request_list:
  assumes "length sid < 256"
  shows "\<exists>x y. upload_request func ref sid = [0x32, ROSCTRJob, 0, 0] @ put16 ref @
     [x, y, 0, 0, func, 0, 0, 0, 0, 0, 0, 0, of_nat (length sid)] @ sid"
  using assms by (auto simp: upload_request_def EncodeS7Header_list Let_def put16_def)

lemma upload_step_chunk:
  assumes "length sid < 256" "FuncUpload \<noteq> FuncUploadStart"
  shows "upload_step dir sid (seg # rest) (EncodeUploadRequest ref sid) =
    (rest, ack_pdu (put16 ref) [FuncUpload, if rest = [] then 0 else 1]
             ([0x00, 0xFB] @ put16 (of_nat (8 * length seg)) @ seg))"
proof -
  obtain x y where r: "EncodeUploadRequest ref sid = [0x32, ROSCTRJob, 0, 0] @ put16 ref @
     [x, y, 0, 0, FuncUpload, 0, 0, 0, 0, 0, 0, 0, of_nat (length sid)] @ sid"
    unfolding EncodeUploadRequest_def using upload_request_list [OF assms(1)] by blast
  show ?thesis
    unfolding r by (simp add: upload_step_def put16_def Let_def assms(2))
qed

lemma length_upload_request: "length sid < 256 \<Longrightarrow> length (upload_request func ref sid) = 19 + length sid"
  by (simp add: upload_request_def Let_def)

lemma ParseUploadResponse_segment:
  assumes "length seg < 8192"
  shows "ParseUploadResponse [FuncUpload, st] ([0x00, 0xFB] @ put16 (of_nat (8 * length seg)) @ seg) =
    Some (Inr \<lparr>ucDone = (st = 0), ucData = seg\<rparr>)"
proof -
  have "unat (of_nat (8 * length seg) :: uint16) = 8 * length seg"
    using assms by (subst unat_of_nat) simp
  then show ?thesis by (simp add: ParseUploadResponse_eq Let_def put16_def)
qed

lemma upload_attempts_serves:
  assumes "ctx_live cx" "answers E (upload_step dir sid) segs0" "client_inv s" "clConn s \<noteq> None"
    and "clPduSize s = 0 \<or> int (length sid) + 19 \<le> clPduSize s" "length sid < 256"
    and "state_of E (upload_step dir sid) segs0 s = seg # rest" "length seg < 8192"
  shows "\<exists>t. upload_attempts E cx sid i (Suc n) lastErr s =
      (Some (Inr (Some \<lparr>ucDone = (rest = []), ucData = seg\<rparr>, None)), t) \<and>
    same_session s t \<and> state_of E (upload_step dir sid) segs0 t = rest"
proof -
  obtain c where c: "clConn s = Some c" using assms(4) by auto
  have live: "ctx_check cx s = (Some (Inr ()), s)" using assms(1) by (simp add: ctx_check_def ctx_live_def)
  obtain ref u where u: "nextPDURef s = (Some (Inr ref), u)" "same_session s u" "client_inv u"
    "clConn u = clConn s" "clPduSize u = clPduSize s"
    "state_of E (upload_step dir sid) segs0 u = state_of E (upload_step dir sid) segs0 s"
    using draw_ref [OF assms(3), of E "upload_step dir sid" segs0] by metis
  let ?st = "if rest = [] then 0 else 1 :: byte"
  let ?data = "[0x00, 0xFB] @ put16 (of_nat (8 * length seg)) @ seg"
  have f: "FuncUpload \<noteq> FuncUploadStart" by (simp add: FuncUpload_def FuncUploadStart_def)
  have "length ([FuncUpload, ?st]) + length ?data < 65536" using assms(8) by simp
  from exchange [OF u(3) _ assms(1,2) _ _ ack_pdu_accepts [OF this, of ref], of c "EncodeUploadRequest ref sid" rest]
  obtain t where t: "sendReceive E cx (EncodeUploadRequest ref sid) ref u =
      (Some (Inr ([FuncUpload, ?st], ?data)), t)" "same_session u t"
    "state_of E (upload_step dir sid) segs0 t = rest"
    using u c assms(5-7) upload_step_chunk [OF assms(6) f, of dir seg rest ref]
    by (auto simp: EncodeUploadRequest_def length_upload_request)
  have "upload_attempts E cx sid i (Suc n) lastErr s =
      (Some (Inr (Some \<lparr>ucDone = (rest = []), ucData = seg\<rparr>, None)), t)"
    using live u(1) t(1) ParseUploadResponse_segment [OF assms(8), of ?st]
    by (simp add: io_case_def del: nextPDURef_run append.simps)
  then show ?thesis using ss.R_trans [OF u(2) t(2)] t(3) by blast
qed

lemma upload_loop_serves:
  assumes "ctx_live cx" "answers E (upload_step dir sid) segs0" "length sid < 256"
  shows "client_inv s \<Longrightarrow> clConn s \<noteq> None \<Longrightarrow> clPduSize s = 0 \<or> int (length sid) + 19 \<le> clPduSize s \<Longrightarrow>
    state_of E (upload_step dir sid) segs0 s = segs \<Longrightarrow> segs \<noteq> [] \<Longrightarrow> length segs \<le> n \<Longrightarrow>
    list_all (\<lambda>seg. length seg < 8192) segs \<Longrightarrow>
    \<exists>cc' t. upload_loop E cx sid n i payload cc s = (Some (Inr (True, payload @ concat segs, cc')), t) \<and>
      same_session s t"
proof (induction n arbitrary: i payload cc s segs)
  case (Suc n)
  obtain seg rest where segs: "segs = seg # rest" using Suc.prems(5) by (cases segs) auto
  obtain t where t: "upload_attempts E cx sid i maxUploadRetries None s =
      (Some (Inr (Some \<lparr>ucDone = (rest = []), ucData = seg\<rparr>, None)), t)" "same_session s t"
    "state_of E (upload_step dir sid) segs0 t = rest"
    using upload_attempts_serves [OF assms(1,2) Suc.prems(1-3) assms(3), of seg rest i 2 None] Suc.prems(4,7) segs
    unfolding maxUploadRetries_def by (auto simp: numeral_3_eq_3)
  define pl where "pl = payload @ seg"
  define cc2 where "cc2 = (if length seg > 0 then cc + 1 else cc)"
  have step: "upload_loop E cx sid (Suc n) i payload cc s =
      (if rest = [] then (Some (Inr (True, pl, cc2)), t) else upload_loop E cx sid n (i + 1) pl cc2 t)"
    using t(1) by (auto simp: Let_def pl_def cc2_def)
  show ?case
  proof (cases "rest = []")
    case True
    then show ?thesis using step t(2) segs by (auto simp: pl_def)
  next
    case False
    have inv: "client_inv t" by (rule same_session_inv [OF t(2) Suc.prems(1)])
    obtain cc' t' where "upload_loop E cx sid n (i + 1) pl cc2 t = (Some (Inr (True, pl @ concat rest, cc')), t')"
      "same_session t t'"
      using Suc.IH [OF inv _ _ t(3) False, of "i + 1" pl cc2] Suc.prems(2,3,6,7) segs
      by (auto simp: same_session_sel [OF t(2)])
    then show ?thesis using step False segs ss.R_trans [OF t(2)] by (auto simp: pl_def)
  qed
qed simp

lemma EncodeStartUploadRequest_list:
  "EncodeStartUploadRequest ref bt num = [0x32, ROSCTRJob, 0, 0] @ put16 ref @
     [0, 18, 0, 0, FuncUploadStart, 0, 0, 0, 0, 0, 0, 0, 9] @ [0x5F, upload_type_char bt] @
     [num_digit num 10000, num_digit num 1000, num_digit num 100, num_digit num 10, num_digit num 1] @ [0x41, 0]"
  by (simp add: EncodeStartUploadRequest_def EncodeS7Header_list Let_def put16_def)

lemma num_digit_unat:
  assumes "0 < d"
  shows "unat (num_digit (int n) (int d)) = 0x30 + n div d mod 10"
proof -
  have "go_rem (go_div (int n) (int d)) 10 = int (n div d mod 10)"
    using assms by (simp add: go_div_nonneg go_rem_nonneg pos_imp_zdiv_nonneg_iff zdiv_int zmod_int)
  then have e: "num_digit (int n) (int d) = word_of_nat (0x30 + n div d mod 10)"
    by (simp add: num_digit_def)
  have "n div d mod 10 < 10" by simp
  then have "0x30 + n div d mod 10 < 256" by linarith
  then show ?thesis unfolding e by (simp add: unat_of_nat del: of_nat_add of_nat_numeral)
qed

lemma decimal_digits:
  assumes "n < 100000"
  shows "10 * (10 * (10 * (10 * (n div 10000 mod 10) + n div 1000 mod 10) + n div 100 mod 10) +
    n div 10 mod 10) + n mod 10 = (n :: nat)"
proof -
  have step: "10 * (n div (10 * d)) + n div d mod 10 = n div d" for d
    using mult_div_mod_eq [of 10 "n div d"] by (simp add: div_mult2_eq mult.commute)
  have "n div 10000 mod 10 = n div 10000" using assms by (intro mod_less) (simp add: div_less_iff_less_mult)
  then show ?thesis using step [of 1000] step [of 100] step [of 10] step [of 1] by simp
qed

lemma file_name_request:
  assumes "0 \<le> num" "num \<le> 65535"
  shows "file_name (drop 19 (EncodeStartUploadRequest ref bt num)) = Some (upload_type_char bt, nat num)"
proof -
  obtain n where n: "num = int n" "n < 100000" using assms zero_le_imp_eq_int by fastforce
  have digit: "unat (num_digit num (int d)) = 0x30 + n div d mod 10" if "0 < d" for d
    using num_digit_unat [OF that, of n] n(1) by simp
  have range: "0x30 \<le> num_digit num (int d) \<and> num_digit num (int d) \<le> 0x39" if "0 < d" for d
    using digit [OF that] mod_less_divisor [of 10 "n div d"] by (simp add: word_le_nat_alt del: mod_less_divisor)
  have "decimal [num_digit num 10000, num_digit num 1000, num_digit num 100, num_digit num 10, num_digit num 1] = n"
    using digit [of 10000] digit [of 1000] digit [of 100] digit [of 10] digit [of 1] decimal_digits [OF n(2)]
    by (simp add: decimal_def)
  then show ?thesis
    using range [of 10000] range [of 1000] range [of 100] range [of 10] range [of 1] n(1)
    by (simp add: EncodeStartUploadRequest_list put16_def file_name_def)
qed

lemma ParseStartUploadResponse_sid:
  assumes "sid \<noteq> []" "length sid < 256" "TrimSpace sid = sid"
  shows "ParseStartUploadResponse ([FuncUploadStart, 0, 0, 0, 0, 0, 0, 0, of_nat (length sid)] @ sid) =
    Some (Inr sid)"
proof -
  have "unat (of_nat (length sid) :: byte) = length sid" using assms(2) by (subst unat_of_nat) simp
  then show ?thesis using assms(1,3) by (simp add: ParseStartUploadResponse_eq)
qed

lemma io_defer_run:
  assumes "m s = (Some r, t)" "safe f" "yields Q f" "client_inv t"
  shows "\<exists>u. io_defer f m s = (Some r, u) \<and> client_inv u"
proof -
  obtain r' u where f: "f t = (Some r', u)" "client_inv u"
    using assms(2,4) by (cases "f t") (auto simp: safe_def no_panic_def)
  then obtain x where "r' = Inr x" using assms(3) unfolding yields_def by blast
  then show ?thesis using assms(1) f by (simp add: io_defer_def io_case_def)
qed

lemma yields_upload_cleanup: "yields (\<lambda>_. True) (upload_cleanup E sid)"
proof -
  have k: "yields (\<lambda>_. True) (\<lambda>s. if oLogger (clOpts s) then
           (case r of
              Inl err \<Rightarrow> log_ev (EvLog ''upload cleanup: end-upload failed (best-effort): %v'') s
            | Inr _ \<Rightarrow> log_ev (EvLog ''upload cleanup: end-upload sent'') s)
         else io_ret () s)" for r :: "goerr + bytes \<times> bytes"
    by (auto simp: yields_def split: sum.splits if_splits)
  have "yields (\<lambda>_. True) (io_bind nextPDURef (\<lambda>endRef.
       io_case (sendReceive E cx (EncodeEndUploadRequest endRef sid) endRef) (\<lambda>r s.
         if oLogger (clOpts s) then
           (case r of
              Inl err \<Rightarrow> log_ev (EvLog ''upload cleanup: end-upload failed (best-effort): %v'') s
            | Inr _ \<Rightarrow> log_ev (EvLog ''upload cleanup: end-upload sent'') s)
         else io_ret () s)))" for cx
    by (intro yields_bind [OF yields_pduRef] yields_case k)
  then show ?thesis unfolding yields_def upload_cleanup_def Let_def by blast
qed

lemma UploadBlock_serves:
  assumes "ctx_live cx" "answers E (upload_step dir sid) st0" "frames_bounded E"
    and "client_inv s" "clConn s \<noteq> None" "segs = dir (upload_type_char bt) (nat num)"
    and "clPduSize s = 0 \<or> 28 \<le> clPduSize s \<and> int (length sid) + 19 \<le> clPduSize s"
    and "sid \<noteq> []" "length sid < 256" "TrimSpace sid = sid"
    and "concat segs \<noteq> []" "length segs \<le> 4096" "list_all (\<lambda>seg. length seg < 8192) segs"
    and "0 \<le> num" "num \<le> 65535"
  shows "\<exists>t. UploadBlock E cx bt num s =
      (Some (Inr \<lparr>bdInfo = zero_BlockInfo\<lparr>biType := bt, biNumber := num\<rparr>, bdData = concat segs\<rparr>), t) \<and>
    client_inv t"
proof -
  obtain c where c: "clConn s = Some c" using assms(5) by auto
  obtain ref u where u: "nextPDURef s = (Some (Inr ref), u)" "same_session s u" "client_inv u"
    "clConn u = clConn s" "clPduSize u = clPduSize s"
    "state_of E (upload_step dir sid) st0 u = state_of E (upload_step dir sid) st0 s"
    using draw_ref [OF assms(4), of E "upload_step dir sid" st0] by metis
  let ?req = "EncodeStartUploadRequest ref bt num"
  let ?param = "[FuncUploadStart, 0, 0, 0, 0, 0, 0, 0, of_nat (length sid)] @ sid"
  have stp: "upload_step dir sid st ?req = (segs, ack_pdu (put16 ref) ?param [])" for st
    using file_name_request [OF assms(14,15), of ref bt] assms(6)
    by (simp add: upload_step_def Let_def) (simp add: EncodeStartUploadRequest_list put16_def)
  have len: "length ?req = 28" by (simp add: EncodeStartUploadRequest_list)
  have "length ?param + length ([] :: bytes) < 65536" using assms(9) by simp
  from exchange [OF u(3) _ assms(1,2) _ _ ack_pdu_accepts [OF this, of ref], of c ?req segs]
  obtain v where v: "sendReceive E cx ?req ref u = (Some (Inr (?param, [])), v)" "same_session u v"
    "state_of E (upload_step dir sid) st0 v = segs"
    using u c assms(7) stp len by auto
  have sv: "same_session s v" using ss.R_trans [OF u(2) v(2)] .
  have inv: "client_inv v" by (rule same_session_inv [OF sv assms(4)])
  have ne: "segs \<noteq> []" using assms(11) by auto
  obtain cc w where w: "upload_loop E cx sid maxUploadChunks 0 [] 0 v = (Some (Inr (True, concat segs, cc)), w)"
    "same_session v w"
    using upload_loop_serves [OF assms(1,2,9) inv _ _ v(3) ne, of maxUploadChunks 0 "[]" 0] assms(5,7,12,13)
    by (auto simp: same_session_sel [OF sv] maxUploadChunks_def)
  let ?m = "io_bind (upload_loop E cx sid maxUploadChunks 0 [] 0) (\<lambda>r. io_pure (Some (upload_result bt num r)))"
  have m: "?m v = (Some (Inr \<lparr>bdInfo = zero_BlockInfo\<lparr>biType := bt, biNumber := num\<rparr>, bdData = concat segs\<rparr>), w)"
    using w(1) assms(11) by (simp add: upload_result_def)
  obtain t where "io_defer (upload_cleanup E sid) ?m v =
      (Some (Inr \<lparr>bdInfo = zero_BlockInfo\<lparr>biType := bt, biNumber := num\<rparr>, bdData = concat segs\<rparr>), t)" "client_inv t"
    using io_defer_run [where m = ?m and s = v, OF m safe_upload_cleanup [OF assms(3)] yields_upload_cleanup same_session_inv [OF w(2) inv]]
    by blast
  moreover have "check_block_number num = None" using assms(14,15) by (simp add: check_block_number_def)
  ultimately show ?thesis
    using u(1) v(1) ParseStartUploadResponse_sid [OF assms(8-10)]
    by (simp add: UploadBlock_def io_wrap_run del: nextPDURef_run append.simps)
qed

section \<open>Block lists\<close>

definition block_list_index :: "BlockType \<Rightarrow> uint16" where
  "block_list_index bt =
     (if bt = BlockOB then 1 else if bt = BlockDB then 2 else if bt = BlockSDB then 3
      else if bt = BlockFC then 4 else if bt = BlockSFC then 5 else if bt = BlockFB then 6
      else if bt = BlockSFB then 7 else 0)"

lemma EncodeBlockListRequest_eq:
  "EncodeBlockListRequest ref bt = EncodeSZLRequest ref SZLBlockList (block_list_index bt)"
  by (simp add: EncodeBlockListRequest_def block_list_index_def block_defs blocktype_defs Let_def)

lemma ListBlocks_szl:
  "ListBlocks E cx bt = io_bind (szl_exchange E cx SZLBlockList (block_list_index bt)) (\<lambda>d.
     io_bind (io_pure (ParseBlockListResponse d)) (\<lambda>entries. io_ret (map block_of_entry entries)))"
  by (auto simp: ListBlocks_def szl_exchange_def szl_read_def EncodeBlockListRequest_eq fun_eq_iff io_defs
      split: prod.split option.split sum.split)

lemma ListBlocks_answers:
  assumes "ctx_live cx" "answers E szl_step f" "client_inv s" "clConn s \<noteq> None"
    and "clPduSize s = 0 \<or> 26 \<le> clPduSize s"
    and "f SZLBlockList (block_list_index bt) = concat (map entry_bytes es)" "list_all entry_wf es"
    and "length es < 16000"
  shows "\<exists>t. ListBlocks E cx bt s = (Some (Inr (map block_of_entry es)), t) \<and> same_session s t"
proof -
  have "length (concat (map entry_bytes es)) = 4 * length es" by (induction es) simp_all
  then have len: "length (f SZLBlockList (block_list_index bt)) < 65500"
    "length (concat (map entry_bytes es)) mod 4 = 0" using assms(6,8) by simp_all
  obtain t where t: "szl_exchange E cx SZLBlockList (block_list_index bt) s =
      (Some (Inr (concat (map entry_bytes es))), t)" "same_session s t"
    using szl_exchange_answers [OF assms(1-5) len(1)] assms(6) by auto
  have "ParseBlockListResponse (concat (map entry_bytes es)) = Some (Inr es)"
    using block_entries_encode [OF assms(7), of "[]" "[]"] len(2) by (simp add: ParseBlockListResponse_def)
  then show ?thesis using t by (auto simp: ListBlocks_szl)
qed

section \<open>Requests that coincide\<close>

text \<open>
  The index of a block-information request has the type byte joined with the upper byte of the
  number, and the lower byte of the number; two blocks with the same bytes cannot be told apart.
\<close>

lemma block_index_bytes:
  fixes bt :: byte
  shows "(push_bit 8 (ucast bt) OR word_of_int num :: uint16) =
     push_bit 8 (ucast (bt OR word_of_int (num div 256))) OR ucast (word_of_int (num mod 256) :: byte)"
  (is "?l = ?r")
proof (rule bit_word_eqI)
  fix n assume n: "n < LENGTH(16)"
  have "bit (num div 256) m \<longleftrightarrow> bit num (8 + m)" "bit (num mod 256) m \<longleftrightarrow> m < 8 \<and> bit num m" for m
    using bit_drop_bit_eq [of 8 num] bit_take_bit_iff [of 8 num m]
    by (simp_all add: drop_bit_eq_div take_bit_eq_mod)
  then show "bit ?l n = bit ?r n" using n by (auto simp: bit_simps)
qed

lemma GetBlockInfo_coincide:
  assumes "0 \<le> m" "m \<le> 65535" "0 \<le> n" "n \<le> 65535" "m mod 256 = n mod 256"
    and "bt OR word_of_int (m div 256) = bt' OR word_of_int (n div 256)"
  shows "GetBlockInfo E cx bt' n s =
    apfst (map_option (map_sum id (apfst (\<lambda>i. i\<lparr>biType := bt', biNumber := n\<rparr>)))) (GetBlockInfo E cx bt m s)"
proof -
  have "(push_bit 8 (ucast bt) OR word_of_int m :: uint16) = push_bit 8 (ucast bt') OR word_of_int n"
    unfolding block_index_bytes [of _ m] block_index_bytes [of _ n] assms(5,6) ..
  then show ?thesis
    using assms(1-4)
    by (auto simp: GetBlockInfo_def check_block_number_def io_defs Let_def split: prod.split option.split sum.split)
qed

lemma UploadBlock_SDB:
  "UploadBlock E cx BlockSDB num s =
     apfst (map_option (map_sum id (\<lambda>d. d\<lparr>bdInfo := (bdInfo d)\<lparr>biType := BlockSDB\<rparr>\<rparr>)))
       (UploadBlock E cx BlockDB num s)"
proof -
  have "EncodeStartUploadRequest ref BlockSDB num = EncodeStartUploadRequest ref BlockDB num" for ref
    by (simp add: EncodeStartUploadRequest_def upload_type_char_def blocktype_defs block_defs)
  then show ?thesis
    by (auto simp: UploadBlock_def io_defer_def upload_result_def io_defs split: prod.split option.split sum.split)
qed

lemma GetBlockInfo_answers:
  assumes "ctx_live cx" "answers E szl_step f" "client_inv s" "clConn s \<noteq> None"
    and "clPduSize s = 0 \<or> 26 \<le> clPduSize s" "0 \<le> num" "num \<le> 65535"
    and "d = f SZLBlockInfo (push_bit 8 (ucast bt) OR word_of_int num)" "6 \<le> length d" "length d < 65500"
  shows "\<exists>t. GetBlockInfo E cx bt num s =
    (Some (Inr (zero_BlockInfo\<lparr>biType := bt, biNumber := num, biLoadMemory := uint (be16 (d ! 0) (d ! 1)),
       biLocalData := uint (be16 (d ! 2) (d ! 3)), biMC7Size := uint (be16 (d ! 4) (d ! 5))\<rparr>, None)), t)"
proof -
  let ?x = "push_bit 8 (ucast bt) OR word_of_int num :: uint16"
  obtain t where "szl_read E cx SZLBlockInfo ?x s = (Some (Inr (d, env_room E (w_trace t))), t)"
    using szl_read_answers [OF assms(1-5), of SZLBlockInfo ?x] assms(8,10) by blast
  then show ?thesis
    using assms(6,7,9) ParseBlockInfoResponse_eq [of d]
    by (auto simp: GetBlockInfo_def check_block_number_def szl_read_def Let_def io_defs
        split: prod.splits option.splits sum.splits)
qed

end
