(* ===== verification/Connect_Live.thy ===== *)
theory Connect_Live
  imports Target
begin

text \<open>
  Connecting succeeds.  A peer with \<open>greets\<close> accepts the TCP connection and answers the COTP
  connection request; with a target that acknowledges the Setup Communication request, the
  handshake, \<open>connectOnce\<close> and \<open>Connect\<close> complete, and the client holds what was negotiated.
\<close>

section \<open>The handshake\<close>

definition greets :: "env \<Rightarrow> bool" where
  \<comment> \<open>the peer takes the call: it can be dialled and confirms every connection request\<close>
  "greets E \<longleftrightarrow> (\<forall>tr a t. env_dial E tr a t = None) \<and>
     (\<forall>l r. \<exists>cr. EncodeCOTPCR (env_cotp E) l r = Inr cr \<and> \<not> is_dt (env_cotp E) cr \<and>
        (\<forall>tr k frames. tx_of tr = frames @ [(k, cr)] \<longrightarrow>
           (\<exists>resp dec. env_read E tr k = Inr resp \<and> cotp_Decode (env_cotp E) resp = Inr dec \<and>
              decType dec = cotp_TypeCC (env_cotp E))))"

lemma SendContext_ReceiveContext:
  assumes "tConn (w_conns s c) = Some sock" "conn_wf (w_conns s c)" "ctx_live cx"
    and "\<And>tr k. env_set_deadline E tr k = None" "\<And>tr k d. env_write E tr k d = None"
    and "\<And>tr. tx_of tr = tx_of (w_trace s) @ [(sock, d)] \<Longrightarrow> \<exists>p. env_read E tr sock = Inr p \<and> Q p"
  shows "\<exists>e1 e2 p. SendContext E c cx d s = (Some (Inr ()), grow s e1) \<and>
    ReceiveContext E c cx (grow s e1) = (Some (Inr p), grow (grow s e1) e2) \<and>
    tx_of (e1 @ e2) = [(sock, d)] \<and> Q p"
proof -
  obtain e1 where send: "SendContext E c cx d s = (Some (Inr ()), grow s e1)" "tx_of e1 = [(sock, d)]"
    using SendContext_live [OF assms(1-5)] by blast
  let ?dl = "EvReadDeadline sock (io_deadline (env_now E (w_trace s @ e1)) (tTimeout (w_conns s c)) (ctx_deadline cx))"
  obtain p where p: "env_read E ((w_trace s @ e1) @ [?dl]) sock = Inr p" "Q p"
    using assms(6) [of "(w_trace s @ e1) @ [?dl]"] send(2) by auto
  have "ReceiveContext E c cx (grow s e1) = (Some (Inr p), grow (grow s e1) ([?dl, EvRX sock] @
      (if tTracer (w_conns s c) then [EvTrace ''RX'' p] else [])))"
    using assms(1-4) p(1) by (simp add: ReceiveContext_def setReadDeadline_def Let_def ctx_check_def
        tracer_Trace_def ReadFrame_def conn_wf_def ctx_live_def io_wrap_run)
  then show ?thesis using send p(2)
    by (intro exI [of _ e1] exI [of _ "[?dl, EvRX sock] @ (if tTracer (w_conns s c) then [EvTrace ''RX'' p] else [])"]
        exI [of _ p]) simp
qed

lemma performCOTPConnect_live:
  assumes "tConn (w_conns s c) = Some sock" "conn_wf (w_conns s c)" "ctx_live cx"
    and "answers E step st0" "greets E"
  shows "\<exists>evs. performCOTPConnect E cx c l r s = (Some (Inr ()), grow s evs) \<and>
    state_of E step st0 (grow s evs) = state_of E step st0 s"
proof -
  let ?C = "env_cotp E"
  have sv: "env_set_deadline E tr k = None" "env_write E tr k d = None" for tr k d
    using assms(4) by (simp_all add: answers_def)
  obtain cr where cr: "EncodeCOTPCR ?C l r = Inr cr" "\<not> is_dt ?C cr"
    "\<And>tr k frames. tx_of tr = frames @ [(k, cr)] \<Longrightarrow>
       \<exists>resp. env_read E tr k = Inr resp \<and> (\<exists>dec. cotp_Decode ?C resp = Inr dec \<and> decType dec = cotp_TypeCC ?C)"
    using assms(5) unfolding greets_def by meson
  obtain e1 e2 resp where x: "SendContext E c cx cr s = (Some (Inr ()), grow s e1)"
    "ReceiveContext E c cx (grow s e1) = (Some (Inr resp), grow (grow s e1) e2)"
    "tx_of (e1 @ e2) = [(sock, cr)]"
    "\<exists>dec. cotp_Decode ?C resp = Inr dec \<and> decType dec = cotp_TypeCC ?C"
    using SendContext_ReceiveContext [OF assms(1-3) sv, of cr
        "\<lambda>resp. \<exists>dec. cotp_Decode ?C resp = Inr dec \<and> decType dec = cotp_TypeCC ?C"] cr(3) by blast
  have "performCOTPConnect E cx c l r s = (Some (Inr ()), grow (grow s e1) e2)"
    using x(1,2,4) cr(1) assms(3)
    by (auto simp: performCOTPConnect_def ctx_check_def ctx_live_def io_wrap_run)
  moreover have "state_of E step st0 (grow s (e1 @ e2)) = state_of E step st0 s"
    using x(3) cr(2) by (simp add: state_of_def target_state_snoc)
  ultimately show ?thesis by (intro exI [of _ "e1 @ e2"]) simp
qed

definition grants :: "'st target \<Rightarrow> 'st \<Rightarrow> bytes \<Rightarrow> uint16 \<Rightarrow> SetupCommResponse \<Rightarrow> bool" where
  \<comment> \<open>the target acknowledges the set-up request with these limits and keeps its state\<close>
  "grants step st req ref su \<longleftrightarrow> (\<exists>param. length param < 65536 \<and>
     step st req = (st, ack_pdu (put16 ref) param []) \<and> ParseSetupCommResponse param = Some (Inr su))"

lemma setup_reply_ack:
  assumes "cotp_Decode C resp = Inr dec" "decDT dec = Some d" "dtUserData d = ack_pdu (put16 ref) param []"
    and "ParseSetupCommResponse param = Some (Inr su)" "length param < 65536"
  shows "setup_reply C ref resp = Some (Inr su)"
proof -
  obtain h where h: "ParseS7Header (ack_pdu (put16 ref) param []) = Some (Inr (h, param @ []))"
    "hPDURef h = ref" "hErrorClass h = 0" "hErrorCode h = 0"
    using ack_pdu_header [of param "[]" ref] assms(5) by (metis add.right_neutral list.size(3))
  have "param ! 0 = FuncSetupComm" using assms(4) by (auto simp: ParseSetupCommResponse_eq split: if_splits)
  then show ?thesis
    using assms(1-4) h by (simp add: setup_reply_def idx_def)
qed

lemma performS7Setup_live:
  assumes "tConn (w_conns s c) = Some sock" "conn_wf (w_conns s c)" "ctx_live cx" "answers E step st0"
    and "grants step (state_of E step st0 s) (EncodeSetupCommRequest ref a b p) ref su"
  shows "\<exists>evs. performS7Setup E cx c ref a b p s = (Some (Inr su), grow s evs) \<and>
    state_of E step st0 (grow s evs) = state_of E step st0 s"
proof -
  let ?C = "env_cotp E" and ?req = "EncodeSetupCommRequest ref a b p"
  obtain param where g: "length param < 65536" "step (state_of E step st0 s) ?req =
      (state_of E step st0 s, ack_pdu (put16 ref) param [])" "ParseSetupCommResponse param = Some (Inr su)"
    using assms(5) by (auto simp: grants_def)
  have sv: "cotp_faithful ?C" "env_set_deadline E tr k = None" "env_write E tr k d = None" for tr k d
    using assms(4) by (simp_all add: answers_def)
  obtain dt where dt: "EncodeCOTPDT ?C ?req = Inr dt" "user_of ?C dt = ?req" "is_dt ?C dt"
    using sv(1) by (rule cotp_faithful_dt)
  obtain resp dec d where resp: "EncodeCOTPDT ?C (ack_pdu (put16 ref) param []) = Inr resp"
    "cotp_Decode ?C resp = Inr dec" "decDT dec = Some d" "dtUserData d = ack_pdu (put16 ref) param []"
    using sv(1) unfolding cotp_faithful_def by blast
  have rd: "\<exists>p. env_read E tr sock = Inr p \<and> p = resp" if "tx_of tr = tx_of (w_trace s) @ [(sock, dt)]" for tr
    using assms(4) that dt g(2) resp(1) unfolding answers_def by (fastforce simp: state_of_def)
  obtain e1 e2 where x: "SendContext E c cx dt s = (Some (Inr ()), grow s e1)"
    "ReceiveContext E c cx (grow s e1) = (Some (Inr resp), grow (grow s e1) e2)" "tx_of (e1 @ e2) = [(sock, dt)]"
    using SendContext_ReceiveContext [OF assms(1-3) sv(2,3), of dt "\<lambda>p. p = resp", OF rd] by blast
  have "setup_reply ?C ref resp = Some (Inr su)"
    using resp(2-4) g(3) by (rule setup_reply_ack) (simp add: g(1))
  then have "performS7Setup E cx c ref a b p s = (Some (Inr su), grow (grow s e1) e2)"
    using x(1,2) dt(1) assms(3) by (simp add: performS7Setup_def ctx_check_def ctx_live_def io_wrap_run Let_def)
  moreover have "state_of E step st0 (grow s (e1 @ e2)) = state_of E step st0 s"
    using x(3) dt(2,3) g(2) by (simp add: state_of_def target_state_snoc)
  ultimately show ?thesis by (intro exI [of _ "e1 @ e2"]) simp
qed

section \<open>Connect\<close>

lemma transport_Close_state: "state_of E step st0 (snd (transport_Close E' c s)) = state_of E step st0 s"
  by (cases "tConn (w_conns s c)") (simp_all add: transport_Close_def state_of_def Let_def)

lemma connectOnce_live:
  assumes "client_inv s" "ctx_live cx" "answers E step st0" "greets E"
    and "connect_TSAPs (clOpts s) rack slot = Inr (l, r)"
    and "grants step (state_of E step st0 s) (EncodeSetupCommRequest 1 (oMaxAmqCalling (clOpts s))
      (oMaxAmqCalled (clOpts s)) (oMaxPDU (clOpts s))) 1 su"
  shows "\<exists>t. connectOnce E cx rack slot s = (Some (Inr ()), t) \<and> clPduSize t = scPDUSize su \<and>
    clOpts t = clOpts s \<and> state_of E step st0 t = state_of E step st0 s"
proof -
  let ?o = "clOpts s" and ?p = "w_next s"
  let ?addr = "JoinHostPort (clHost s) (fmt_d (oPort ?o))"
  let ?s1 = "s\<lparr>w_trace := w_trace s @ [EvDial ?addr],
    w_conns := (w_conns s)(?p := transport_New ?p (oTimeout ?o)), w_next := ?p + 1\<rparr>"
  have dial: "dialTransport E cx ?addr (oTimeout ?o) s = (Some (Inr ?p), ?s1)"
    using assms(4) by (simp add: dialTransport_def greets_def Let_def)
  have c1: "tConn (w_conns ?s1 ?p) = Some ?p" "conn_wf (w_conns ?s1 ?p)"
    by (simp_all add: transport_New_def conn_wf_def)
  have st1: "state_of E step st0 ?s1 = state_of E step st0 s" by (simp add: state_of_def)
  obtain e2 where s2: "performCOTPConnect E cx ?p l r ?s1 = (Some (Inr ()), grow ?s1 e2)"
    "state_of E step st0 (grow ?s1 e2) = state_of E step st0 s"
    using performCOTPConnect_live [OF c1 assms(2-4), of l r] unfolding st1 by blast
  let ?s2 = "grow ?s1 e2"
  have c2: "tConn (w_conns ?s2 ?p) = Some ?p" "conn_wf (w_conns ?s2 ?p)" using c1 by simp_all
  obtain e3 where s3: "performS7Setup E cx ?p 1 (oMaxAmqCalling ?o) (oMaxAmqCalled ?o) (oMaxPDU ?o) ?s2 =
      (Some (Inr su), grow ?s2 e3)" "state_of E step st0 (grow ?s2 e3) = state_of E step st0 s"
    using performS7Setup_live [OF c2 assms(2,3) assms(6) [folded s2(2)]] unfolding s2(2) by blast
  let ?u = "install_session ?p rack slot l r su (grow ?s2 e3)"
  have u: "state_of E step st0 ?u = state_of E step st0 s" "clPduSize ?u = scPDUSize su" "clOpts ?u = ?o"
    using s3(2) by (simp_all add: state_of_def install_session_def)
  let ?t = "case clConn s of None \<Rightarrow> ?u | Some old \<Rightarrow> snd (transport_Close E old ?u)"
  have "connectOnce E cx rack slot s = (Some (Inr ()), ?t)"
    unfolding connectOnce_def Let_def
    using dial s2(1) s3(1) assms(5) transport_Close_total [of E _ ?u]
    by (auto simp: io_case_def split: option.split prod.split)
  moreover have "state_of E step st0 ?t = state_of E step st0 s" "clPduSize ?t = scPDUSize su" "clOpts ?t = ?o"
    using u by (simp_all add: transport_Close_state transport_Close_frame split: option.split)
  ultimately show ?thesis by blast
qed

definition first_choice :: "options \<Rightarrow> int \<times> int" where
  \<comment> \<open>the rack and slot that \<open>Connect\<close> tries first\<close>
  "first_choice opts =
     (if oAutoRackSlot opts \<and> \<not> oUseExplicit opts
      then (if oBruteRackSlot opts then hd brute_pairs else hd common_pairs)
      else (oRack opts, oSlot opts))"

lemma connect_TSAPs_first:
  assumes "validate_connect opts = None"
  obtains l r where "connect_TSAPs opts (fst (first_choice opts)) (snd (first_choice opts)) = Inr (l, r)"
proof -
  have *: "0 \<le> fst (first_choice opts) \<and> fst (first_choice opts) \<le> 7 \<and> 0 \<le> snd (first_choice opts) \<and>
      snd (first_choice opts) \<le> 31" if "\<not> oUseExplicit opts"
    using assms that
    by (auto simp: first_choice_def validate_connect_def ValidateRackSlot_None_iff brute_pairs_def common_pairs_def
        split: if_splits)
  obtain l where "BuildTSAP 1 0 0 = Inr l" using BuildTSAP_Inr_iff [of 1 0 0] by auto
  moreover obtain r where "\<not> oUseExplicit opts \<Longrightarrow>
      BuildTSAP 3 (fst (first_choice opts)) (snd (first_choice opts)) = Inr r"
    using * BuildTSAP_Inr_iff [of 3 "fst (first_choice opts)" "snd (first_choice opts)"] by metis
  ultimately show ?thesis using that by (cases "oUseExplicit opts") (auto simp: connect_TSAPs_def)
qed

lemma Connect_live:
  assumes "client_inv s" "ctx_live cx" "answers E step st0" "greets E"
    and "validate_connect (clOpts s) = None"
    and "grants step (state_of E step st0 s) (EncodeSetupCommRequest 1 (oMaxAmqCalling (clOpts s))
      (oMaxAmqCalled (clOpts s)) (oMaxPDU (clOpts s))) 1 su"
  shows "\<exists>t. Connect E cx s = (Some (Inr ()), t) \<and> client_inv t \<and> clConn t = Some (w_next s) \<and>
    (clRack t, clSlot t) = first_choice (clOpts s) \<and> clPduSize t = scPDUSize su \<and>
    clOpts t = clOpts s \<and> state_of E step st0 t = state_of E step st0 s"
proof -
  let ?o = "clOpts s"
  obtain rack slot where rs: "first_choice ?o = (rack, slot)" by (cases "first_choice ?o")
  obtain l r where "connect_TSAPs ?o rack slot = Inr (l, r)"
    using connect_TSAPs_first [OF assms(5)] rs by auto
  from connectOnce_live [OF assms(1-4) this assms(6)]
  obtain t where t: "connectOnce E cx rack slot s = (Some (Inr ()), t)" "clPduSize t = scPDUSize su"
    "clOpts t = ?o" "state_of E step st0 t = state_of E step st0 s" by blast
  note ok = connectOnce_success [OF assms(1) t(1)]
  have "ctx_check cx s = (Some (Inr ()), s)" using assms(2) by (simp add: ctx_check_def ctx_live_def)
  then have "Connect E cx s = (Some (Inr ()), t)"
    using assms(5) t(1) rs
    by (auto simp: Connect_def Let_def log_connect_error_def io_case_def first_choice_def autoConnect_def
        brute_pairs_def common_pairs_def split: if_splits)
  then show ?thesis using t(2-4) ok(1-4) rs by auto
qed

end
