(* ===== verification/Plc_Memory.thy ===== *)
theory Plc_Memory
  imports Connect_Live
begin

text \<open>
  The abstract specification of reading and writing: a target whose memory is a function from
  area and DB number and address to bytes, and which answers requests as \<open>plc_exec\<close> says.
  The lemmas show that \<open>ReadArea\<close> and \<open>WriteArea\<close>, through chunking, encoding, COTP, the
  exchange and the parsers, implement a slice of that memory and its update.
\<close>

section \<open>A memory and the requests on it\<close>

type_synonym mem = "byte \<times> int \<Rightarrow> int \<Rightarrow> byte"

definition peek :: "mem \<Rightarrow> byte \<times> int \<Rightarrow> int \<Rightarrow> nat \<Rightarrow> bytes" where
  "peek m key start n = map (\<lambda>i. m key (start + int i)) [0..<n]"

definition poke :: "mem \<Rightarrow> byte \<times> int \<Rightarrow> int \<Rightarrow> bytes \<Rightarrow> mem" where
  "poke m key start bs =
     m(key := (\<lambda>j. if start \<le> j \<and> j < start + int (length bs) then bs ! nat (j - start) else m key j))"

lemma length_peek [simp]: "length (peek m key start n) = n"
  by (simp add: peek_def)

lemma peek_add: "peek m key start (n + k) = peek m key start n @ peek m key (start + int n) k"
  by (simp add: peek_def map_upt_add add.assoc)

lemma peek_poke: "peek (poke m key start bs) key start (length bs) = bs"
  by (rule nth_equalityI) (simp_all add: peek_def poke_def)

lemma peek_poke_other:
  "key \<noteq> key' \<or> start + int (length bs) \<le> start' \<or> start' + int n \<le> start \<Longrightarrow>
     peek (poke m key start bs) key' start' n = peek m key' start' n"
  by (auto simp: peek_def poke_def)

lemma poke_append: "poke (poke m key start xs) key (start + int (length xs)) ys = poke m key start (xs @ ys)"
  by (auto simp: poke_def fun_eq_iff nth_append nat_diff_distrib intro: arg_cong2 [where f = nth])

lemma poke_Nil [simp]: "poke m key start [] = m"
  by (auto simp: poke_def fun_eq_iff)

definition plc_exec :: "mem \<Rightarrow> bytes \<Rightarrow> mem \<times> bytes" where
  "plc_exec m req =
     (let ref = take 2 (drop 4 req);
          a = take 12 (drop 12 req);
          key = (a ! 8, any_db a);
          start = any_start_bits a div 8;
          n = nat (any_size a)
      in if length req = 18 \<and> req ! 1 = ROSCTRJob \<and> req ! 10 = FuncSetupComm then
           (m, ack_pdu ref (drop 10 req) []) \<comment> \<open>grants the limits it is asked for\<close>
         else if length req < 24 \<or> req ! 1 \<noteq> ROSCTRJob \<or> 8192 \<le> n then (m, [])
         else if req ! 10 = FuncReadVar then
           (m, ack_pdu ref [FuncReadVar, 1]
                 (item_bytes \<lparr>riReturnCode = RetCodeSuccess, riRawTransportSize = 0x04,
                              riRawLength = of_nat (8 * n), riData = peek m key start n\<rparr>))
         else if req ! 10 = FuncWriteVar then
           (poke m key start (take n (drop 28 req)), ack_pdu ref [FuncWriteVar, 1] [RetCodeSuccess])
         else (m, []))"

abbreviation serves :: "env \<Rightarrow> mem \<Rightarrow> bool" where
  "serves E m0 \<equiv> answers E plc_exec m0"

abbreviation memory_of :: "env \<Rightarrow> mem \<Rightarrow> 'z world_scheme \<Rightarrow> mem" where
  \<comment> \<open>the abstraction: the target's memory after the frames sent so far\<close>
  "memory_of E m0 s \<equiv> state_of E plc_exec m0 s"

section \<open>The requests of the client\<close>

lemma EncodeReadVarRequest_parts:
  "EncodeReadVarRequest ref [a] = [0x32, ROSCTRJob, 0, 0] @ put16 ref @ [0, 14, 0, 0, FuncReadVar, 1] @ EncodeS7Any a"
  by (simp add: EncodeReadVarRequest_def EncodeS7Header_list Let_def put16_def)

lemma EncodeWriteVarRequest_parts:
  "\<exists>x y pad. EncodeWriteVarRequest ref a val =
     [0x32, ROSCTRJob, 0, 0] @ put16 ref @ [0, 14, x, y, FuncWriteVar, 1] @ EncodeS7Any a @
     [RetCodeSuccess, 0x04] @ put16 (word_of_int (int (length val) * 8)) @ val @ pad"
proof -
  let ?n = "4 + length val + (if odd (length val) then 1 else 0)"
  have "EncodeWriteVarRequest ref a val =
     [0x32, ROSCTRJob, 0, 0] @ put16 ref @ [0, 14, ucast (drop_bit 8 (word_of_int (int ?n) :: uint16)),
       ucast (word_of_int (int ?n) :: uint16), FuncWriteVar, 1] @ EncodeS7Any a @
     [RetCodeSuccess, 0x04] @ put16 (word_of_int (int (length val) * 8)) @ val @
     (if odd (length val) then [0] else [])"
    by (simp add: EncodeWriteVarRequest_def EncodeS7Header_list Let_def put16_def odd_iff_mod_2_eq_one)
  then show ?thesis by blast
qed

lemma request_fields:
  assumes "addressable a"
  shows "nat (any_size (EncodeS7Any a)) = nat (anySize a)" "any_db (EncodeS7Any a) = anyDBNumber a"
    "any_start_bits (EncodeS7Any a) div 8 = anyStart a" "EncodeS7Any a ! 8 = anyArea a"
  using assms by (simp_all add: any_fields addressable_def)

definition read_item :: "mem \<Rightarrow> S7AnyAddress \<Rightarrow> ReadVarItem" where
  "read_item m a =
     \<lparr>riReturnCode = RetCodeSuccess, riRawTransportSize = 0x04, riRawLength = of_nat (8 * nat (anySize a)),
      riData = peek m (anyArea a, anyDBNumber a) (anyStart a) (nat (anySize a))\<rparr>"

lemma plc_exec_read:
  assumes "addressable a" "anySize a < 8192"
  shows "plc_exec m (EncodeReadVarRequest ref [a]) =
    (m, ack_pdu (put16 ref) [FuncReadVar, 1] (item_bytes (read_item m a)))"
proof -
  let ?r = "EncodeReadVarRequest ref [a]"
  have "take 2 (drop 4 ?r) = put16 ref" "take 12 (drop 12 ?r) = EncodeS7Any a" "?r ! 1 = ROSCTRJob"
    "?r ! 10 = FuncReadVar" "length ?r = 24"
    by (simp_all add: EncodeReadVarRequest_parts put16_def)
  moreover have small: "\<not> 8192 \<le> nat (anySize a)" using assms(2) by simp
  ultimately show ?thesis
    using small by (simp add: plc_exec_def Let_def request_fields [OF assms(1)] read_item_def)
qed

lemma plc_exec_write:
  assumes "addressable a" "anySize a = int (length val)" "length val < 8192"
  shows "plc_exec m (EncodeWriteVarRequest ref a val) =
    (poke m (anyArea a, anyDBNumber a) (anyStart a) val,
     ack_pdu (put16 ref) [FuncWriteVar, 1] [RetCodeSuccess])"
proof -
  obtain x y pad where r: "EncodeWriteVarRequest ref a val =
     [0x32, ROSCTRJob, 0, 0] @ put16 ref @ [0, 14, x, y, FuncWriteVar, 1] @ EncodeS7Any a @
     [RetCodeSuccess, 0x04] @ put16 (word_of_int (int (length val) * 8)) @ val @ pad"
    using EncodeWriteVarRequest_parts by blast
  have f: "FuncWriteVar \<noteq> FuncReadVar" by (simp add: FuncWriteVar_def FuncReadVar_def)
  have "take 2 (drop 4 (EncodeWriteVarRequest ref a val)) = put16 ref"
    "take 12 (drop 12 (EncodeWriteVarRequest ref a val)) = EncodeS7Any a"
    "EncodeWriteVarRequest ref a val ! 1 = ROSCTRJob"
    "EncodeWriteVarRequest ref a val ! 10 = FuncWriteVar" "\<not> length (EncodeWriteVarRequest ref a val) < 24"
    "take (length val) (drop 28 (EncodeWriteVarRequest ref a val)) = val"
    unfolding r by (simp_all add: put16_def)
  then show ?thesis
    using f assms(2,3) by (simp add: plc_exec_def Let_def request_fields [OF assms(1)])
qed

lemma read_step_item:
  assumes "0 \<le> anySize a" "anySize a < 8192"
  shows "read_step [FuncReadVar, 1] (item_bytes (read_item m a)) out res =
    Some (Inr (Inr (res @ peek m (anyArea a, anyDBNumber a) (anyStart a) (nat (anySize a)))))"
proof -
  let ?it = "read_item m a"
  have n: "unat (of_nat (8 * nat (anySize a)) :: uint16) = 8 * nat (anySize a)"
    using assms by (subst unat_of_nat) simp
  have "item_wf ?it"
    unfolding item_wf_def read_item_def
    using n by (simp add: NormalizeResponseDataLength_eq bit_sized_def)
  then have "read_items ([] @ encode_items [?it]) (length [?it]) (length ([] :: bytes)) [] =
      Some (Inr ([] @ map visible [?it]))"
    by (intro read_items_encode_items) simp
  then have "ParseReadVarResponse [FuncReadVar, 1] (item_bytes ?it) = Some (Inr [?it])"
    by (simp add: ParseReadVarResponse_eq visible_def read_item_def)
  then show ?thesis
    by (simp add: read_step_def idx_def read_item_def)
qed

section \<open>The loops\<close>

definition in_range :: "Address \<Rightarrow> int \<Rightarrow> bool" where
  \<comment> \<open>\<open>n\<close> bytes from the address on have wire addresses\<close>
  "in_range addr n \<longleftrightarrow> 0 \<le> aStart addr \<and> aStart addr + n \<le> 2 ^ 21 \<and>
     0 \<le> aDBNumber addr \<and> aDBNumber addr < 65536"

definition key_of :: "Address \<Rightarrow> byte \<times> int" where
  "key_of addr = (aArea addr, aDBNumber addr)"

lemma read_chunks_serves:
  assumes "ctx_live cx" "serves E m0" "0 \<le> aDBNumber addr" "aDBNumber addr < 65536"
  shows "client_inv s \<Longrightarrow> clConn s \<noteq> None \<Longrightarrow> clPduSize s = 0 \<or> 24 \<le> clPduSize s \<Longrightarrow>
    \<forall>c\<in>set cs. 0 < c \<and> c < 8192 \<Longrightarrow> 0 \<le> off \<Longrightarrow> off + sum_list cs \<le> 2 ^ 21 \<Longrightarrow>
    \<exists>t. read_chunks E cx addr r out f off res cs s =
      (Some (Inr (finish_read out (res @ peek (memory_of E m0 s) (key_of addr) off (nat (sum_list cs))))), t) \<and>
      same_session s t \<and> memory_of E m0 t = memory_of E m0 s"
proof (induction cs arbitrary: f off res s)
  case Nil
  then show ?case by (simp add: peek_def ss.R_refl)
next
  case (Cons c cs)
  let ?M = "memory_of E m0 s"
  let ?a = "\<lparr>anyArea = aArea addr, anyDBNumber = aDBNumber addr, anyStart = off, anySize = c\<rparr>"
  have sum: "0 \<le> sum_list cs" using Cons.prems(4) by (intro sum_list_nonneg) auto
  have a: "addressable ?a" using Cons.prems sum assms(3,4) by (simp add: addressable_def)
  obtain conn where conn: "clConn s = Some conn" using Cons.prems(2) by auto
  obtain u0 ref u where u: "pause cx r f s = (Some (Inr ()), u0)" "nextPDURef u0 = (Some (Inr ref), u)"
    "same_session s u" "client_inv u" "clConn u = clConn s" "clPduSize u = clPduSize s"
    "memory_of E m0 u = ?M"
    using round_start [OF assms(1) Cons.prems(1)] by metis
  have len: "length (item_bytes (read_item ?M ?a)) = 4 + nat c" by (simp add: read_item_def)
  have c: "0 < c" "nat c < 8192" "c < 8192" using Cons.prems(4) by auto
  obtain t where x: "sendReceive E cx (EncodeReadVarRequest ref [?a]) ref u =
      (Some (Inr ([FuncReadVar, 1], item_bytes (read_item ?M ?a))), t)"
    "same_session u t" "memory_of E m0 t = ?M"
    using exchange [OF u(4) _ assms(1,2) _ plc_exec_read [OF a, of "memory_of E m0 u" ref]
        ack_pdu_accepts, of conn] conn u(5-7) len c Cons.prems(3) by auto
  have wrap: "wrap64 (off + c) = off + c"
    using Cons.prems sum by (intro wrap64_id in64_small) auto
  have step: "read_chunks E cx addr r out f off res (c # cs) s =
      read_chunks E cx addr r out False (off + c) (res @ peek ?M (key_of addr) off (nat c)) cs t"
    using u(1,2) x(1) read_step_item [of ?a ?M out res] c
    by (simp add: Let_def io_case_def key_of_def wrap del: nextPDURef_run)
  have st: "same_session s t" using ss.R_trans [OF u(3) x(2)] .
  have "client_inv t" by (rule same_session_inv [OF st Cons.prems(1)])
  then obtain t' where "read_chunks E cx addr r out False (off + c) (res @ peek ?M (key_of addr) off (nat c)) cs t =
      (Some (Inr (finish_read out ((res @ peek ?M (key_of addr) off (nat c)) @
         peek (memory_of E m0 t) (key_of addr) (off + c) (nat (sum_list cs))))), t')"
    "same_session t t'" "memory_of E m0 t' = memory_of E m0 t"
    using Cons.IH [of t "off + c" False "res @ peek ?M (key_of addr) off (nat c)"] Cons.prems conn
    by (auto simp: same_session_sel [OF st])
  moreover have "peek ?M (key_of addr) off (nat (c + sum_list cs)) =
      peek ?M (key_of addr) off (nat c) @ peek ?M (key_of addr) (off + c) (nat (sum_list cs))"
    using peek_add [of ?M "key_of addr" off "nat c" "nat (sum_list cs)"] Cons.prems(4) sum
    by (simp add: nat_add_distrib)
  ultimately show ?case
    unfolding step using x(3) ss.R_trans [OF st] by auto
qed

text \<open>One round of the loop writes its chunk.\<close>

lemma write_round:
  assumes "ctx_live cx" "serves E m0" "in_range addr (int (length data))" "client_inv s" "clConn s \<noteq> None"
    and "0 < c" "c < 8192" "clPduSize s = 0 \<or> 28 + c + c mod 2 \<le> clPduSize s" "off + nat c \<le> length data"
  obtains t where "write_chunks E cx addr data r f (int off) (c # cs) s =
      write_chunks E cx addr data r False (int (off + nat c)) cs t" "same_session s t"
    "memory_of E m0 t = poke (memory_of E m0 s) (key_of addr) (aStart addr + int off) (take (nat c) (drop off data))"
proof -
  define chunk where "chunk = take (nat c) (drop off data)"
  have len: "int (length chunk) = c" using assms(6,9) by (simp add: chunk_def)
  have sl: "slice data off (off + nat c) = Some chunk"
    using assms(6,9) by (simp add: slice_def chunk_def)
  have wrap: "wrap64 (aStart addr + int off) = aStart addr + int off"
    using assms(3,9) by (intro wrap64_id in64_small) (auto simp: in_range_def)
  let ?a = "\<lparr>anyArea = aArea addr, anyDBNumber = aDBNumber addr, anyStart = aStart addr + int off, anySize = c\<rparr>"
  have a: "addressable ?a" using assms(3,6,7,9) by (auto simp: addressable_def in_range_def)
  obtain conn where conn: "clConn s = Some conn" using assms(5) by auto
  obtain u0 ref u where u: "pause cx r f s = (Some (Inr ()), u0)" "nextPDURef u0 = (Some (Inr ref), u)"
    "same_session s u" "client_inv u" "clConn u = clConn s" "clPduSize u = clPduSize s"
    "memory_of E m0 u = memory_of E m0 s"
    using round_start [OF assms(1,4)] by metis
  have fits: "clPduSize u = 0 \<or> int (length (EncodeWriteVarRequest ref ?a chunk)) \<le> clPduSize u"
    using assms(8) len by (auto simp: length_EncodeWriteVarRequest u(6) zmod_int)
  obtain t where x: "sendReceive E cx (EncodeWriteVarRequest ref ?a chunk) ref u =
      (Some (Inr ([FuncWriteVar, 1], [RetCodeSuccess])), t)"
    "same_session u t" "memory_of E m0 t = poke (memory_of E m0 s) (key_of addr) (aStart addr + int off) chunk"
    using exchange [OF u(4) _ assms(1,2) fits plc_exec_write [OF a, of chunk "memory_of E m0 u" ref]
        ack_pdu_accepts, of conn] conn u(5-7) len assms(7) by (auto simp: key_of_def)
  have parse: "Option.bind (ParseWriteVarResponse [FuncWriteVar, 1] [RetCodeSuccess]) opt_err = Some (Inr ())"
    by (simp add: ParseWriteVarResponse_eq)
  have nxt: "int off + c = int (off + nat c)" using assms(6) by simp
  have "write_chunks E cx addr data r f (int off) (c # cs) s =
      write_chunks E cx addr data r False (int (off + nat c)) cs t"
    using u(1,2) x(1) parse
    by (simp add: Let_def sl wrap len nxt del: of_nat_add nextPDURef_run)
  from that [OF this ss.R_trans [OF u(3) x(2)] x(3) [unfolded chunk_def]] show ?thesis .
qed

lemma write_chunks_serves:
  assumes "ctx_live cx" "serves E m0" "in_range addr (int (length data))"
  shows "client_inv s \<Longrightarrow> clConn s \<noteq> None \<Longrightarrow>
    \<forall>c\<in>set cs. 0 < c \<and> c < 8192 \<and> (clPduSize s = 0 \<or> 28 + c + c mod 2 \<le> clPduSize s) \<Longrightarrow>
    off + nat (sum_list cs) = length data \<Longrightarrow>
    \<exists>t. write_chunks E cx addr data r f (int off) cs s = (Some (Inr ()), t) \<and> same_session s t \<and>
      memory_of E m0 t = poke (memory_of E m0 s) (key_of addr) (aStart addr + int off) (drop off data)"
proof (induction cs arbitrary: f off s)
  case Nil
  then show ?case by (simp add: ss.R_refl)
next
  case (Cons c cs)
  have sum: "0 \<le> sum_list cs" using Cons.prems(3) by (intro sum_list_nonneg) auto
  have c: "0 < c" "c < 8192" "clPduSize s = 0 \<or> 28 + c + c mod 2 \<le> clPduSize s" using Cons.prems(3) by auto
  have tot: "off + nat c + nat (sum_list cs) = length data"
    using Cons.prems(4) c(1) sum by (simp add: nat_add_distrib)
  then have off: "off + nat c \<le> length data" by simp
  obtain t where step: "write_chunks E cx addr data r f (int off) (c # cs) s =
      write_chunks E cx addr data r False (int (off + nat c)) cs t" and st: "same_session s t"
    and mem: "memory_of E m0 t =
      poke (memory_of E m0 s) (key_of addr) (aStart addr + int off) (take (nat c) (drop off data))"
    by (rule write_round [OF assms Cons.prems(1,2) c off])
  have "client_inv t" by (rule same_session_inv [OF st Cons.prems(1)])
  then obtain t' where "write_chunks E cx addr data r False (int (off + nat c)) cs t = (Some (Inr ()), t')"
    "same_session t t'" "memory_of E m0 t' =
      poke (memory_of E m0 t) (key_of addr) (aStart addr + int (off + nat c)) (drop (off + nat c) data)"
    using Cons.IH [of t "off + nat c" False] Cons.prems(2,3) tot
    by (auto simp: same_session_sel [OF st])
  moreover have "poke (memory_of E m0 t) (key_of addr) (aStart addr + int (off + nat c)) (drop (off + nat c) data) =
      poke (memory_of E m0 s) (key_of addr) (aStart addr + int off) (drop off data)"
  proof -
    have "take (nat c) (drop off data) @ drop (off + nat c) data = drop off data"
      by (metis append_take_drop_id drop_drop add.commute)
    moreover have "aStart addr + int (off + nat c) = aStart addr + int off + int (length (take (nat c) (drop off data)))"
      using c(1) off by simp
    ultimately show ?thesis unfolding mem using poke_append by metis
  qed
  ultimately show ?case
    unfolding step using ss.R_trans [OF st] by auto
qed

section \<open>Refinement\<close>

lemma finish_read_exact:
  assumes "int (length bs) = n"
  shows "rrStatus (finish_read (new_ReadResult n) bs) = ReadStatusSuccess"
    "rrData (finish_read (new_ReadResult n) bs) = bs"
  using assms by (simp_all add: finish_read_def new_ReadResult_def ClassifyReadOutcome_def Let_def)

lemma ReadArea_serves:
  assumes "ctx_live cx" "serves E m0" "client_inv s" "clConn s \<noteq> None"
    and "24 \<le> clPduSize s" "clPduSize s \<le> 8192" "in_range addr (aSize addr)" "0 \<le> aSize addr"
  shows "\<exists>rr t. ReadArea E cx addr s = (Some (Inr rr), t) \<and> rrStatus rr = ReadStatusSuccess \<and>
    rrData rr = peek (memory_of E m0 s) (key_of addr) (aStart addr) (nat (aSize addr)) \<and>
    same_session s t \<and> memory_of E m0 t = memory_of E m0 s"
proof -
  let ?cs = "plan_of (aSize addr) (read_max (clPduSize s))"
  have v: "validateAddress addr = None"
    using assms(7,8) by (simp add: validateAddress_def in_range_def)
  have cs: "\<forall>c\<in>set ?cs. 0 < c \<and> c < 8192"
  proof
    fix c assume "c \<in> set ?cs"
    then have "0 < c" "c \<le> read_max (clPduSize s)"
      using plan_of_bounds(1) [of "aSize addr" "read_max (clPduSize s)"] read_max_pos by auto
    moreover have "read_max (clPduSize s) < 8192" using assms(6) by (simp add: read_max_def)
    ultimately show "0 < c \<and> c < 8192" by simp
  qed
  have sum: "sum_list ?cs = aSize addr" using plan_of_bounds(2) assms(8) by simp
  obtain t where "ReadArea E cx addr s = (Some (Inr (finish_read (new_ReadResult (aSize addr))
      (peek (memory_of E m0 s) (key_of addr) (aStart addr) (nat (aSize addr))))), t)"
    "same_session s t" "memory_of E m0 t = memory_of E m0 s"
    using read_chunks_serves [OF assms(1,2) _ _ assms(3,4) _ cs, of addr "aStart addr"
        "oRateLimit (clOpts s)" "new_ReadResult (aSize addr)" True "[]"] assms(5,7) v sum
    by (auto simp: ReadArea_eq in_range_def)
  moreover have "int (length (peek (memory_of E m0 s) (key_of addr) (aStart addr) (nat (aSize addr)))) =
      aSize addr"
    using assms(8) by simp
  note finish_read_exact [OF this]
  ultimately show ?thesis by blast
qed

lemma WriteArea_serves:
  assumes "ctx_live cx" "serves E m0" "client_inv s" "clConn s \<noteq> None"
    and "30 \<le> clPduSize s" "even (clPduSize s)" "clPduSize s \<le> 8192"
    and "in_range addr (int (length data))" "0 \<le> aSize addr"
  shows "\<exists>t. WriteArea E cx addr data s = (Some (Inr ()), t) \<and> same_session s t \<and>
    memory_of E m0 t = poke (memory_of E m0 s) (key_of addr) (aStart addr) data"
proof -
  let ?m = "write_max (clPduSize s)"
  let ?cs = "plan_of (int (length data)) ?m"
  have v: "validateAddress addr = None"
    using assms(8,9) by (simp add: validateAddress_def in_range_def)
  have cs: "\<forall>c\<in>set ?cs. 0 < c \<and> c < 8192 \<and> (clPduSize s = 0 \<or> 28 + c + c mod 2 \<le> clPduSize s)"
  proof
    fix c assume "c \<in> set ?cs"
    then have c: "0 < c" "c \<le> clPduSize s - 28"
      using plan_of_bounds(1) [of "int (length data)" ?m] write_max_pos assms(5) by (auto simp: write_max_def)
    then have "28 + c + c mod 2 \<le> clPduSize s" using assms(6) by presburger
    then show "0 < c \<and> c < 8192 \<and> (clPduSize s = 0 \<or> 28 + c + c mod 2 \<le> clPduSize s)"
      using c assms(7) by simp
  qed
  have sum: "0 + nat (sum_list ?cs) = length data" using plan_of_bounds(2) by simp
  have live: "ctx_err cx (w_trace s) = None" using assms(1) by (simp add: ctx_live_def)
  show ?thesis
    using write_chunks_serves [OF assms(1,2,8,3,4) cs sum, of "oRateLimit (clOpts s)" True]
    by (auto simp: WriteArea_eq v live)
qed

lemma WriteArea_odd_pdu:
  assumes "client_inv s" "clConn s \<noteq> None" "ctx_live cx"
    and "29 \<le> clPduSize s" "odd (clPduSize s)" "clPduSize s - 28 \<le> int (length data)"
    and "validateAddress addr = None"
  shows "\<exists>e t. WriteArea E cx addr data s = (Some (Inl e), t) \<and> errors_Is e ErrRequestExceedsPDU \<and>
    tx_of (w_trace t) = tx_of (w_trace s)"
proof -
  let ?m = "clPduSize s - 28"
  have m: "write_max (clPduSize s) = ?m" using assms(4) by (simp add: write_max_def)
  have "plan_of (int (length data)) ?m = even_split ?m (int (length data))"
    using assms(4,6) by (auto simp: plan_of_def planReadChunks_eq even_split_def)
  moreover obtain cs where "even_split ?m (int (length data)) = ?m # cs"
  proof (cases "?m < int (length data)")
    case True
    then show ?thesis using even_split_step [of ?m "int (length data)"] assms(4) that by simp
  next
    case False
    then have "?m = int (length data)" "0 < int (length data)" using assms(4,6) by linarith+
    then show ?thesis using even_split_last [of "int (length data)" ?m] that by simp
  qed
  ultimately have cs: "plan_of (int (length data)) (write_max (clPduSize s)) = ?m # cs" by (simp add: m)
  define chunk where "chunk = take (nat ?m) data"
  have sl: "slice data 0 (nat ?m) = Some chunk" using assms(4,6) by (simp add: slice_def chunk_def)
  have len: "int (length chunk) = ?m" using assms(4,6) by (simp add: chunk_def)
  have pad: "int (length chunk mod 2) = 1"
  proof -
    have "odd (int (length chunk))" using assms(5) unfolding len by simp
    then show ?thesis by (simp add: odd_iff_mod_2_eq_one)
  qed
  obtain u0 ref u where u: "pause cx (oRateLimit (clOpts s)) True s = (Some (Inr ()), u0)"
    "nextPDURef u0 = (Some (Inr ref), u)" "same_session s u" "client_inv u" "clConn u = clConn s"
    "clPduSize u = clPduSize s"
    using round_start [OF assms(3,1)] by metis
  let ?req = "EncodeWriteVarRequest ref \<lparr>anyArea = aArea addr, anyDBNumber = aDBNumber addr,
      anyStart = wrap64 (aStart addr), anySize = int (length chunk)\<rparr> chunk"
  have big: "clPduSize u < int (length ?req)" using len pad u(6) by (simp add: length_EncodeWriteVarRequest)
  obtain e where e: "sendReceive E cx ?req ref u = (Some (Inl e), u)" "errors_Is e ErrRequestExceedsPDU"
    using sendReceive_too_big [of u ?req E cx ref] assms(2,4) u big by auto
  have tx: "tx_of (w_trace u) = tx_of (w_trace s)"
    using u(1,2) assms(3) by (auto simp: pause_def ctx_check_def ctx_live_def)
  have "ctx_err cx (w_trace s) = None" using assms(3) by (simp add: ctx_live_def)
  then have "WriteArea E cx addr data s = (Some (Inl e), u)"
    using assms(7) u(1,2) e(1) sl by (simp add: WriteArea_eq cs Let_def del: nextPDURef_run)
  then show ?thesis using e(2) tx by blast
qed

section \<open>Connecting to the target\<close>

lemma plc_grants:
  "grants plc_exec m (EncodeSetupCommRequest ref a b p) ref
     \<lparr>scMaxAmqCalling = a mod 65536, scMaxAmqCalled = b mod 65536, scPDUSize = p mod 65536\<rparr>"
proof -
  let ?param = "[FuncSetupComm, 0x00] @ put16 (word_of_int a) @ put16 (word_of_int b) @ put16 (word_of_int p)"
  have "EncodeSetupCommRequest ref a b p = [0x32, ROSCTRJob, 0, 0] @ put16 ref @ [0, 8, 0, 0] @ ?param"
    by (simp add: EncodeSetupCommRequest_def EncodeS7Header_list Let_def put16_def)
  then have "plc_exec m (EncodeSetupCommRequest ref a b p) = (m, ack_pdu (put16 ref) ?param [])"
    by (simp add: plc_exec_def Let_def put16_def)
  moreover have "ParseSetupCommResponse ?param = Some (Inr
      \<lparr>scMaxAmqCalling = a mod 65536, scMaxAmqCalled = b mod 65536, scPDUSize = p mod 65536\<rparr>)"
    by (simp add: ParseSetupCommResponse_eq put16_def uint_word_of_int_u16)
  ultimately show ?thesis unfolding grants_def by (intro exI [of _ ?param]) simp
qed

lemma Connect_serves:
  assumes "client_inv s" "ctx_live cx" "serves E m0" "greets E" "validate_connect (clOpts s) = None"
  shows "\<exists>t. Connect E cx s = (Some (Inr ()), t) \<and> client_inv t \<and> clConn t = Some (w_next s) \<and>
    (clRack t, clSlot t) = first_choice (clOpts s) \<and> clPduSize t = oMaxPDU (clOpts s) mod 65536 \<and>
    clOpts t = clOpts s \<and> memory_of E m0 t = memory_of E m0 s"
  using Connect_live [OF assms plc_grants] by simp

end
