(* ===== verification/Range_Scan.thy ===== *)
theory Range_Scan
  imports Plc_Memory "HOL-Library.Multiset"
begin

text \<open>
  The read-range scan (\<open>client/rangescan.go\<close>, with its validation): the probe offsets, the
  repeated reads and retries at one offset, and the consolidation of observations into spans.

  The offset loop adds a step to a 64-bit integer and may wrap, so it is a
  \<open>partial_function\<close>.  The map \<open>byStatus\<close> of the source is a function from the status to
  a list of spans.
\<close>

section \<open>Types\<close>

record RangeProbeRequest =
  rpArea :: Area
  rpDBNumber :: int
  rpStart :: int
  rpEnd :: int
  rpStep :: int
  rpProbeSize :: int
  rpRetries :: int
  rpRetryDelay :: duration
  rpRepeat :: int
  rpInterval :: duration
  rpParallelism :: int

record ReadProbeObservation =
  poOffset :: int
  poRequest :: Address
  poResult :: ReadResult
  poStable :: "bool option"
  poAllZero :: "bool option"

record ReadableSpan =
  spStart :: int
  spEnd :: int
  spStatus :: ReadStatus
  spStable :: "bool option"
  spAllZero :: "bool option"
  spNotes :: "string list"

record RangeProbeSummary =
  sumReadable :: "ReadableSpan list"
  sumEmpty :: "ReadableSpan list"
  sumFailed :: "ReadableSpan list"
  sumInconclusive :: "ReadableSpan list"

record RangeProbeResult =
  prArea :: Area
  prDBNumber :: int
  prSpans :: "ReadableSpan list"
  prProbes :: "ReadProbeObservation list"
  prSummary :: RangeProbeSummary

definition validateRangeProbeRequest :: "RangeProbeRequest \<Rightarrow> goerr option" where
  "validateRangeProbeRequest req =
     (if rpStart req > rpEnd req then
        Some (ValidationError (''start must be <= end, got start='' @ fmt_d (rpStart req) @ '' end='' @
                               fmt_d (rpEnd req)))
      else if rpArea req = AreaDB \<and> rpDBNumber req < 0 then
        Some (ValidationError (''DB number must be >= 0, got '' @ fmt_d (rpDBNumber req)))
      else if rpProbeSize req < 0 then
        Some (ValidationError (''probe size must be >= 0, got '' @ fmt_d (rpProbeSize req)))
      else if rpRetries req < 0 then
        Some (ValidationError (''retries must be >= 0, got '' @ fmt_d (rpRetries req)))
      else if rpRepeat req < 0 then
        Some (ValidationError (''repeat must be >= 0, got '' @ fmt_d (rpRepeat req)))
      else if rpParallelism req < 0 then
        Some (ValidationError (''parallelism must be >= 0, got '' @ fmt_d (rpParallelism req)))
      else None)"

section \<open>One offset\<close>

fun read_series ::
    "env \<Rightarrow> ctx \<Rightarrow> Address \<Rightarrow> int \<Rightarrow> duration \<Rightarrow> nat \<Rightarrow> bool \<Rightarrow> ReadResult list \<Rightarrow>
     (client, ReadResult + ReadResult list) io" where
  \<comment> \<open>the common loop of the repeats and the retries: \<open>Inl\<close> is the result of an early return\<close>
  "read_series E cx addr probeSize delay 0 first acc = io_ret (Inr acc)"
| "read_series E cx addr probeSize delay (Suc n) first acc =
     io_case (pause cx delay first) (\<lambda>r. case r of
       Inl err \<Rightarrow> io_ret (Inl (newFailedReadResult probeSize (Some err)))
     | Inr _ \<Rightarrow>
         io_case (ReadArea E cx addr) (\<lambda>r.
           read_series E cx addr probeSize delay n False
             (acc @ [case r of Inl err \<Rightarrow> newFailedReadResult probeSize (Some err) | Inr res \<Rightarrow> res])))"

definition same_as :: "ReadResult \<Rightarrow> ReadResult \<Rightarrow> bool" where
  "same_as a b \<longleftrightarrow> rrStatus b = rrStatus a \<and> rrData b = rrData a"

definition all_same :: "ReadResult list \<Rightarrow> bool" where
  "all_same rs = (case rs of [] \<Rightarrow> True | r0 # rest \<Rightarrow> list_all (same_as r0) rest)"

definition all_zero :: "ReadResult list \<Rightarrow> bool" where
  "all_zero rs =
     list_all (\<lambda>r. rrStatus r = ReadStatusSuccess \<and> length (rrData r) > 0 \<and> list_all (\<lambda>b. b = 0) (rrData r)) rs"

definition mark_inconclusive :: "string \<Rightarrow> ReadResult \<Rightarrow> ReadResult" where
  "mark_inconclusive msg r = r\<lparr>rrStatus := ReadStatusInconclusive, rrMessage := msg\<rparr>"

definition zero_Address :: Address where
  "zero_Address = \<lparr>aArea = 0, aDBNumber = 0, aStart = 0, aSize = 0\<rparr>"

definition probeOneOffset ::
    "env \<Rightarrow> ctx \<Rightarrow> RangeProbeRequest \<Rightarrow> int \<Rightarrow> int \<Rightarrow> (client, ReadProbeObservation) io" where
  "probeOneOffset E cx req offset probeSize =
     (let addr = \<lparr>aArea = rpArea req, aDBNumber = rpDBNumber req, aStart = offset, aSize = probeSize\<rparr>;
          repeat = (if rpRepeat req < 1 then 1 else rpRepeat req)
      in io_bind (read_series E cx addr probeSize (rpInterval req) (nat repeat) True []) (\<lambda>v. case v of
           Inl failed \<Rightarrow>
             io_ret \<lparr>poOffset = offset, poRequest = addr, poResult = failed, poStable = None,
                     poAllZero = None\<rparr>
         | Inr repeated \<Rightarrow>
             let obs = \<lparr>poOffset = 0, poRequest = zero_Address, poResult = new_ReadResult 0,
                        poStable = None, poAllZero = None\<rparr>
             in if length repeated = 0 then
                  io_ret (obs\<lparr>poResult := (new_ReadResult probeSize)
                    \<lparr>rrStatus := ReadStatusTransportErr, rrMessage := ''no reads''\<rparr>\<rparr>)
                else
                  let obs = obs\<lparr>poResult := last repeated\<rparr>;
                      obs = (if repeat > 1 \<and> length repeated > 1 \<and> \<not> all_same repeated
                             then obs\<lparr>poResult := mark_inconclusive ''repeat reads produced mixed results''
                                                    (poResult obs)\<rparr>
                             else obs);
                      stability = (\<lambda>obs.
                        if repeat > 1 \<and> length repeated > 0
                        then obs\<lparr>poStable := Some (all_same repeated), poAllZero := Some (all_zero repeated)\<rparr>
                        else obs)
                  in if rpRetries req > 0 then
                       io_bind (read_series E cx addr probeSize (rpRetryDelay req) (nat (rpRetries req + 1))
                                  True []) (\<lambda>v. case v of
                         Inl failed \<Rightarrow> io_ret (obs\<lparr>poResult := failed\<rparr>)
                       | Inr attempts \<Rightarrow>
                           let obs = (if length attempts > 1 \<and> \<not> all_same attempts
                                      then obs\<lparr>poResult := mark_inconclusive ''retries produced mixed results''
                                                             (poResult obs)\<rparr>
                                      else obs)
                           in io_ret (stability obs))
                     else io_ret (stability obs)))"

section \<open>Spans\<close>

fun take_run ::
    "ReadStatus \<Rightarrow> int \<Rightarrow> ReadProbeObservation \<Rightarrow> ReadProbeObservation list \<Rightarrow>
     ReadProbeObservation list \<times> ReadProbeObservation list" where
  \<comment> \<open>the inner loop over \<open>j\<close>: the observations that continue the run after \<open>prev\<close>, and the rest\<close>
  "take_run status step prev [] = ([], [])"
| "take_run status step prev (ob # obs) =
     (if rrStatus (poResult ob) = status \<and> poOffset ob = wrap64 (poOffset prev + step)
      then (let (run, rest) = take_run status step ob obs in (ob # run, rest))
      else ([], ob # obs))"

fun merge_flag :: "string \<Rightarrow> bool option \<Rightarrow> bool option list \<Rightarrow> bool option \<times> string list" where
  "merge_flag note cur [] = (cur, [])"
| "merge_flag note cur (f # fs) =
     (case f of
        None \<Rightarrow> merge_flag note cur fs
      | Some b \<Rightarrow>
          (case cur of
             None \<Rightarrow> merge_flag note (Some b) fs
           | Some c \<Rightarrow> if c \<noteq> b then (None, [note]) else merge_flag note (Some c) fs))"

definition span_of_run :: "int \<Rightarrow> ReadProbeObservation list \<Rightarrow> ReadableSpan" where
  "span_of_run probeSize run =
     (let (stable, notes1) = merge_flag ''stable metadata differs across probes'' None (map poStable run);
          (allZero, notes2) = merge_flag ''allZero metadata differs across probes'' None (map poAllZero run)
      in \<lparr>spStart = poOffset (hd run), spEnd = wrap64 (poOffset (last run) + probeSize),
          spStatus = rrStatus (poResult (hd run)), spStable = stable, spAllZero = allZero,
          spNotes = notes1 @ notes2\<rparr>)"

lemma take_run_length: "take_run status step prev obs = (run, rest) \<Longrightarrow> length run + length rest = length obs"
  by (induction status step prev obs arbitrary: run rest rule: take_run.induct)
     (auto split: if_splits prod.splits)

function consolidate ::
    "int \<Rightarrow> int \<Rightarrow> ReadProbeObservation list \<Rightarrow> ReadableSpan list \<Rightarrow> (ReadStatus \<Rightarrow> ReadableSpan list) \<Rightarrow>
     ReadableSpan list \<times> (ReadStatus \<Rightarrow> ReadableSpan list)" where
  "consolidate step probeSize [] spans byStatus = (spans, byStatus)"
| "consolidate step probeSize (ob # obs) spans byStatus =
     (let status = rrStatus (poResult ob);
          run = ob # fst (take_run status step ob obs);
          span = span_of_run probeSize run
      in consolidate step probeSize (snd (take_run status step ob obs)) (spans @ [span])
           (byStatus(status := byStatus status @ [span])))"
  by pat_completeness auto
termination
proof (relation "measure (\<lambda>(step, probeSize, obs, spans, byStatus). length obs)", goal_cases)
  case (2 step probeSize ob obs spans byStatus status run span)
  show ?case
    using take_run_length [of status step ob obs] 2(1) by (cases "take_run status step ob obs") auto
qed simp

definition ConsolidateSpans ::
    "ReadProbeObservation list \<Rightarrow> int \<Rightarrow> int \<Rightarrow> ReadableSpan list \<times> RangeProbeSummary" where
  "ConsolidateSpans observations step probeSize =
     (if length observations = 0 then
        ([], \<lparr>sumReadable = [], sumEmpty = [], sumFailed = [], sumInconclusive = []\<rparr>)
      else
        let step = (if step \<le> 0 then probeSize else step);
            (spans, byStatus) = consolidate step probeSize observations [] (\<lambda>_. [])
        in (spans,
            \<lparr>sumReadable = byStatus ReadStatusSuccess, sumEmpty = byStatus ReadStatusEmptyRead,
             sumFailed = concat (map byStatus [ReadStatusRejected, ReadStatusTimeout,
               ReadStatusTransportErr, ReadStatusProtocolErr, ReadStatusShortRead]),
             sumInconclusive = byStatus ReadStatusInconclusive\<rparr>))"

section \<open>The scan\<close>

partial_function (option) offset_loop :: "int \<Rightarrow> int \<Rightarrow> int \<Rightarrow> int list \<Rightarrow> int list option" where
  "offset_loop step end' offs acc =
     (if offs < end' then offset_loop step end' (wrap64 (offs + step)) (acc @ [offs]) else Some acc)"

fun probe_offsets ::
    "env \<Rightarrow> ctx \<Rightarrow> RangeProbeRequest \<Rightarrow> int \<Rightarrow> int list \<Rightarrow> ReadProbeObservation list \<Rightarrow>
     (client, goerr + ReadProbeObservation list) io" where
  "probe_offsets E cx req probeSize [] acc = io_ret (Inr acc)"
| "probe_offsets E cx req probeSize (offs # more_offs) acc =
     io_case (ctx_check cx) (\<lambda>r. case r of
       Inl err \<Rightarrow> io_ret (Inl err)
     | Inr _ \<Rightarrow>
         io_bind (probeOneOffset E cx req offs probeSize) (\<lambda>obs.
         probe_offsets E cx req probeSize more_offs
           (acc @ [obs\<lparr>poOffset := offs,
                       poRequest := \<lparr>aArea = rpArea req, aDBNumber = rpDBNumber req, aStart = offs,
                                     aSize = probeSize\<rparr>\<rparr>])))"

definition scan_step :: "RangeProbeRequest \<Rightarrow> int" where
  "scan_step req =
     (let step = rpStep req;
          step = (if step \<le> 0 then rpProbeSize req else step)
      in if step \<le> 0 then 1 else step)"

definition scan_size :: "RangeProbeRequest \<Rightarrow> int" where
  "scan_size req = (if rpProbeSize req \<le> 0 then 8 else rpProbeSize req)"

definition ProbeReadableRanges ::
    "env \<Rightarrow> ctx \<Rightarrow> RangeProbeRequest \<Rightarrow> (client, RangeProbeResult \<times> goerr option) io" where
  "ProbeReadableRanges E cx req =
     (case validateRangeProbeRequest req of
        Some err \<Rightarrow> io_fail err
      | None \<Rightarrow>
          let step = scan_step req;
              probeSize = scan_size req;
              out = \<lparr>prArea = rpArea req, prDBNumber = rpDBNumber req, prSpans = [], prProbes = [],
                     prSummary = \<lparr>sumReadable = [], sumEmpty = [], sumFailed = [], sumInconclusive = []\<rparr>\<rparr>
          in io_bind (io_pure (map_option Inr (offset_loop step (rpEnd req) (rpStart req) []))) (\<lambda>offs.
             \<lambda>s. if length offs > 0 \<and> clConn s = None then io_fail (Sentinel ErrNotConnected) s
                 else io_bind (probe_offsets E cx req probeSize offs []) (\<lambda>v. case v of
                        Inl err \<Rightarrow> io_ret (out, Some err)
                      | Inr observations \<Rightarrow>
                          let (spans, summary) = ConsolidateSpans observations step probeSize
                          in io_ret (out\<lparr>prProbes := observations, prSpans := spans, prSummary := summary\<rparr>, None)) s))"

end
