(* ===== verification/Range_Scan_Props.thy ===== *)
theory Range_Scan_Props
  imports Range_Scan
begin

text \<open>
  Properties of the range scan: the probe offsets, the decomposition of the observations into
  maximal runs that the spans describe, the partition of the spans by the summary, and the
  scan of a target that serves its memory.
\<close>

section \<open>Offsets\<close>

definition grid :: "int \<Rightarrow> int \<Rightarrow> int \<Rightarrow> int list" where
  \<comment> \<open>the points \<open>start, start + step, ..\<close> below \<open>end'\<close>\<close>
  "grid start end' step = map (\<lambda>k. start + int k * step) [0..<nat ((end' - start + step - 1) div step)]"

lemma grid_empty:
  assumes "0 < step" "end' \<le> start"
  shows "grid start end' step = []"
proof -
  have "(end' - start + step - 1) div step \<le> (step - 1) div step"
    using assms by (intro zdiv_mono1) auto
  also have "\<dots> = 0" using assms(1) by simp
  finally show ?thesis by (simp add: grid_def)
qed

lemma grid_step:
  assumes "0 < step" "start < end'"
  shows "grid start end' step = start # grid (start + step) end' step"
proof -
  have d: "(end' - start + step - 1) div step = (end' - (start + step) + step - 1) div step + 1"
    using assms(1) div_add_self2 [of step "end' - start - 1"] by (simp add: algebra_simps)
  have "0 \<le> (end' - (start + step) + step - 1) div step"
    using assms by (simp add: pos_imp_zdiv_nonneg_iff)
  then have n: "nat ((end' - start + step - 1) div step) = Suc (nat ((end' - (start + step) + step - 1) div step))"
    unfolding d by simp
  show ?thesis
    unfolding grid_def n upt_conv_Cons [OF zero_less_Suc] map_Suc_upt [symmetric]
    by (simp add: algebra_simps)
qed

lemma offset_loop_grid:
  assumes "0 < step" "end' + step < 2 ^ 63" "- (2 ^ 63) \<le> offs"
  shows "offset_loop step end' offs acc = Some (acc @ grid offs end' step)"
  using assms(3)
proof (induction "nat (end' - offs)" arbitrary: offs acc rule: less_induct)
  case less
  show ?case
  proof (cases "offs < end'")
    case False
    then show ?thesis using assms(1) by (subst offset_loop.simps) (simp add: grid_empty)
  next
    case True
    have "in64 (offs + step)" using True assms(1,2) less.prems by (simp add: in64_def)
    then have w: "wrap64 (offs + step) = offs + step" by (rule wrap64_id)
    have "offset_loop step end' offs acc = offset_loop step end' (offs + step) (acc @ [offs])"
      using True by (subst offset_loop.simps) (simp add: w)
    also have "\<dots> = Some ((acc @ [offs]) @ grid (offs + step) end' step)"
      by (rule less.hyps) (use True assms(1) less.prems in auto)
    finally show ?thesis using grid_step [OF assms(1) True] by simp
  qed
qed

lemma grid_mem:
  assumes "0 < step"
  shows "offs \<in> set (grid start end' step) \<longleftrightarrow> start \<le> offs \<and> offs < end' \<and> step dvd (offs - start)"
proof (induction "nat (end' - start)" arbitrary: start rule: less_induct)
  case less
  show ?case
  proof (cases "start < end'")
    case False
    then show ?thesis using assms by (auto simp: grid_empty)
  next
    case True
    have IH: "offs \<in> set (grid (start + step) end' step) \<longleftrightarrow>
        start + step \<le> offs \<and> offs < end' \<and> step dvd (offs - (start + step))"
      by (rule less) (use True assms in auto)
    have "step dvd (offs - start) \<longleftrightarrow> step dvd (offs - (start + step))"
      by (metis diff_diff_eq dvd_diff_right_iff dvd_refl dvd_diff_commute minus_diff_eq dvd_minus_iff)
    moreover have "step dvd (offs - start) \<Longrightarrow> start < offs \<Longrightarrow> start + step \<le> offs"
      using zdvd_imp_le [of step "offs - start"] by linarith
    ultimately show ?thesis
      using grid_step [OF assms True] IH True assms by auto
  qed
qed

section \<open>Runs\<close>

abbreviation ob_status :: "ReadProbeObservation \<Rightarrow> ReadStatus" where
  "ob_status ob \<equiv> rrStatus (poResult ob)"

definition follows :: "int \<Rightarrow> ReadProbeObservation \<Rightarrow> ReadProbeObservation \<Rightarrow> bool" where
  \<comment> \<open>the second observation continues a run that ends with the first\<close>
  "follows step a b \<longleftrightarrow> ob_status b = ob_status a \<and> poOffset b = wrap64 (poOffset a + step)"

definition is_run :: "int \<Rightarrow> ReadProbeObservation list \<Rightarrow> bool" where
  "is_run step run \<longleftrightarrow> run \<noteq> [] \<and> successively (follows step) run"

definition runs_of :: "int \<Rightarrow> ReadProbeObservation list \<Rightarrow> ReadProbeObservation list list \<Rightarrow> bool" where
  \<comment> \<open>the observations cut into maximal runs\<close>
  "runs_of step obs runs \<longleftrightarrow> concat runs = obs \<and> list_all (is_run step) runs \<and>
     successively (\<lambda>r1 r2. \<not> follows step (last r1) (hd r2)) runs"

lemma take_run_spec:
  assumes "take_run (ob_status prev) step prev obs = (run, rest)"
  shows "run @ rest = obs \<and> successively (follows step) (prev # run) \<and>
    (rest \<noteq> [] \<longrightarrow> \<not> follows step (last (prev # run)) (hd rest))"
  using assms
proof (induction obs arbitrary: prev run rest)
  case (Cons ob obs)
  show ?case
  proof (cases "follows step prev ob")
    case True
    then have st: "ob_status ob = ob_status prev" "poOffset ob = wrap64 (poOffset prev + step)"
      by (simp_all add: follows_def)
    obtain run' rest' where r: "take_run (ob_status ob) step ob obs = (run', rest')"
      by (cases "take_run (ob_status ob) step ob obs")
    then have eq: "run = ob # run'" "rest = rest'" using Cons.prems st by simp_all
    show ?thesis using Cons.IH [OF r] True unfolding eq by (simp add: successively_Cons)
  next
    case False
    then have "run = []" "rest = ob # obs" using Cons.prems by (auto simp: follows_def split: if_splits)
    then show ?thesis using False by simp
  qed
qed simp

lemma consolidate_runs:
  "\<exists>runs. runs_of step obs runs \<and>
     consolidate step ps obs spans by' = (spans @ map (span_of_run ps) runs,
       \<lambda>st. by' st @ filter (\<lambda>sp. spStatus sp = st) (map (span_of_run ps) runs))"
proof (induction step ps obs spans by' rule: consolidate.induct)
  case (1 step ps spans by')
  show ?case by (intro exI [of _ "[]"]) (simp add: runs_of_def)
next
  case (2 step ps ob obs spans by')
  obtain run rest where tr: "take_run (ob_status ob) step ob obs = (run, rest)"
    by (cases "take_run (ob_status ob) step ob obs")
  let ?sp = "span_of_run ps (ob # run)"
  have status: "spStatus ?sp = ob_status ob" by (simp add: span_of_run_def Let_def split: prod.split)
  obtain runs where runs: "runs_of step rest runs"
    "consolidate step ps rest (spans @ [?sp]) (by'(ob_status ob := by' (ob_status ob) @ [?sp])) =
      ((spans @ [?sp]) @ map (span_of_run ps) runs,
       \<lambda>st. (by'(ob_status ob := by' (ob_status ob) @ [?sp])) st @
         filter (\<lambda>sp. spStatus sp = st) (map (span_of_run ps) runs))"
    using "2.IH" [OF refl refl refl] unfolding tr fst_conv snd_conv by blast
  note spec = take_run_spec [OF tr]
  have hd: "hd rest = hd (hd runs)" if "runs \<noteq> []"
    using runs(1) that by (cases runs) (auto simp: runs_of_def is_run_def)
  have "runs_of step (ob # obs) ((ob # run) # runs)"
    using spec runs(1) hd by (cases runs) (auto simp: runs_of_def is_run_def)
  moreover have "consolidate step ps (ob # obs) spans by' = (spans @ map (span_of_run ps) ((ob # run) # runs),
       \<lambda>st. by' st @ filter (\<lambda>sp. spStatus sp = st) (map (span_of_run ps) ((ob # run) # runs)))"
    using runs(2) by (auto simp: tr Let_def status fun_eq_iff)
  ultimately show ?case by blast
qed

definition eff_step :: "int \<Rightarrow> int \<Rightarrow> int" where
  "eff_step step ps = (if step \<le> 0 then ps else step)"

lemma ConsolidateSpans_runs:
  assumes "ConsolidateSpans obs step ps = (spans, sm)"
  shows "\<exists>runs. runs_of (eff_step step ps) obs runs \<and> spans = map (span_of_run ps) runs \<and>
    sumReadable sm = filter (\<lambda>sp. spStatus sp = ReadStatusSuccess) spans \<and>
    sumEmpty sm = filter (\<lambda>sp. spStatus sp = ReadStatusEmptyRead) spans \<and>
    sumInconclusive sm = filter (\<lambda>sp. spStatus sp = ReadStatusInconclusive) spans \<and>
    sumFailed sm = concat (map (\<lambda>st. filter (\<lambda>sp. spStatus sp = st) spans)
      [ReadStatusRejected, ReadStatusTimeout, ReadStatusTransportErr, ReadStatusProtocolErr, ReadStatusShortRead])"
proof (cases "obs = []")
  case True
  then show ?thesis
    using assms by (intro exI [of _ "[]"]) (auto simp: ConsolidateSpans_def runs_of_def)
next
  case False
  obtain runs where runs: "runs_of (eff_step step ps) obs runs"
    "consolidate (eff_step step ps) ps obs [] (\<lambda>_. []) = (map (span_of_run ps) runs,
       \<lambda>st. filter (\<lambda>sp. spStatus sp = st) (map (span_of_run ps) runs))"
    using consolidate_runs [of "eff_step step ps" obs ps "[]" "\<lambda>_. []"] by auto
  have "spans = map (span_of_run ps) runs" "sm = \<lparr>sumReadable = filter (\<lambda>sp. spStatus sp = ReadStatusSuccess) spans,
      sumEmpty = filter (\<lambda>sp. spStatus sp = ReadStatusEmptyRead) spans,
      sumFailed = concat (map (\<lambda>st. filter (\<lambda>sp. spStatus sp = st) spans)
        [ReadStatusRejected, ReadStatusTimeout, ReadStatusTransportErr, ReadStatusProtocolErr, ReadStatusShortRead]),
      sumInconclusive = filter (\<lambda>sp. spStatus sp = ReadStatusInconclusive) spans\<rparr>"
    using assms False runs(2) by (auto simp: ConsolidateSpans_def eff_step_def Let_def)
  then show ?thesis using runs(1) by auto
qed

lemma summary_partition:
  assumes "ConsolidateSpans obs step ps = (spans, sm)" "\<forall>ob\<in>set obs. ob_status ob \<noteq> ReadStatusUnset"
  shows "mset (sumReadable sm @ sumEmpty sm @ sumFailed sm @ sumInconclusive sm) = mset spans"
proof -
  obtain runs where runs: "runs_of (eff_step step ps) obs runs" "spans = map (span_of_run ps) runs"
    and sm: "sumReadable sm = filter (\<lambda>sp. spStatus sp = ReadStatusSuccess) spans"
    "sumEmpty sm = filter (\<lambda>sp. spStatus sp = ReadStatusEmptyRead) spans"
    "sumInconclusive sm = filter (\<lambda>sp. spStatus sp = ReadStatusInconclusive) spans"
    "sumFailed sm = concat (map (\<lambda>st. filter (\<lambda>sp. spStatus sp = st) spans)
      [ReadStatusRejected, ReadStatusTimeout, ReadStatusTransportErr, ReadStatusProtocolErr, ReadStatusShortRead])"
    using ConsolidateSpans_runs [OF assms(1)] by blast
  have "spStatus sp \<noteq> ReadStatusUnset" if sp: "sp \<in> set spans" for sp
  proof -
    obtain run where run: "run \<in> set runs" "sp = span_of_run ps run" using sp runs(2) by auto
    then have "run \<noteq> []" using runs(1) by (auto simp: runs_of_def is_run_def list_all_iff)
    then have "hd run \<in> set run" "set run \<subseteq> set obs" using run(1) runs(1) by (auto simp: runs_of_def)
    then have "hd run \<in> set obs" by blast
    then show ?thesis using assms(2) run(2) by (simp add: span_of_run_def split: prod.split)
  qed
  then show ?thesis
    unfolding sm
  proof (induction spans)
    case (Cons sp spans)
    then show ?case by (cases "spStatus sp") simp_all
  qed simp
qed

lemma run_offsets:
  assumes "is_run step run" "0 < step" "\<forall>ob\<in>set run. in64 (poOffset ob + step)"
  shows "map poOffset run = map (\<lambda>k. poOffset (hd run) + int k * step) [0..<length run]"
  using assms
proof (induction run)
  case (Cons ob run)
  show ?case
  proof (cases run)
    case Nil
    then show ?thesis by simp
  next
    case (Cons ob2 run2)
    have fol: "poOffset ob2 = poOffset ob + step"
      using Cons.prems(1,3) Cons by (auto simp: is_run_def follows_def wrap64_id)
    have "is_run step run" using Cons.prems(1) Cons by (simp add: is_run_def)
    then have IH: "map poOffset run = map (\<lambda>k. poOffset (hd run) + int k * step) [0..<length run]"
      using Cons.IH Cons.prems(2,3) by simp
    have "map (\<lambda>k. poOffset ob + int k * step) [0..<Suc (length run)] =
        poOffset ob # map (\<lambda>k. poOffset ob + int (Suc k) * step) [0..<length run]"
      unfolding upt_conv_Cons [OF zero_less_Suc] map_Suc_upt [symmetric] by (simp add: comp_def)
    also have "\<dots> = poOffset ob # map (\<lambda>k. poOffset ob2 + int k * step) [0..<length run]"
      by (simp add: fol algebra_simps)
    finally show ?thesis using IH Cons by simp
  qed
qed (simp add: is_run_def)

lemma run_status: "is_run step run \<Longrightarrow> ob \<in> set run \<Longrightarrow> ob_status ob = ob_status (hd run)"
proof (induction run arbitrary: ob)
  case (Cons x run)
  show ?case
  proof (cases run)
    case Nil
    then show ?thesis using Cons.prems by simp
  next
    case (Cons y run2)
    then have "ob_status y = ob_status x" "is_run step run"
      using Cons.prems(1) by (auto simp: is_run_def follows_def)
    then show ?thesis using Cons.IH [of ob] Cons Cons.prems(2) by auto
  qed
qed simp

lemma span_of_run_sel [simp]:
  "spStart (span_of_run ps run) = poOffset (hd run)"
  "spEnd (span_of_run ps run) = wrap64 (poOffset (last run) + ps)"
  "spStatus (span_of_run ps run) = ob_status (hd run)"
  by (simp_all add: span_of_run_def split: prod.split)

lemma span_probed:
  assumes "is_run step run" "0 < step" "step \<le> ps"
    and "\<forall>ob\<in>set run. in64 (poOffset ob + step) \<and> in64 (poOffset ob + ps)"
    and "spStart (span_of_run ps run) \<le> a" "a < spEnd (span_of_run ps run)"
  shows "\<exists>ob\<in>set run. poOffset ob \<le> a \<and> a < poOffset ob + ps"
proof -
  let ?s = "poOffset (hd run)"
  have ne: "run \<noteq> []" using assms(1) by (simp add: is_run_def)
  have offs: "map poOffset run = map (\<lambda>k. ?s + int k * step) [0..<length run]"
    using run_offsets [OF assms(1,2)] assms(4) by blast
  have off_k: "poOffset (run ! k) = ?s + int k * step" if "k < length run" for k
    using arg_cong [OF offs, of "\<lambda>xs. xs ! k"] that by simp
  have "in64 (poOffset (last run) + ps)" using assms(4) ne by simp
  then have e: "a < poOffset (last run) + ps" using assms(6) by (simp add: wrap64_id)
  define k where "k = min (nat ((a - ?s) div step)) (length run - 1)"
  have k: "k < length run" using ne by (cases run) (simp_all add: k_def)
  have q: "0 \<le> (a - ?s) div step" using assms(2,5) by (simp add: pos_imp_zdiv_nonneg_iff)
  have split: "a - ?s = step * ((a - ?s) div step) + (a - ?s) mod step" by simp
  have md: "0 \<le> (a - ?s) mod step" "(a - ?s) mod step < step" using assms(2) by simp_all
  have "poOffset (run ! k) \<le> a \<and> a < poOffset (run ! k) + ps"
  proof (cases "nat ((a - ?s) div step) \<le> length run - 1")
    case True
    then have "int k = (a - ?s) div step" using q by (simp add: k_def)
    then have "poOffset (run ! k) = ?s + step * ((a - ?s) div step)"
      using off_k [OF k] by (simp add: mult.commute)
    then show ?thesis using split md assms(3) by linarith
  next
    case False
    then have k2: "k = length run - 1" by (simp add: k_def)
    then have last: "run ! k = last run" using ne by (simp add: last_conv_nth)
    have "int k \<le> (a - ?s) div step" using False k2 q by linarith
    then have "step * int k \<le> step * ((a - ?s) div step)" using assms(2) by (intro mult_left_mono) auto
    then have "step * int k \<le> a - ?s" using split md by linarith
    then have "poOffset (run ! k) \<le> a" using off_k [OF k] by (simp add: mult.commute)
    then show ?thesis using last e by simp
  qed
  then show ?thesis using k nth_mem by blast
qed

lemma spans_probed:
  assumes "ConsolidateSpans obs step ps = (spans, sm)" "0 < step" "step \<le> ps"
    and "\<forall>ob\<in>set obs. in64 (poOffset ob + step) \<and> in64 (poOffset ob + ps)"
    and "sp \<in> set spans" "spStart sp \<le> a" "a < spEnd sp"
  shows "\<exists>ob\<in>set obs. ob_status ob = spStatus sp \<and> poOffset ob \<le> a \<and> a < poOffset ob + ps"
proof -
  have st: "eff_step step ps = step" using assms(2) by (simp add: eff_step_def)
  obtain runs where runs: "runs_of step obs runs" "spans = map (span_of_run ps) runs"
    using ConsolidateSpans_runs [OF assms(1)] st by auto
  obtain run where run: "run \<in> set runs" "sp = span_of_run ps run" using assms(5) runs(2) by auto
  have r: "is_run step run" "set run \<subseteq> set obs"
    using run(1) runs(1) by (auto simp: runs_of_def list_all_iff)
  obtain ob where ob: "ob \<in> set run" "poOffset ob \<le> a" "a < poOffset ob + ps"
    using span_probed [OF r(1) assms(2,3), of a] assms(4,6,7) r(2) run(2) by blast
  then show ?thesis using run_status [OF r(1) ob(1)] r(2) run(2) by auto
qed

section \<open>Scanning a target that serves its memory\<close>

lemma read_series_serves:
  assumes "ctx_live cx" "serves E m0" "in_range addr (aSize addr)" "0 \<le> aSize addr"
  shows "client_inv s \<Longrightarrow> clConn s \<noteq> None \<Longrightarrow> 24 \<le> clPduSize s \<Longrightarrow> clPduSize s \<le> 8192 \<Longrightarrow>
    \<exists>rs t. read_series E cx addr ps d n f acc s = (Some (Inr (Inr (acc @ rs))), t) \<and> length rs = n \<and>
      list_all (\<lambda>r. rrStatus r = ReadStatusSuccess \<and>
        rrData r = peek (memory_of E m0 s) (key_of addr) (aStart addr) (nat (aSize addr))) rs \<and>
      same_session s t \<and> memory_of E m0 t = memory_of E m0 s"
proof (induction n arbitrary: f acc s)
  case 0
  then show ?case by (simp add: ss.R_refl)
next
  case (Suc n)
  obtain evs where p: "pause cx d f s = (Some (Inr ()), grow s evs)" "tx_of evs = []"
    using pause_live [OF assms(1)] by blast
  let ?u = "grow s evs"
  have u: "same_session s ?u" "memory_of E m0 ?u = memory_of E m0 s"
    using same_session_grow state_of_grow [OF p(2)] by auto
  have inv: "client_inv ?u" by (rule same_session_inv [OF u(1) Suc.prems(1)])
  obtain rr v where v: "ReadArea E cx addr ?u = (Some (Inr rr), v)" "rrStatus rr = ReadStatusSuccess"
    "rrData rr = peek (memory_of E m0 s) (key_of addr) (aStart addr) (nat (aSize addr))"
    "same_session ?u v" "memory_of E m0 v = memory_of E m0 s"
    using ReadArea_serves [OF assms(1,2) inv _ _ _ assms(3,4)] Suc.prems(2-4) u(2) by auto
  have sv: "same_session s v" using ss.R_trans [OF u(1) v(4)] .
  obtain rs t where t: "read_series E cx addr ps d n False (acc @ [rr]) v = (Some (Inr (Inr ((acc @ [rr]) @ rs))), t)"
    "length rs = n" "list_all (\<lambda>r. rrStatus r = ReadStatusSuccess \<and>
        rrData r = peek (memory_of E m0 v) (key_of addr) (aStart addr) (nat (aSize addr))) rs"
    "same_session v t" "memory_of E m0 t = memory_of E m0 v"
    using Suc.IH [OF same_session_inv [OF sv Suc.prems(1)], of False "acc @ [rr]"] Suc.prems(2-4)
    by (auto simp: same_session_sel [OF sv])
  have "read_series E cx addr ps d (Suc n) f acc s = (Some (Inr (Inr (acc @ (rr # rs)))), t)"
    using p(1) v(1) t(1) by (simp add: io_case_def)
  moreover have "same_session s t" using ss.R_trans [OF sv t(4)] .
  ultimately show ?case using v t by (intro exI [of _ "rr # rs"] exI [of _ t]) auto
qed

lemma all_same_uniform:
  "list_all (\<lambda>r. rrStatus r = st \<and> rrData r = d) rs \<Longrightarrow> all_same rs"
  by (cases rs) (auto simp: all_same_def same_as_def list_all_iff)

lemma probeOneOffset_serves:
  assumes "ctx_live cx" "serves E m0" "0 \<le> ps"
    and "in_range \<lparr>aArea = rpArea req, aDBNumber = rpDBNumber req, aStart = offs, aSize = ps\<rparr> ps"
    and "client_inv s" "clConn s \<noteq> None" "24 \<le> clPduSize s" "clPduSize s \<le> 8192"
  shows "\<exists>ob t. probeOneOffset E cx req offs ps s = (Some (Inr ob), t) \<and>
    ob_status ob = ReadStatusSuccess \<and>
    rrData (poResult ob) = peek (memory_of E m0 s) (rpArea req, rpDBNumber req) offs (nat ps) \<and>
    same_session s t \<and> memory_of E m0 t = memory_of E m0 s"
proof -
  let ?addr = "\<lparr>aArea = rpArea req, aDBNumber = rpDBNumber req, aStart = offs, aSize = ps\<rparr>"
  let ?d = "peek (memory_of E m0 s) (rpArea req, rpDBNumber req) offs (nat ps)"
  let ?n = "nat (if rpRepeat req < 1 then 1 else rpRepeat req)"
  obtain rs u where u: "read_series E cx ?addr ps (rpInterval req) ?n True [] s = (Some (Inr (Inr rs)), u)"
    "length rs = ?n" "list_all (\<lambda>r. rrStatus r = ReadStatusSuccess \<and> rrData r = ?d) rs"
    "same_session s u" "memory_of E m0 u = memory_of E m0 s"
    using read_series_serves [OF assms(1,2) _ _ assms(5-8), of ?addr ps "rpInterval req" ?n True "[]"] assms(3,4)
    by (auto simp: key_of_def)
  have ne: "rs \<noteq> []" using u(2) by (auto split: if_splits)
  have last: "rrStatus (last rs) = ReadStatusSuccess" "rrData (last rs) = ?d"
    using u(3) ne by (auto simp: list_all_iff)
  have inv: "client_inv u" by (rule same_session_inv [OF u(4) assms(5)])
  have "\<exists>ob t. probeOneOffset E cx req offs ps s = (Some (Inr ob), t) \<and> poResult ob = last rs \<and>
      same_session s t \<and> memory_of E m0 t = memory_of E m0 s"
  proof (cases "0 < rpRetries req")
    case False
    then show ?thesis
      using u ne all_same_uniform [OF u(3)]
      by (cases "1 < rpRepeat req") (auto simp: probeOneOffset_def Let_def)
  next
    case True
    obtain as t where t: "read_series E cx ?addr ps (rpRetryDelay req) (nat (rpRetries req + 1)) True [] u =
        (Some (Inr (Inr as)), t)"
      "list_all (\<lambda>r. rrStatus r = ReadStatusSuccess \<and> rrData r = ?d) as"
      "same_session u t" "memory_of E m0 t = memory_of E m0 s"
      using read_series_serves [OF assms(1,2) _ _ inv, of ?addr ps "rpRetryDelay req" "nat (rpRetries req + 1)" True "[]"]
        assms(3,4,6-8) u(5) by (auto simp: key_of_def same_session_sel [OF u(4)])
    then show ?thesis
      using True u ne all_same_uniform [OF u(3)] all_same_uniform [OF t(2)] ss.R_trans [OF u(4) t(3)]
      by (cases "1 < rpRepeat req") (auto simp: probeOneOffset_def Let_def)
  qed
  then show ?thesis using last by fastforce
qed

abbreviation scan_addr :: "RangeProbeRequest \<Rightarrow> int \<Rightarrow> int \<Rightarrow> Address" where
  "scan_addr req offs ps \<equiv> \<lparr>aArea = rpArea req, aDBNumber = rpDBNumber req, aStart = offs, aSize = ps\<rparr>"

lemma probe_offsets_serves:
  assumes "ctx_live cx" "serves E m0" "0 \<le> ps"
  shows "client_inv s \<Longrightarrow> clConn s \<noteq> None \<Longrightarrow> 24 \<le> clPduSize s \<Longrightarrow> clPduSize s \<le> 8192 \<Longrightarrow>
    \<forall>a\<in>set offs. in_range (scan_addr req a ps) ps \<Longrightarrow>
    \<exists>obs t. probe_offsets E cx req ps offs acc s = (Some (Inr (Inr (acc @ obs))), t) \<and>
      map poOffset obs = offs \<and>
      list_all (\<lambda>ob. ob_status ob = ReadStatusSuccess \<and> poRequest ob = scan_addr req (poOffset ob) ps \<and>
        rrData (poResult ob) = peek (memory_of E m0 s) (rpArea req, rpDBNumber req) (poOffset ob) (nat ps)) obs \<and>
      same_session s t \<and> memory_of E m0 t = memory_of E m0 s"
proof (induction offs arbitrary: acc s)
  case Nil
  then show ?case by (simp add: ss.R_refl)
next
  case (Cons a offs)
  have live: "ctx_check cx s = (Some (Inr ()), s)" using assms(1) by (simp add: ctx_check_def ctx_live_def)
  have a: "in_range (scan_addr req a ps) ps" using Cons.prems(5) by simp
  obtain ob u where u: "probeOneOffset E cx req a ps s = (Some (Inr ob), u)"
    "ob_status ob = ReadStatusSuccess"
    "rrData (poResult ob) = peek (memory_of E m0 s) (rpArea req, rpDBNumber req) a (nat ps)"
    "same_session s u" "memory_of E m0 u = memory_of E m0 s"
    using probeOneOffset_serves [OF assms a Cons.prems(1-4)] by blast
  let ?ob = "ob\<lparr>poOffset := a, poRequest := scan_addr req a ps\<rparr>"
  have pu: "client_inv u" "clConn u \<noteq> None" "24 \<le> clPduSize u" "clPduSize u \<le> 8192"
    using same_session_inv [OF u(4) Cons.prems(1)] Cons.prems(2-4) by (simp_all add: same_session_sel [OF u(4)])
  obtain obs t where t: "probe_offsets E cx req ps offs (acc @ [?ob]) u = (Some (Inr (Inr ((acc @ [?ob]) @ obs))), t)"
      "map poOffset obs = offs"
      "list_all (\<lambda>ob. ob_status ob = ReadStatusSuccess \<and> poRequest ob = scan_addr req (poOffset ob) ps \<and>
        rrData (poResult ob) = peek (memory_of E m0 u) (rpArea req, rpDBNumber req) (poOffset ob) (nat ps)) obs"
      "same_session u t" "memory_of E m0 t = memory_of E m0 u"
    using Cons.IH [OF pu, of "acc @ [?ob]"] Cons.prems(5) by auto
  have "probe_offsets E cx req ps (a # offs) acc s = (Some (Inr (Inr (acc @ (?ob # obs)))), t)"
    using u(1) t(1) live by (simp add: io_case_def)
  moreover have "same_session s t" using ss.R_trans [OF u(4) t(4)] .
  ultimately show ?case using t u by (intro exI [of _ "?ob # obs"] exI [of _ t]) auto
qed

lemma runs_of_single:
  assumes "runs_of step obs runs" "obs \<noteq> []" "successively (follows step) obs"
  shows "runs = [obs]"
proof -
  have ne: "\<forall>r\<in>set runs. r \<noteq> []" using assms(1) by (auto simp: runs_of_def is_run_def list_all_iff)
  obtain r rs where runs: "runs = r # rs" using assms(1,2) by (cases runs) (auto simp: runs_of_def)
  have "rs = []"
  proof (cases rs)
    case (Cons r2 rs2)
    then have "obs = r @ (r2 @ concat rs2)" "\<not> follows step (last r) (hd r2)" "r \<noteq> []" "r2 \<noteq> []"
      using assms(1) runs ne by (auto simp: runs_of_def)
    then show ?thesis using assms(3) by (auto simp: successively_append_iff)
  qed
  then show ?thesis using assms(1) runs by (simp add: runs_of_def)
qed

lemma grid_successively:
  assumes "map poOffset obs = grid start end' step" "\<forall>ob\<in>set obs. ob_status ob = st" "0 < step"
    and "end' + step < 2 ^ 63" "- (2 ^ 63) \<le> start"
  shows "successively (follows step) obs"
  using assms(1,2,5)
proof (induction obs arbitrary: start)
  case (Cons ob obs)
  have lt: "start < end'" using grid_empty [OF assms(3), of end' start] Cons.prems(1) by fastforce
  then have m: "poOffset ob = start" "map poOffset obs = grid (start + step) end' step"
    using Cons.prems(1) grid_step [OF assms(3) lt] by simp_all
  have IH: "successively (follows step) obs" using Cons.IH [OF m(2)] Cons.prems(2,3) assms(3) by simp
  have "follows step ob ob2" if "obs = ob2 # obs2" for ob2 obs2
  proof -
    have "start + step < end'" using grid_empty [OF assms(3), of end' "start + step"] m(2) that by fastforce
    then have "poOffset ob2 = start + step" using grid_step [OF assms(3), of "start + step"] m(2) that by simp
    moreover have "wrap64 (start + step) = start + step"
      using lt assms(3,4) Cons.prems(3) by (intro wrap64_id) (simp add: in64_def)
    ultimately show ?thesis using Cons.prems(2) that m(1) by (simp add: follows_def)
  qed
  then show ?case using IH by (cases obs) auto
qed simp

lemma scan_step_pos: "0 < scan_step req"
  by (simp add: scan_step_def Let_def)

lemma scan_size_pos: "0 < scan_size req"
  by (simp add: scan_size_def)

lemma ProbeReadableRanges_serves:
  assumes "ctx_live cx" "serves E m0" "client_inv s" "clConn s \<noteq> None" "24 \<le> clPduSize s" "clPduSize s \<le> 8192"
    and "validateRangeProbeRequest req = None" "rpStart req < rpEnd req" "rpEnd req + scan_step req < 2 ^ 63"
    and "in_range (scan_addr req (rpStart req) 0) (rpEnd req - rpStart req + scan_size req)"
  shows "\<exists>res sp t. ProbeReadableRanges E cx req s = (Some (Inr (res, None)), t) \<and>
    map poOffset (prProbes res) = grid (rpStart req) (rpEnd req) (scan_step req) \<and>
    list_all (\<lambda>ob. rrData (poResult ob) =
      peek (memory_of E m0 s) (rpArea req, rpDBNumber req) (poOffset ob) (nat (scan_size req))) (prProbes res) \<and>
    prSpans res = [sp] \<and> sumReadable (prSummary res) = [sp] \<and> spStatus sp = ReadStatusSuccess \<and>
    spStart sp = rpStart req \<and> spEnd sp = last (grid (rpStart req) (rpEnd req) (scan_step req)) + scan_size req \<and>
    same_session s t \<and> memory_of E m0 t = memory_of E m0 s"
proof -
  let ?g = "grid (rpStart req) (rpEnd req) (scan_step req)" and ?ps = "scan_size req"
  note pos = scan_step_pos [of req] scan_size_pos [of req]
  have st0: "- (2 ^ 63) \<le> rpStart req" using assms(10) by (simp add: in_range_def)
  have loop: "offset_loop (scan_step req) (rpEnd req) (rpStart req) [] = Some ?g"
    using offset_loop_grid [OF pos(1) assms(9) st0, of "[]"] by simp
  have g: "?g = rpStart req # grid (rpStart req + scan_step req) (rpEnd req) (scan_step req)"
    by (rule grid_step [OF pos(1) assms(8)])
  have rng: "\<forall>a\<in>set ?g. in_range (scan_addr req a ?ps) ?ps"
    using assms(10) grid_mem [OF pos(1)] by (auto simp: in_range_def)
  obtain obs t where obs: "probe_offsets E cx req ?ps ?g [] s = (Some (Inr (Inr obs)), t)" "map poOffset obs = ?g"
    "list_all (\<lambda>ob. ob_status ob = ReadStatusSuccess \<and> poRequest ob = scan_addr req (poOffset ob) ?ps \<and>
      rrData (poResult ob) = peek (memory_of E m0 s) (rpArea req, rpDBNumber req) (poOffset ob) (nat ?ps)) obs"
    "same_session s t" "memory_of E m0 t = memory_of E m0 s"
    using probe_offsets_serves [OF assms(1,2) less_imp_le [OF pos(2)] assms(3-6) rng, of "[]"] by auto
  have ne: "obs \<noteq> []" using obs(2) g by auto
  have succ: "\<forall>ob\<in>set obs. ob_status ob = ReadStatusSuccess" using obs(3) by (simp add: list_all_iff)
  obtain spans sm where cs: "ConsolidateSpans obs (scan_step req) ?ps = (spans, sm)"
    by (cases "ConsolidateSpans obs (scan_step req) ?ps")
  obtain runs where runs: "runs_of (scan_step req) obs runs" "spans = map (span_of_run ?ps) runs"
    "sumReadable sm = filter (\<lambda>sp. spStatus sp = ReadStatusSuccess) spans"
    using ConsolidateSpans_runs [OF cs] pos(1) by (auto simp: eff_step_def)
  have "runs = [obs]"
    using runs_of_single [OF runs(1) ne] grid_successively [OF obs(2) succ pos(1) assms(9) st0] by blast
  then have sp: "spans = [span_of_run ?ps obs]" using runs(2) by simp
  have hd: "hd obs \<in> set obs" "poOffset (hd obs) = rpStart req" "poOffset (last obs) = last ?g"
    using ne obs(2) g hd_map [OF ne, of poOffset] last_map [OF ne, of poOffset] by simp_all
  have "last ?g \<in> set ?g" unfolding g by (rule last_in_set) simp
  then have "in64 (last ?g + ?ps)"
    using grid_mem [OF pos(1)] assms(10) pos(2) by (auto simp: in_range_def in64_def)
  then have e: "spEnd (span_of_run ?ps obs) = last ?g + ?ps" using hd(3) by (simp add: wrap64_id)
  have lg: "0 < length ?g" using g by simp
  show ?thesis
    using assms(4,7) loop obs cs sp runs(3) succ hd e lg
    by (simp add: ProbeReadableRanges_def Let_def io_pure_def list_all_iff)
qed

section \<open>The scan does not panic\<close>

lemma safe_read_series:
  "frames_bounded E \<Longrightarrow> safe (read_series E cx addr ps d n f acc)"
proof (induction n arbitrary: f acc)
  case (Suc n)
  show ?case
    unfolding read_series.simps
    by (intro safe_case safe_pause) (auto split: sum.split intro: safe_case safe_ReadArea Suc)
qed simp

lemma safe_probeOneOffset: "frames_bounded E \<Longrightarrow> safe (probeOneOffset E cx req offs ps)"
  unfolding probeOneOffset_def Let_def
  by (intro safe_bind safe_read_series) (auto split: sum.split intro!: safe_bind safe_read_series)

lemma safe_probe_offsets: "frames_bounded E \<Longrightarrow> safe (probe_offsets E cx req ps offs acc)"
proof (induction offs arbitrary: acc)
  case (Cons a offs)
  show ?case
    unfolding probe_offsets.simps
    by (intro safe_case) (auto split: sum.split intro!: safe_bind safe_probeOneOffset Cons)
qed simp

lemma safe_if: "safe m1 \<Longrightarrow> safe m2 \<Longrightarrow> safe (\<lambda>s. if c s then m1 s else m2 s)"
  by (simp add: safe_def no_panic_def)

lemma safe_ProbeReadableRanges:
  assumes "frames_bounded E" "rpEnd req + scan_step req < 2 ^ 63" "- (2 ^ 63) \<le> rpStart req"
  shows "safe (ProbeReadableRanges E cx req)"
proof (cases "validateRangeProbeRequest req")
  case (Some err)
  then show ?thesis by (simp add: ProbeReadableRanges_def)
next
  case None
  note loop = offset_loop_grid [OF scan_step_pos assms(2,3), of "[]"]
  have body: "safe (io_bind (probe_offsets E cx req ps offs []) (\<lambda>v. case v of
        Inl err \<Rightarrow> io_ret (out, Some err)
      | Inr obs \<Rightarrow> (let (spans, summary) = ConsolidateSpans obs step ps
          in io_ret (out\<lparr>prProbes := obs, prSpans := spans, prSummary := summary\<rparr>, None))))"
    for ps offs step and out :: RangeProbeResult
    by (intro safe_bind safe_probe_offsets assms(1)) (auto simp: Let_def split: sum.split prod.split)
  show ?thesis
    unfolding ProbeReadableRanges_def Let_def None option.case loop
    by (intro safe_bind safe_pure safe_if body [unfolded Let_def] safe_simps) simp
qed

end
