(* ===== verification/Client_Steps.thy ===== *)
theory Client_Steps
  imports Block_Ops Range_Scan_Props
begin

text \<open>
  The client as a state machine: one step is one call of an exported method, in any order, with any
  arguments, against any peer.  The two snapshots, \<open>ConnectionInfo\<close> and \<open>PDUSize\<close>, change nothing and have
  no step.  A call that panics and one that does not return count with the state in which they stop.
  The session invariant holds in every state that can be reached from a new client.
\<close>

text \<open>
  Two exported methods are not \<open>safe\<close>: \<open>Identify\<close> can panic and \<open>ProbeReadableRanges\<close> need not return.
  They keep the session all the same, up to the point where they stop.
\<close>

definition steady :: "(client, 'a) io \<Rightarrow> bool" where
  "steady m \<longleftrightarrow> (\<forall>s. client_inv s \<longrightarrow> client_inv (snd (m s)) \<and> tidy s (snd (m s)))"

lemma steady_safe: "safe m \<Longrightarrow> steady m"
  by (simp add: safe_def steady_def)

lemma steady_pure: "steady (io_pure r)"
  by (simp add: steady_def td.R_refl)

lemma steady_case:
  assumes "steady m" "\<And>r. steady (k r)"
  shows "steady (io_case m k)"
  unfolding steady_def
proof (intro allI impI)
  fix s assume s: "client_inv s"
  obtain r t where run: "m s = (r, t)" by (cases "m s")
  then have t: "client_inv t" "tidy s t" using assms(1) s by (auto simp: steady_def)
  show "client_inv (snd (io_case m k s)) \<and> tidy s (snd (io_case m k s))"
    using run t assms(2) by (cases r) (auto simp: steady_def io_case_def intro: td.R_trans)
qed

lemma steady_bind: "steady m \<Longrightarrow> (\<And>x. steady (k x)) \<Longrightarrow> steady (io_bind m k)"
  unfolding io_bind_def by (rule steady_case) (auto intro: steady_safe split: sum.split)

lemma steady_Identify:
  assumes "frames_bounded E"
  shows "steady (Identify U E cx)"
proof -
  have component: "safe (io_case (readComponentIDSZL E cx) (\<lambda>rc'.
      io_bind (io_pure (use_component U rc' info errs)) (\<lambda>(info, errs). io_ret (identify_result info errs))))"
    for info errs
    unfolding readComponentIDSZL_def
    by (intro safe_case safe_szl_read [OF assms] safe_bind safe_pure)
       (insert use_component_total, metis option.discI, simp split: prod.split)
  have "steady (readModuleIDSZL E cx)"
    unfolding readModuleIDSZL_def by (rule steady_safe [OF safe_szl_read [OF assms]])
  then show ?thesis
    unfolding Identify_def by (intro steady_case steady_bind steady_pure) (auto intro: steady_safe component)
qed

lemma steady_ProbeReadableRanges:
  assumes "frames_bounded E"
  shows "steady (ProbeReadableRanges E cx req)"
proof (cases "validateRangeProbeRequest req")
  case (Some err)
  then show ?thesis by (simp add: ProbeReadableRanges_def steady_safe)
next
  case None
  show ?thesis
    unfolding ProbeReadableRanges_def Let_def None option.case
    by (intro steady_bind steady_pure steady_safe safe_if safe_bind safe_probe_offsets assms safe_simps)
       (auto split: sum.split prod.split)
qed

inductive client_step :: "env \<Rightarrow> client \<Rightarrow> client \<Rightarrow> bool" for E where
  Connect: "client_step E s (snd (Connect E cx s))"
| Close: "client_step E s (snd (Close E s))"
| ReadArea: "client_step E s (snd (ReadArea E cx addr s))"
| WriteArea: "client_step E s (snd (WriteArea E cx addr data s))"
| ReadDB: "client_step E s (snd (ReadDB E cx dbNum offset size' s))"
| WriteDB: "client_step E s (snd (WriteDB E cx dbNum offset data s))"
| ReadInputs: "client_step E s (snd (ReadInputs E cx offset size' s))"
| ReadOutputs: "client_step E s (snd (ReadOutputs E cx offset size' s))"
| ReadMerkers: "client_step E s (snd (ReadMerkers E cx offset size' s))"
| Identify: "client_step E s (snd (Identify U E cx s))"
| GetCPUState: "client_step E s (snd (GetCPUState E cx s))"
| GetProtectionLevel: "client_step E s (snd (GetProtectionLevel E cx s))"
| ReadDiagBufferRaw: "client_step E s (snd (ReadDiagBufferRaw E cx s))"
| ReadDiagBuffer: "client_step E s (snd (ReadDiagBuffer E cx s))"
| ListBlocks: "client_step E s (snd (ListBlocks E cx bt s))"
| ListAllBlocks: "client_step E s (snd (ListAllBlocks E cx s))"
| GetBlockInfo: "client_step E s (snd (GetBlockInfo E cx bt num s))"
| UploadBlock: "client_step E s (snd (UploadBlock E cx bt num s))"
| ProbeReadableRanges: "client_step E s (snd (ProbeReadableRanges E cx req s))"

inductive reachable :: "env \<Rightarrow> client \<Rightarrow> bool" for E where
  init: "heap_wf (w :: world) \<Longrightarrow> reachable E (New host opts w)"
| step: "reachable E s \<Longrightarrow> client_step E s t \<Longrightarrow> reachable E t"

lemma safe_wrappers:
  assumes "frames_bounded E"
  shows "safe (ReadDB E cx dbNum offset size')" "safe (WriteDB E cx dbNum offset data)"
    "safe (ReadInputs E cx offset size')" "safe (ReadOutputs E cx offset size')" "safe (ReadMerkers E cx offset size')"
  unfolding ReadDB_def WriteDB_def ReadInputs_def ReadOutputs_def ReadMerkers_def
  by (rule safe_ReadArea [OF assms] safe_WriteArea [OF assms])+

lemmas safe_ops = safe_Connect safe_Close safe_ReadArea safe_WriteArea safe_wrappers safe_GetCPUState
  safe_GetProtectionLevel safe_ReadDiagBufferRaw safe_ReadDiagBuffer safe_ListBlocks safe_ListAllBlocks
  safe_GetBlockInfo safe_UploadBlock

lemma steady_keeps: "steady m \<Longrightarrow> client_inv s \<Longrightarrow> client_inv (snd (m s)) \<and> tidy s (snd (m s))"
  by (simp add: steady_def)

lemmas steady_ops = safe_ops [THEN steady_safe] steady_Identify steady_ProbeReadableRanges

lemmas steady_runs = steady_ops [THEN steady_keeps]

lemma safe_total: "safe m \<Longrightarrow> client_inv s \<Longrightarrow> fst (m s) \<noteq> None"
  by (simp add: safe_def no_panic_def)

lemma client_step_keeps:
  assumes "client_step E s t" "frames_bounded E" "client_inv s"
  shows "client_inv t \<and> tidy s t"
  using assms by (induction rule: client_step.induct) (rule steady_runs, assumption+)+

lemma reachable_inv: "reachable E s \<Longrightarrow> frames_bounded E \<Longrightarrow> client_inv s"
  by (induction rule: reachable.induct) (auto intro: client_inv_New dest: client_step_keeps)

text \<open>
  The request lock is taken once per call, except in \<open>ListAllBlocks\<close>, which takes it once per block
  type: its run is a sequence of calls of \<open>ListBlocks\<close>, and calls of others may come between them.
\<close>

lemma ListAllBlocks_locks: "(\<lambda>s t. \<exists>bt. t = snd (ListBlocks E cx bt s))\<^sup>*\<^sup>* s (snd (ListAllBlocks E cx s))"
  (is "?R\<^sup>*\<^sup>* _ _")
proof -
  have "?R\<^sup>*\<^sup>* s (snd (list_types E cx types all' errs s))" for types all' errs s
  proof (induction types arbitrary: all' errs s)
    case (Cons bt types)
    obtain r t where run: "ListBlocks E cx bt s = (r, t)" by (cases "ListBlocks E cx bt s")
    then have t: "?R s t" by (metis snd_conv)
    note rest = converse_rtranclp_into_rtranclp [of ?R, OF t Cons.IH]
    show ?case
    proof (cases r)
      case None
      then show ?thesis using r_into_rtranclp [of ?R, OF t] run by (simp add: io_case_def)
    next
      case (Some v)
      then show ?thesis using rest run by (cases v) (simp_all add: io_case_def)
    qed
  qed simp
  then show ?thesis by (simp add: ListAllBlocks_def)
qed

lemma Close_twice:
  assumes "client_inv s"
  shows "Close E (snd (Close E s)) = (Some (Inr ()), snd (Close E s))"
  using Close_result(2) [OF assms, of E] by (simp add: Close_def closeConnLocked_def)

text \<open>Of all the connections a client has dialled, at most the one it holds is open.\<close>

lemma client_steps_tidy:
  assumes "(client_step E)\<^sup>*\<^sup>* s t" "frames_bounded E" "client_inv s"
  shows "client_inv t \<and> tidy s t"
  using assms(1)
proof (induction rule: rtranclp_induct)
  case base
  then show ?case using assms(3) td.R_refl by blast
next
  case (step t u)
  then show ?case using client_step_keeps [OF step.hyps(2) assms(2)] td.R_trans by blast
qed

lemma one_conn_New: "one_conn (w_next w) (New host opts w)"
  by (simp add: one_conn_def New_def)

end
