(* ===== verification/Example_Session.thy ===== *)
theory Example_Session
  imports Plc_Memory
begin

text \<open>
  A concrete session on which the properties are evaluated: a COTP codec with the three-byte DT
  header of class 0, a target that serves a memory, and a client connected to it.
\<close>

definition ex_cotp :: cotp_lib where
  "ex_cotp =
     \<lparr>cotp_MarshalCR = (\<lambda>cr. Inr ([0xE0] @ crCallingSelector cr @ crCalledSelector cr)),
      cotp_MarshalDT = (\<lambda>dt. Inr ([0x02, 0xF0, 0x80] @ dtUserData dt)),
      cotp_Decode = (\<lambda>bs. if take 3 bs = [0x02, 0xF0, 0x80]
         then Inr \<lparr>decType = 0xF0, decDT = Some \<lparr>dtEOT = True, dtUserData = drop 3 bs\<rparr>\<rparr>
         else if take 1 bs = [0xD0] then Inr \<lparr>decType = 0xD0, decDT = None\<rparr>
         else Inl (ErrorText ''cotp: unknown TPDU'')),
      cotp_TypeCC = 0xD0,
      cotp_TypeString = (\<lambda>t. fmt02X t)\<rparr>"

definition ex_answer :: "'st target \<Rightarrow> 'st \<Rightarrow> (nat \<times> bytes) list \<Rightarrow> nat \<Rightarrow> goerr + bytes" where
  "ex_answer step st0 frames k =
     (case rev frames of
        [] \<Rightarrow> Inl (NetError ''i/o timeout'' True [])
      | (k', d) # fs \<Rightarrow>
          if k = k' \<and> \<not> is_dt ex_cotp d then Inr [0xD0]
          else if k = k' then EncodeCOTPDT ex_cotp (snd (step (target_state ex_cotp step st0 (rev fs)) (user_of ex_cotp d)))
          else Inl (NetError ''i/o timeout'' True []))"

definition ex_env :: "'st target \<Rightarrow> 'st \<Rightarrow> env" where
  "ex_env step st0 =
     \<lparr>env_now = (\<lambda>tr. int (length tr)),
      env_dial = (\<lambda>tr a t. None), env_set_deadline = (\<lambda>tr k. None), env_write = (\<lambda>tr k d. None),
      env_read = (\<lambda>tr k. ex_answer step st0 (tx_of tr) k), env_close = (\<lambda>tr k. None),
      env_room = (\<lambda>tr. []), env_local_addr = (\<lambda>k. ''10.0.0.1:50000''), env_remote_addr = (\<lambda>k. ''10.0.0.5:102''),
      env_cotp = ex_cotp\<rparr>"

definition ex_world :: world where
  "ex_world = \<lparr>w_trace = [], w_conns = (\<lambda>_. \<lparr>tConn = None, tReader = None, tWriter = None,
     tTimeout = 0, tTracer = False\<rparr>), w_next = 0\<rparr>"

definition ex_client :: client where
  \<comment> \<open>connected on socket 0 with a negotiated PDU size of 240 bytes\<close>
  "ex_client = (New ''plc'' [WithRackSlot 0 2] ex_world)
     \<lparr>w_conns := (\<lambda>p. if p = 0 then transport_New 0 second else w_conns ex_world p), w_next := 1,
      clConn := Some 0, clRack := 0, clSlot := 2, clLocalTSAP := 0x0100, clRemoteTSAP := 0x0302,
      clPduSize := 240, clMaxAmqCalling := 1, clMaxAmqCalled := 1\<rparr>"

definition ex_mem :: mem where
  "ex_mem = (\<lambda>key a. word_of_int a)"

lemma ex_cotp_faithful: "cotp_faithful ex_cotp"
  by (simp add: cotp_faithful_def ex_cotp_def EncodeCOTPDT_def)

lemma ex_env_answers: "answers (ex_env step st0) step st0"
  using ex_cotp_faithful by (simp add: answers_def ex_env_def ex_answer_def)

lemma ex_client_sel [simp]:
  "clConn ex_client = Some 0" "clPduSize ex_client = 240" "w_trace ex_client = []"
  "clOpts ex_client = defaultOptions\<lparr>oRack := 0, oSlot := 2\<rparr>" "clPduRef ex_client = 0"
  "w_next ex_client = 1"
  by (simp_all add: ex_client_def New_def WithRackSlot_def ex_world_def)

lemma ex_client_inv: "client_inv ex_client"
  by (simp add: client_inv_def heap_wf_def ex_client_def New_def ex_world_def conn_wf_def transport_New_def)

lemma ctx_background_live: "ctx_live context_background"
  by (simp add: ctx_live_def context_background_def)

lemma ex_state: "state_of (ex_env step st0) step st0 ex_client = st0"
  by (simp add: state_of_def target_state_def)

lemma ex_room: "env_room (ex_env step st0) tr = []"
  by (simp add: ex_env_def)

lemmas ex_session = ex_env_answers ex_client_inv ctx_background_live

section \<open>The frames of the example\<close>

lemma ex_frames_bounded:
  assumes "I st0" "\<And>st req. I st \<Longrightarrow> I (fst (step st req)) \<and> length (snd (step st req)) < 65000"
  shows "frames_bounded (ex_env step st0)"
proof -
  have inv: "I (target_state ex_cotp step st0 frames)" for frames
    unfolding target_state_def using assms by (induction frames rule: rev_induct) auto
  have "length (dtUserData dt) < 65546"
    if "ex_answer step st0 frames k = Inr resp" "cotp_Decode ex_cotp resp = Inr dec" "decDT dec = Some dt"
    for frames k resp dec dt
    using that assms(2) [OF inv]
    by (fastforce simp: ex_answer_def ex_cotp_def EncodeCOTPDT_def split: list.splits if_splits intro: less_trans)
  then show ?thesis unfolding frames_bounded_def ex_env_def by simp
qed

lemma plc_exec_length: "length (snd (plc_exec m req)) < 65000"
  by (auto simp: plc_exec_def Let_def ack_pdu_def not_le)

lemma ex_plc_bounded: "frames_bounded (ex_env plc_exec m0)"
  by (rule ex_frames_bounded [where I = "\<lambda>_. True"]) (simp_all add: plc_exec_length)

section \<open>The example peer takes calls\<close>

lemma ex_greets: "greets (ex_env step st0)"
  by (auto simp: greets_def ex_env_def EncodeCOTPCR_def ex_answer_def ex_cotp_def is_dt_def)

section \<open>A directory of blocks\<close>

definition ex_directory :: "byte \<Rightarrow> nat \<Rightarrow> bytes list" where
  \<comment> \<open>a block of two segments that hold its type and its number\<close>
  "ex_directory type num = [[type, 1], [2, of_nat num]]"

end
