(* ===== verification/Worker_Pool.thy ===== *)
theory Worker_Pool
  imports Prelude
begin

text \<open>
  The bounded worker pool of \<open>CompareRead\<close> and \<open>ProbeRackSlots\<close>: a loop that starts one
  goroutine for each job as soon as a slot of the semaphore channel is free, unless the context
  is done, and then waits for all of them.

  The interleaving is explicit: a schedule is a list of actions, and \<open>pool_run\<close> executes it.
  An action that is not enabled makes the run \<open>None\<close>, so the theorems quantify over every
  schedule the Go scheduler could choose.  A worker is one function call: it writes only its own
  element of the result slice and uses only its own connection, so its internal steps commute with
  everything else; \<open>work i\<close> is what it returns, \<open>None\<close> for a panic.  A worker that
  panics takes the process down, so no schedule continues past it.

  The locale \<open>worker_pool\<close> is the contract of a configuration (a slot to run in, a result slice
  that holds the jobs); its lemmas are the invariant, the absence of deadlock when no worker panics,
  and the end of every schedule.
\<close>

section \<open>States and actions\<close>

datatype loop_phase =
    Polling \<comment> \<open>at the \<open>select\<close> with a default at the start of an iteration\<close>
  | Waiting "int list" \<comment> \<open>at the \<open>select\<close> between the context and the first of these delays, or,
      without a delay, the semaphore\<close>
  | Ended \<comment> \<open>at \<open>wg.Wait()\<close>\<close>

record 'r pool =
  wpNext :: nat \<comment> \<open>the loop variable\<close>
  wpPhase :: loop_phase
  wpRunning :: "nat list" \<comment> \<open>the jobs that hold a slot of the semaphore\<close>
  wpDone :: bool \<comment> \<open>the context of the loop is done\<close>
  wpWaited :: int \<comment> \<open>the delays that have elapsed\<close>
  wpSlots :: "'r option list" \<comment> \<open>the result slice: \<open>None\<close> where nothing was written\<close>

datatype action = Poll | Elapse | Start | Stop | Finish nat | Cancel

record 'r pool_config =
  pcJobs :: nat \<comment> \<open>iterations of the loop\<close>
  pcSlots :: nat \<comment> \<open>length of the result slice\<close>
  pcParallel :: nat \<comment> \<open>capacity of the semaphore\<close>
  pcPolls :: bool \<comment> \<open>each iteration polls the context first\<close>
  pcWaits :: "nat \<Rightarrow> int list option" \<comment> \<open>the delays after the poll; \<open>None\<close> for a panic\<close>
  pcWork :: "nat \<Rightarrow> 'r option" \<comment> \<open>what worker \<open>i\<close> returns\<close>
  pcFill :: "nat \<Rightarrow> 'r option" \<comment> \<open>what is written for the jobs that are not started\<close>
  pcStops :: "'r \<Rightarrow> bool" \<comment> \<open>results on which a worker cancels the context\<close>

definition loop_at :: "'r pool_config \<Rightarrow> nat \<Rightarrow> loop_phase" where
  \<comment> \<open>where the loop is at the start of iteration \<open>i\<close>\<close>
  "loop_at cfg i = (if i < pcJobs cfg then if pcPolls cfg then Polling else Waiting [] else Ended)"

definition pool_init :: "'r pool_config \<Rightarrow> 'r pool" where
  "pool_init cfg =
     \<lparr>wpNext = 0, wpPhase = loop_at cfg 0, wpRunning = [], wpDone = False, wpWaited = 0,
      wpSlots = replicate (pcSlots cfg) None\<rparr>"

definition fill_from :: "(nat \<Rightarrow> 'r option) \<Rightarrow> nat \<Rightarrow> 'r option list \<Rightarrow> 'r option list" where
  "fill_from f k rs = take k rs @ map f [k..<length rs]"

fun pool_act :: "'r pool_config \<Rightarrow> action \<Rightarrow> 'r pool \<Rightarrow> 'r pool option" where
  "pool_act cfg Poll p =
     (if wpPhase p = Polling then
        if wpDone p then Some (p\<lparr>wpPhase := Ended\<rparr>)
        else map_option (\<lambda>ds. p\<lparr>wpPhase := Waiting ds\<rparr>) (pcWaits cfg (wpNext p))
      else None)"
| "pool_act cfg Elapse p =
     (case wpPhase p of
        Waiting (d # ds) \<Rightarrow> Some (p\<lparr>wpPhase := Waiting ds, wpWaited := wpWaited p + max 0 d\<rparr>)
      | _ \<Rightarrow> None)"
| "pool_act cfg Start p =
     (if wpPhase p = Waiting [] \<and> length (wpRunning p) < pcParallel cfg
      then Some (p\<lparr>wpNext := wpNext p + 1, wpPhase := loop_at cfg (wpNext p + 1),
                   wpRunning := wpNext p # wpRunning p\<rparr>)
      else None)"
| "pool_act cfg Stop p =
     (case wpPhase p of
        Waiting ds \<Rightarrow>
          if wpDone p
          then Some (p\<lparr>wpPhase := Ended, wpSlots := fill_from (pcFill cfg) (wpNext p) (wpSlots p)\<rparr>)
          else None
      | _ \<Rightarrow> None)"
| "pool_act cfg (Finish i) p =
     (if i \<in> set (wpRunning p) then
        (case pcWork cfg i of
           None \<Rightarrow> None
         | Some r \<Rightarrow> Some (p\<lparr>wpRunning := remove1 i (wpRunning p), wpDone := wpDone p \<or> pcStops cfg r,
                              wpSlots := (wpSlots p)[i := Some r]\<rparr>))
      else None)"
| "pool_act cfg Cancel p = Some (p\<lparr>wpDone := True\<rparr>)"

fun pool_run :: "'r pool_config \<Rightarrow> action list \<Rightarrow> 'r pool \<Rightarrow> 'r pool option" where
  "pool_run cfg [] p = Some p"
| "pool_run cfg (a # as) p = (case pool_act cfg a p of None \<Rightarrow> None | Some q \<Rightarrow> pool_run cfg as q)"

definition pool_finished :: "'r pool \<Rightarrow> bool" where
  "pool_finished p \<longleftrightarrow> wpPhase p = Ended \<and> wpRunning p = []"

lemma pool_run_append:
  "pool_run cfg (as @ bs) p = (case pool_run cfg as p of None \<Rightarrow> None | Some q \<Rightarrow> pool_run cfg bs q)"
  by (induction as arbitrary: p) (auto split: option.split)

lemma length_fill_from [simp]: "k \<le> length rs \<Longrightarrow> length (fill_from f k rs) = length rs"
  by (simp add: fill_from_def)

lemma nth_fill_from: "k \<le> length rs \<Longrightarrow> i < length rs \<Longrightarrow> fill_from f k rs ! i = (if i < k then rs ! i else f i)"
  by (auto simp: fill_from_def nth_append)

lemma pool_run_done:
  assumes "pool_run cfg as p = Some q" "wpDone q"
  shows "wpDone p \<or> Cancel \<in> set as \<or> (\<exists>i r. Finish i \<in> set as \<and> pcWork cfg i = Some r \<and> pcStops cfg r)"
  using assms(1)
proof (induction as arbitrary: p)
  case (Cons a as)
  then obtain p' where p': "pool_act cfg a p = Some p'" "pool_run cfg as p' = Some q"
    by (auto split: option.splits)
  have "wpDone p' \<or> Cancel \<in> set as \<or> (\<exists>i r. Finish i \<in> set as \<and> pcWork cfg i = Some r \<and> pcStops cfg r)"
    using Cons.IH p'(2) by blast
  then show ?case using p'(1) by (cases a) (auto split: if_splits option.splits loop_phase.splits list.splits)
qed (use assms(2) in simp)

lemma pool_act_next: "pool_act cfg a p = Some q \<Longrightarrow> wpNext p \<le> wpNext q"
  by (cases a) (auto split: if_splits option.splits loop_phase.splits list.splits)

lemma pool_run_next: "pool_run cfg as p = Some q \<Longrightarrow> wpNext p \<le> wpNext q"
  by (induction as arbitrary: p) (auto split: option.splits dest: pool_act_next intro: order_trans)

section \<open>The contract\<close>

locale worker_pool =
  fixes cfg :: "'r pool_config"
  assumes parallel_pos: "0 < pcParallel cfg"
    and jobs_le: "pcJobs cfg \<le> pcSlots cfg"
    and polled_fill: "pcPolls cfg \<Longrightarrow> pcFill cfg = (\<lambda>_. None)"
begin

definition pool_inv :: "'r pool \<Rightarrow> bool" where
  "pool_inv p \<longleftrightarrow> wpNext p \<le> pcJobs cfg \<and> length (wpSlots p) = pcSlots cfg \<and>
     distinct (wpRunning p) \<and> set (wpRunning p) \<subseteq> {..<wpNext p} \<and>
     length (wpRunning p) \<le> pcParallel cfg \<and>
     (wpPhase p = Ended \<longrightarrow> wpNext p = pcJobs cfg \<or> wpDone p) \<and>
     (wpPhase p \<noteq> Ended \<longrightarrow> wpNext p < pcJobs cfg) \<and> (wpPhase p = Polling \<longrightarrow> pcPolls cfg) \<and>
     (\<forall>i<pcSlots cfg. wpSlots p ! i =
        (if i \<in> set (wpRunning p) then None else if i < wpNext p then pcWork cfg i
         else if wpPhase p = Ended \<and> wpNext p < pcJobs cfg then pcFill cfg i else None))"

lemma pool_inv_init: "pool_inv (pool_init cfg)"
  using jobs_le by (auto simp: pool_inv_def pool_init_def loop_at_def)

lemma pool_inv_finish:
  assumes "pool_inv p" and r: "i \<in> set (wpRunning p)" "pcWork cfg i = Some r"
    "q = p\<lparr>wpRunning := remove1 i (wpRunning p), wpDone := wpDone p \<or> pcStops cfg r, wpSlots := (wpSlots p)[i := Some r]\<rparr>"
  shows "pool_inv q"
proof -
  have d: "distinct (wpRunning p)" using assms(1) by (simp add: pool_inv_def)
  have len: "length (remove1 i (wpRunning p)) \<le> pcParallel cfg"
    using assms(1) by (auto simp: pool_inv_def length_remove1)
  have left: "set (remove1 i (wpRunning p)) = set (wpRunning p) - {i}" and i: "i < wpNext p"
    using d r(1) assms(1) by (auto simp: pool_inv_def)
  have slots: "wpSlots q ! k =
      (if k \<in> set (wpRunning p) - {i} then None else if k < wpNext p then pcWork cfg k
       else if wpPhase p = Ended \<and> wpNext p < pcJobs cfg then pcFill cfg k else None)" if "k < pcSlots cfg" for k
    using assms(1) that r(2,3) i by (cases "k = i") (simp_all add: pool_inv_def)
  have inv: "wpNext p \<le> pcJobs cfg" "length (wpSlots p) = pcSlots cfg" "set (wpRunning p) \<subseteq> {..<wpNext p}"
    "wpPhase p = Ended \<longrightarrow> wpNext p = pcJobs cfg \<or> wpDone p" "wpPhase p \<noteq> Ended \<longrightarrow> wpNext p < pcJobs cfg"
    "wpPhase p = Polling \<longrightarrow> pcPolls cfg"
    using assms(1) unfolding pool_inv_def by blast+
  have sel: "wpNext q = wpNext p" "wpPhase q = wpPhase p" "set (wpRunning q) = set (wpRunning p) - {i}"
    and q: "distinct (wpRunning q)" "length (wpRunning q) \<le> pcParallel cfg" "length (wpSlots q) = pcSlots cfg"
      "wpDone p \<longrightarrow> wpDone q" "set (wpRunning p) - {i} \<subseteq> {..<wpNext p}"
    using d left len inv(2,3) by (auto simp: r(3))
  show ?thesis
    unfolding pool_inv_def sel using inv(1,4-6) q slots by (intro conjI) blast+
qed

lemma pool_inv_act:
  assumes "pool_inv p" "pool_act cfg a p = Some q"
  shows "pool_inv q"
proof (cases a)
  case Poll
  then consider (ended) "wpPhase p = Polling" "q = p\<lparr>wpPhase := Ended\<rparr>" "wpDone p"
    | (waits) ds where "wpPhase p = Polling" "q = p\<lparr>wpPhase := Waiting ds\<rparr>"
    using assms(2) by (auto split: if_splits)
  then show ?thesis
  proof cases
    case ended
    then have "pcFill cfg = (\<lambda>_. None)" using assms(1) polled_fill by (simp add: pool_inv_def)
    then show ?thesis using assms(1) ended by (auto simp: pool_inv_def)
  next
    case waits
    then show ?thesis using assms(1) by (auto simp: pool_inv_def)
  qed
next
  case Elapse
  then obtain d ds where "wpPhase p = Waiting (d # ds)"
    "q = p\<lparr>wpPhase := Waiting ds, wpWaited := wpWaited p + max 0 d\<rparr>"
    using assms(2) by (auto split: loop_phase.splits list.splits)
  then show ?thesis using assms(1) by (auto simp: pool_inv_def)
next
  case Start
  then have q: "wpPhase p = Waiting []" "length (wpRunning p) < pcParallel cfg"
    "q = p\<lparr>wpNext := wpNext p + 1, wpPhase := loop_at cfg (wpNext p + 1), wpRunning := wpNext p # wpRunning p\<rparr>"
    using assms(2) by (auto split: if_splits)
  then show ?thesis using assms(1) jobs_le by (auto simp: pool_inv_def loop_at_def)
next
  case Stop
  then obtain ds where q: "wpPhase p = Waiting ds" "wpDone p"
    "q = p\<lparr>wpPhase := Ended, wpSlots := fill_from (pcFill cfg) (wpNext p) (wpSlots p)\<rparr>"
    using assms(2) by (auto split: if_splits loop_phase.splits)
  then show ?thesis using assms(1) jobs_le by (auto simp: pool_inv_def nth_fill_from)
next
  case (Finish i)
  then obtain r where "i \<in> set (wpRunning p)" "pcWork cfg i = Some r"
    "q = p\<lparr>wpRunning := remove1 i (wpRunning p), wpDone := wpDone p \<or> pcStops cfg r, wpSlots := (wpSlots p)[i := Some r]\<rparr>"
    using assms(2) by (auto split: if_splits option.splits loop_phase.splits list.splits)
  then show ?thesis by (rule pool_inv_finish [OF assms(1)])
next
  case Cancel
  then have "q = p\<lparr>wpDone := True\<rparr>" using assms(2) by simp
  then show ?thesis using assms(1) by (simp add: pool_inv_def)
qed

lemma pool_inv_run: "pool_run cfg as p = Some q \<Longrightarrow> pool_inv p \<Longrightarrow> pool_inv q"
  by (induction as arbitrary: p) (auto split: option.splits dest: pool_inv_act)

text \<open>At most as many workers as the semaphore has slots, at every moment of every schedule.\<close>

lemma bounded: "pool_run cfg as (pool_init cfg) = Some p \<Longrightarrow> length (wpRunning p) \<le> pcParallel cfg"
  using pool_inv_run [OF _ pool_inv_init] by (simp add: pool_inv_def)

text \<open>The result slice of a finished pool: a prefix of the jobs was done, in the order of the jobs
  whatever the order of completion; without a cancellation it is all of them.\<close>

lemma results:
  assumes "pool_run cfg as (pool_init cfg) = Some p" "pool_finished p"
  shows "wpSlots p = map (\<lambda>i. if i < wpNext p then pcWork cfg i
      else if wpNext p < pcJobs cfg then pcFill cfg i else None) [0..<pcSlots cfg]"
    and "wpNext p \<le> pcJobs cfg" "wpDone p \<or> wpNext p = pcJobs cfg"
proof -
  have inv: "pool_inv p" using pool_inv_run [OF assms(1) pool_inv_init] .
  show "wpSlots p = map (\<lambda>i. if i < wpNext p then pcWork cfg i
      else if wpNext p < pcJobs cfg then pcFill cfg i else None) [0..<pcSlots cfg]"
    by (rule nth_equalityI) (use inv assms(2) in \<open>simp_all add: pool_inv_def pool_finished_def\<close>)
  show "wpNext p \<le> pcJobs cfg" "wpDone p \<or> wpNext p = pcJobs cfg"
    using inv assms(2) unfolding pool_inv_def pool_finished_def by blast+
qed

lemma finished_started:
  "pool_run cfg as p = Some q \<Longrightarrow> pool_inv p \<Longrightarrow> Finish i \<in> set as \<Longrightarrow> i < wpNext q"
proof (induction as arbitrary: p)
  case (Cons a as)
  then obtain p' where p': "pool_act cfg a p = Some p'" "pool_run cfg as p' = Some q"
    by (auto split: option.splits)
  show ?case
  proof (cases "a = Finish i")
    case True
    then have "i \<in> set (wpRunning p)" using p'(1) by (simp split: if_splits)
    moreover have "set (wpRunning p) \<subseteq> {..<wpNext p}" using Cons.prems(2) unfolding pool_inv_def by blast
    ultimately have "i < wpNext p" by blast
    then show ?thesis using pool_act_next [OF p'(1)] pool_run_next [OF p'(2)] by simp
  next
    case False
    then show ?thesis using Cons.IH [OF p'(2) pool_inv_act [OF Cons.prems(2) p'(1)]] Cons.prems(3) by auto
  qed
qed simp

text \<open>No deadlock: a pool that has not finished can take a step without a cancellation.\<close>

lemma progress:
  assumes "pool_inv p" "\<not> pool_finished p" "\<forall>i<pcJobs cfg. pcWork cfg i \<noteq> None \<and> pcWaits cfg i \<noteq> None"
  shows "\<exists>a. a \<noteq> Cancel \<and> pool_act cfg a p \<noteq> None"
proof (cases "wpRunning p")
  case Nil
  then show ?thesis
  proof (cases "wpPhase p")
    case Polling
    then have "wpNext p < pcJobs cfg" using assms(1) by (simp add: pool_inv_def)
    then show ?thesis using Polling assms(3) by (intro exI [of _ Poll]) auto
  next
    case (Waiting ds)
    then show ?thesis
      using Nil parallel_pos by (cases ds) (auto intro: exI [of _ Start] exI [of _ Elapse])
  next
    case Ended
    then show ?thesis using Nil assms(2) by (simp add: pool_finished_def)
  qed
next
  case (Cons i more)
  then have "i < pcJobs cfg" using assms(1) by (auto simp: pool_inv_def)
  then show ?thesis using Cons assms(3) by (intro exI [of _ "Finish i"]) auto
qed

text \<open>Every schedule ends: each action but a cancellation lowers this measure.\<close>

definition steps_from :: "nat \<Rightarrow> nat" where
  \<comment> \<open>the most actions of the iterations from \<open>k\<close> on\<close>
  "steps_from k = (\<Sum>i\<leftarrow>[k..<pcJobs cfg]. 3 + length (the (pcWaits cfg i)))"

definition work_left :: "'r pool \<Rightarrow> nat" where
  "work_left p = length (wpRunning p) +
     (case wpPhase p of Ended \<Rightarrow> 0 | Waiting ds \<Rightarrow> 2 + length ds + steps_from (wpNext p + 1)
      | Polling \<Rightarrow> steps_from (wpNext p))"

lemma steps_from_next: "k < pcJobs cfg \<Longrightarrow> steps_from k = 3 + length (the (pcWaits cfg k)) + steps_from (k + 1)"
  by (simp add: steps_from_def upt_conv_Cons)

lemma work_left_act:
  assumes "pool_inv p" "pool_act cfg a p = Some q"
  shows "work_left q + (if a = Cancel then 0 else 1) \<le> work_left p"
proof (cases a)
  case Poll
  then have "wpPhase p = Polling" "wpNext p < pcJobs cfg"
    using assms by (auto simp: pool_inv_def split: if_splits)
  then show ?thesis
    using assms(2) Poll steps_from_next [of "wpNext p"] by (auto simp: work_left_def split: if_splits)
next
  case Start
  then have q: "wpPhase p = Waiting []"
    "q = p\<lparr>wpNext := wpNext p + 1, wpPhase := loop_at cfg (wpNext p + 1), wpRunning := wpNext p # wpRunning p\<rparr>"
    using assms(2) by (auto split: if_splits)
  show ?thesis
    using q Start steps_from_next [of "wpNext p + 1"] by (auto simp: work_left_def loop_at_def)
next
  case (Finish i)
  then have "i \<in> set (wpRunning p)" using assms(2) by (simp split: if_splits)
  moreover then have "0 < length (wpRunning p)" by (cases "wpRunning p") auto
  ultimately show ?thesis
    using assms(2) Finish by (cases "wpPhase p") (auto simp: work_left_def length_remove1 split: option.splits)
qed (use assms in \<open>auto simp: work_left_def split: if_splits loop_phase.splits list.splits\<close>)

lemma schedule_bound:
  "pool_run cfg as p = Some q \<Longrightarrow> pool_inv p \<Longrightarrow> length (filter (\<lambda>a. a \<noteq> Cancel) as) + work_left q \<le> work_left p"
proof (induction as arbitrary: p)
  case (Cons a as)
  then obtain p' where p': "pool_act cfg a p = Some p'" "pool_run cfg as p' = Some q"
    by (auto split: option.splits)
  show ?case using Cons.IH [OF p'(2) pool_inv_act [OF Cons.prems(2) p'(1)]] work_left_act [OF Cons.prems(2) p'(1)]
    by (auto split: if_splits)
qed simp

lemma completes:
  assumes "\<forall>i<pcJobs cfg. pcWork cfg i \<noteq> None \<and> pcWaits cfg i \<noteq> None"
  shows "pool_inv p \<Longrightarrow> \<exists>as q. Cancel \<notin> set as \<and> pool_run cfg as p = Some q \<and> pool_finished q"
proof (induction "work_left p" arbitrary: p rule: less_induct)
  case less
  show ?case
  proof (cases "pool_finished p")
    case True
    then show ?thesis by (intro exI [of _ "[]"]) simp
  next
    case False
    obtain a p' where a: "a \<noteq> Cancel" "pool_act cfg a p = Some p'" using progress [OF less.prems False assms] by auto
    then have "work_left p' < work_left p" using work_left_act [OF less.prems a(2)] by simp
    then obtain as q where "Cancel \<notin> set as" "pool_run cfg as p' = Some q" "pool_finished q"
      using less.hyps pool_inv_act [OF less.prems a(2)] by blast
    then show ?thesis using a by (intro exI [of _ "a # as"]) auto
  qed
qed

text \<open>After the context is done, a polling loop starts at most one more worker, and none once it is
  back at its poll.\<close>

lemma starts_after_done:
  "pool_run cfg as p = Some q \<Longrightarrow> pool_inv p \<Longrightarrow> pcPolls cfg \<Longrightarrow> wpDone p \<Longrightarrow>
     wpNext q \<le> wpNext p + (if wpPhase p = Polling \<or> wpPhase p = Ended then 0 else 1)"
proof (induction as arbitrary: p)
  case (Cons a as)
  then obtain p' where p': "pool_act cfg a p = Some p'" "pool_run cfg as p' = Some q"
    by (auto split: option.splits)
  have IH: "wpDone p' \<Longrightarrow> wpNext q \<le> wpNext p' + (if wpPhase p' = Polling \<or> wpPhase p' = Ended then 0 else 1)"
    using Cons.IH [OF p'(2) pool_inv_act [OF Cons.prems(2) p'(1)]] Cons.prems(3) by simp
  show ?case
    using p'(1) IH Cons.prems(3,4)
    by (cases a) (auto simp: loop_at_def split: if_splits option.splits loop_phase.splits list.splits)
qed simp

text \<open>The delays are kept: before the \<open>k\<close>-th start all the delays of the first \<open>k\<close> iterations have
  elapsed.\<close>

definition delays :: "nat \<Rightarrow> int" where
  "delays k = (\<Sum>i\<leftarrow>[0..<k]. sum_list (map (max 0) (the (pcWaits cfg i))))"

definition paced :: "'r pool \<Rightarrow> bool" where
  "paced p \<longleftrightarrow> delays (wpNext p) \<le> wpWaited p \<and>
     (\<forall>ds. wpPhase p = Waiting ds \<longrightarrow> delays (wpNext p + 1) \<le> wpWaited p + sum_list (map (max 0) ds))"

lemma paced_act:
  assumes "paced p" "pcPolls cfg" "pool_act cfg a p = Some q"
  shows "paced q"
proof -
  have d: "delays (k + 1) = delays k + sum_list (map (max 0) (the (pcWaits cfg k)))" for k
    by (simp add: delays_def)
  show ?thesis
    using assms d
    by (cases a) (auto simp: paced_def loop_at_def split: if_splits option.splits loop_phase.splits list.splits)
qed

lemma paced_run: "pool_run cfg as p = Some q \<Longrightarrow> pcPolls cfg \<Longrightarrow> paced p \<Longrightarrow> paced q"
  by (induction as arbitrary: p) (auto split: option.splits dest: paced_act)

lemma delays_kept:
  assumes "pool_run cfg as (pool_init cfg) = Some p" "pcPolls cfg"
  shows "delays (wpNext p) \<le> wpWaited p"
proof -
  have "paced (pool_init cfg)" using assms(2) by (simp add: paced_def pool_init_def loop_at_def delays_def)
  from paced_run [OF assms this] show ?thesis by (simp add: paced_def)
qed

end

end
