(* ===== verification/Compare.thy ===== *)
theory Compare
  imports Worker_Pool Plc_Memory Wire_Blocks
begin

text \<open>
  The comparison of one read over several rack/slot candidates (\<open>client/compare.go\<close>, with its
  validation).  Every candidate is read by a goroutine of its own with a client of its own; they
  run in the pool of \<open>Worker_Pool\<close>.

  The workers share the network.  What worker \<open>i\<close> sees of it, of the clock and of the context
  while the others run is its environment \<open>Es i\<close>, its context \<open>cxs i\<close> and the world \<open>ws i\<close>
  in which it starts; these are arbitrary, so every interleaving of the workers' steps on the
  network is a choice of them.  The order in which workers start and finish, and when the loop
  sees the context end, is the schedule.  \<open>ctxErr\<close> is \<open>ctx.Err()\<close> after that.
\<close>

section \<open>Types\<close>

datatype RackSlot = RackSlot (rsRack: int) (rsSlot: int)

instantiation RackSlot :: linorder
begin

definition less_eq_RackSlot :: "RackSlot \<Rightarrow> RackSlot \<Rightarrow> bool" where
  \<comment> \<open>the order in which the probe enumerates them\<close>
  "less_eq_RackSlot a b \<longleftrightarrow> rsRack a < rsRack b \<or> rsRack a = rsRack b \<and> rsSlot a \<le> rsSlot b"

definition less_RackSlot :: "RackSlot \<Rightarrow> RackSlot \<Rightarrow> bool" where
  "less_RackSlot a b \<longleftrightarrow> rsRack a < rsRack b \<or> rsRack a = rsRack b \<and> rsSlot a < rsSlot b"

instance
  by standard (auto simp: less_eq_RackSlot_def less_RackSlot_def RackSlot.expand)

end

record CompareReadRequest =
  crAddress :: string
  crPort :: int
  crCandidates :: "RackSlot list"
  crArea :: Area
  crDBNumber :: int
  crOffset :: int
  crSize :: int
  crTimeout :: duration
  crParallelism :: int

record CompareReadCandidate =
  ccRack :: int
  ccSlot :: int
  ccResult :: ReadResult

record CompareReadResult =
  cmRequest :: CompareReadRequest
  cmByCandidate :: "CompareReadCandidate list"
  cmRackSlotInsensitive :: bool

definition blank :: "string \<Rightarrow> bool" where
  \<comment> \<open>\<open>strings.TrimSpace(s) == ""\<close>\<close>
  "blank s \<longleftrightarrow> TrimSpace (map of_char s) = []"

fun validate_candidates :: "nat \<Rightarrow> RackSlot list \<Rightarrow> goerr option" where
  "validate_candidates i [] = None"
| "validate_candidates i (cand # cands) =
     (case ValidateRackSlot (rsRack cand) (rsSlot cand) of
        Some err \<Rightarrow> Some (ValidationError (''candidate '' @ fmt_d (int i) @ '': '' @ err_text err))
      | None \<Rightarrow> validate_candidates (i + 1) cands)"

definition validateCompareReadRequest :: "CompareReadRequest \<Rightarrow> goerr option" where
  "validateCompareReadRequest req =
     (if blank (crAddress req) then Some (ValidationError ''address must be non-empty'')
      else if crPort req < 0 then
        Some (ValidationError (''port must be >= 0, got '' @ fmt_d (crPort req)))
      else if crTimeout req < 0 then
        Some (ValidationError (''timeout must be >= 0, got '' @ duration_String (crTimeout req)))
      else if crSize req < 0 then
        Some (ValidationError (''size must be >= 0, got '' @ fmt_d (crSize req)))
      else if crOffset req < 0 then
        Some (ValidationError (''offset must be >= 0, got '' @ fmt_d (crOffset req)))
      else if crArea req = AreaDB \<and> crDBNumber req < 0 then
        Some (ValidationError (''DB number must be >= 0, got '' @ fmt_d (crDBNumber req)))
      else validate_candidates 0 (crCandidates req))"

section \<open>One candidate\<close>

definition compareCandidateFailure :: "RackSlot \<Rightarrow> int \<Rightarrow> goerr option \<Rightarrow> CompareReadCandidate" where
  "compareCandidateFailure c size' err =
     \<lparr>ccRack = rsRack c, ccSlot = rsSlot c, ccResult = newFailedReadResult size' err\<rparr>"

definition compare_client :: "CompareReadRequest \<Rightarrow> RackSlot \<Rightarrow> world \<Rightarrow> client" where
  "compare_client req cand w =
     New (crAddress req)
       [WithPort (if crPort req = 0 then 102 else crPort req), WithRackSlot (rsRack cand) (rsSlot cand),
        WithTimeout (if crTimeout req = 0 then 5 * second else crTimeout req)] w"

definition compare_address :: "CompareReadRequest \<Rightarrow> Address" where
  "compare_address req =
     \<lparr>aArea = crArea req, aDBNumber = crDBNumber req, aStart = crOffset req, aSize = crSize req\<rparr>"

definition compare_worker ::
    "env \<Rightarrow> ctx \<Rightarrow> CompareReadRequest \<Rightarrow> RackSlot \<Rightarrow> (client, CompareReadCandidate) io" where
  "compare_worker E cx req cand =
     io_case (Connect E cx) (\<lambda>r. case r of
       Inl err \<Rightarrow>
         io_case (Close E) (\<lambda>_. io_ret (compareCandidateFailure cand (crSize req) (Some err)))
     | Inr _ \<Rightarrow>
         io_case (ReadArea E cx (compare_address req)) (\<lambda>r.
         io_case (Close E) (\<lambda>_.
           case r of
             Inl err \<Rightarrow> io_ret (compareCandidateFailure cand (crSize req) (Some err))
           | Inr res \<Rightarrow>
               io_ret \<lparr>ccRack = rsRack cand, ccSlot = rsSlot cand, ccResult = res\<rparr>)))"

definition compare_work ::
    "env \<Rightarrow> ctx \<Rightarrow> CompareReadRequest \<Rightarrow> RackSlot \<Rightarrow> world \<Rightarrow> CompareReadCandidate option" where
  \<comment> \<open>what the goroutine stores; \<open>None\<close> for a panic\<close>
  "compare_work E cx req cand w =
     (case fst (compare_worker E cx req cand (compare_client req cand w)) of
        Some (Inr c) \<Rightarrow> Some c
      | _ \<Rightarrow> None)"

section \<open>All candidates\<close>

definition all_agree :: "CompareReadCandidate list \<Rightarrow> bool" where
  "all_agree cs =
     (if length cs < 2 then False
      else case find (\<lambda>c. rrStatus (ccResult c) = ReadStatusSuccess) cs of
             None \<Rightarrow> False
           | Some firstOK \<Rightarrow>
               let ref = rrData (ccResult firstOK)
               in list_all (\<lambda>c. rrStatus (ccResult c) = ReadStatusSuccess \<and> rrData (ccResult c) = ref) cs)"

definition compare_pool ::
    "(nat \<Rightarrow> env) \<Rightarrow> (nat \<Rightarrow> ctx) \<Rightarrow> (nat \<Rightarrow> world) \<Rightarrow> goerr \<Rightarrow> CompareReadRequest \<Rightarrow>
     CompareReadCandidate pool_config" where
  "compare_pool Es cxs ws ctxErr req =
     \<lparr>pcJobs = length (crCandidates req), pcSlots = length (crCandidates req),
      pcParallel = nat (if crParallelism req \<le> 0 then 1 else crParallelism req), pcPolls = False, pcWaits = (\<lambda>_. Some []),
      pcWork = (\<lambda>i. compare_work (Es i) (cxs i) req (crCandidates req ! i) (ws i)),
      pcFill = (\<lambda>j. Some (compareCandidateFailure (crCandidates req ! j) (crSize req) (Some ctxErr))),
      pcStops = (\<lambda>_. False)\<rparr>"

definition CompareRead ::
    "(nat \<Rightarrow> env) \<Rightarrow> (nat \<Rightarrow> ctx) \<Rightarrow> (nat \<Rightarrow> world) \<Rightarrow> goerr \<Rightarrow> action list \<Rightarrow> CompareReadRequest \<Rightarrow>
     (goerr + CompareReadResult) option" where
  \<comment> \<open>\<open>None\<close>: the schedule is not one of a complete run\<close>
  "CompareRead Es cxs ws ctxErr sched req =
     (case validateCompareReadRequest req of
        Some err \<Rightarrow> Some (Inl err)
      | None \<Rightarrow>
          if length (crCandidates req) = 0 then
            Some (Inr \<lparr>cmRequest = req, cmByCandidate = [], cmRackSlotInsensitive = False\<rparr>)
          else
            let cfg = compare_pool Es cxs ws ctxErr req
            in case pool_run cfg sched (pool_init cfg) of
                 None \<Rightarrow> None
               | Some p \<Rightarrow>
                   if \<not> pool_finished p then None
                   else map_option (\<lambda>results.
                          Inr \<lparr>cmRequest = req, cmByCandidate = results, cmRackSlotInsensitive = all_agree results\<rparr>)
                        (those (wpSlots p)))"

section \<open>Agreement\<close>

lemma all_agree_iff:
  "all_agree cs \<longleftrightarrow> 2 \<le> length cs \<and>
     (\<exists>d. \<forall>c\<in>set cs. rrStatus (ccResult c) = ReadStatusSuccess \<and> rrData (ccResult c) = d)"
proof (cases "find (\<lambda>c. rrStatus (ccResult c) = ReadStatusSuccess) cs")
  case None
  then have "\<forall>c\<in>set cs. rrStatus (ccResult c) \<noteq> ReadStatusSuccess" by (simp add: find_None_iff)
  then show ?thesis using None by (cases cs) (auto simp: all_agree_def)
next
  case (Some c0)
  then have "c0 \<in> set cs" by (auto simp: find_Some_iff)
  then show ?thesis using Some by (auto simp: all_agree_def Let_def list_all_iff)
qed

section \<open>The pool\<close>

lemma compare_work_total:
  assumes "frames_bounded E" "heap_wf w"
  obtains c where "compare_work E cx req cand w = Some c" "ccRack c = rsRack cand" "ccSlot c = rsSlot cand"
proof -
  let ?s = "compare_client req cand w"
  have inv: "client_inv ?s" unfolding compare_client_def by (rule client_inv_New [OF assms(2)])
  have safe: "safe (compare_worker E cx req cand)"
    unfolding compare_worker_def
    by (intro safe_case safe_Connect) (auto split: sum.split intro!: safe_case safe_Close safe_ReadArea assms(1))
  have yields: "yields (\<lambda>c. ccRack c = rsRack cand \<and> ccSlot c = rsSlot cand) (compare_worker E cx req cand)"
    unfolding compare_worker_def
    by (intro yields_case) (auto simp: compareCandidateFailure_def split: sum.split intro!: yields_case yields_ret)
  obtain r t where run: "compare_worker E cx req cand ?s = (Some r, t)"
    using safe inv by (cases "compare_worker E cx req cand ?s") (auto simp: safe_def no_panic_def)
  then obtain c where "r = Inr c" "ccRack c = rsRack cand" "ccSlot c = rsSlot cand"
    using yields unfolding yields_def by blast
  then show ?thesis using that run by (simp add: compare_work_def)
qed

interpretation cp: worker_pool "compare_pool Es cxs ws ctxErr req" for Es cxs ws ctxErr req
  by unfold_locales (auto simp: compare_pool_def)

lemma those_Some [simp]: "those (map (\<lambda>i. Some (g i)) xs) = Some (map g xs)"
  by (induction xs) auto

definition compare_result ::
    "(nat \<Rightarrow> env) \<Rightarrow> (nat \<Rightarrow> ctx) \<Rightarrow> (nat \<Rightarrow> world) \<Rightarrow> goerr \<Rightarrow> CompareReadRequest \<Rightarrow> nat \<Rightarrow> nat \<Rightarrow> CompareReadCandidate" where
  \<comment> \<open>the specification: candidate \<open>i\<close> when the first \<open>k\<close> candidates are read\<close>
  "compare_result Es cxs ws ctxErr req k i =
     (if i < k then the (compare_work (Es i) (cxs i) req (crCandidates req ! i) (ws i))
      else compareCandidateFailure (crCandidates req ! i) (crSize req) (Some ctxErr))"

lemma CompareRead_spec:
  assumes "CompareRead Es cxs ws ctxErr sched req = Some (Inr res)"
    and "\<And>i. frames_bounded (Es i)" "\<And>i. heap_wf (ws i)"
  shows "\<exists>k\<le>length (crCandidates req). cmRequest res = req \<and>
    cmByCandidate res = map (compare_result Es cxs ws ctxErr req k) [0..<length (crCandidates req)] \<and>
    cmRackSlotInsensitive res = all_agree (cmByCandidate res) \<and>
    (Cancel \<in> set sched \<or> k = length (crCandidates req))"
proof (cases "crCandidates req = []")
  case True
  then show ?thesis
    using assms(1) by (auto simp: CompareRead_def all_agree_def split: option.splits)
next
  case False
  let ?cfg = "compare_pool Es cxs ws ctxErr req" and ?n = "length (crCandidates req)"
  obtain p results where p: "pool_run ?cfg sched (pool_init ?cfg) = Some p" "pool_finished p"
    "those (wpSlots p) = Some results" "res = \<lparr>cmRequest = req, cmByCandidate = results, cmRackSlotInsensitive = all_agree results\<rparr>"
    using assms(1) False by (auto simp: CompareRead_def Let_def split: option.splits if_splits)
  have cfg: "pcJobs ?cfg = ?n" "pcSlots ?cfg = ?n" by (simp_all add: compare_pool_def)
  define k where "k = wpNext p"
  note k = cp.results [OF p(1,2), unfolded cfg, folded k_def]
  have "(if i < k then pcWork ?cfg i else if k < ?n then pcFill ?cfg i else None) =
      Some (compare_result Es cxs ws ctxErr req k i)" if "i < ?n" for i
  proof -
    obtain c where "compare_work (Es i) (cxs i) req (crCandidates req ! i) (ws i) = Some c"
      by (rule compare_work_total [OF assms(2,3)])
    then show ?thesis using that k(2) by (simp add: compare_pool_def compare_result_def)
  qed
  then have "wpSlots p = map (\<lambda>i. Some (compare_result Es cxs ws ctxErr req k i)) [0..<?n]"
    unfolding k(1) by (intro map_cong) simp_all
  then have "results = map (compare_result Es cxs ws ctxErr req k) [0..<?n]" using p(3) by simp
  moreover have "Cancel \<in> set sched \<or> k = ?n"
    using k(3) pool_run_done [OF p(1)] by (auto simp: pool_init_def compare_pool_def)
  ultimately show ?thesis using k(2) p(4) by auto
qed

lemma CompareRead_completes:
  assumes "\<And>i. frames_bounded (Es i)" "\<And>i. heap_wf (ws i)" "validateCompareReadRequest req = None"
  shows "\<exists>sched res. Cancel \<notin> set sched \<and> CompareRead Es cxs ws ctxErr sched req = Some (Inr res)"
proof (cases "crCandidates req = []")
  case True
  then show ?thesis using assms(3) by (intro exI [of _ "[]"]) (simp add: CompareRead_def)
next
  case False
  let ?cfg = "compare_pool Es cxs ws ctxErr req" and ?n = "length (crCandidates req)"
  have "compare_work (Es i) (cxs i) req (crCandidates req ! i) (ws i) \<noteq> None" for i
    by (rule compare_work_total [OF assms(1,2), of i "cxs i" req "crCandidates req ! i" i]) simp
  then have "\<forall>i<pcJobs ?cfg. pcWork ?cfg i \<noteq> None \<and> pcWaits ?cfg i \<noteq> None" by (simp add: compare_pool_def)
  from cp.completes [OF this cp.pool_inv_init]
  obtain as p where p: "Cancel \<notin> set as" "pool_run ?cfg as (pool_init ?cfg) = Some p" "pool_finished p"
    by blast
  have done': "\<not> wpDone p"
    using pool_run_done [OF p(2)] p(1) by (auto simp: compare_pool_def pool_init_def)
  have cfg: "pcJobs ?cfg = ?n" "pcSlots ?cfg = ?n" by (simp_all add: compare_pool_def)
  have "wpSlots p = map (\<lambda>i. if i < ?n then pcWork ?cfg i else None) [0..<?n]"
    using cp.results [OF p(2,3)] done' unfolding cfg by simp
  also have "\<dots> = map (\<lambda>i. Some (compare_result Es cxs ws ctxErr req ?n i)) [0..<?n]"
    using \<open>\<And>i. compare_work (Es i) (cxs i) req (crCandidates req ! i) (ws i) \<noteq> None\<close>
    by (intro map_cong) (auto simp: compare_pool_def compare_result_def)
  finally have "those (wpSlots p) = Some (map (compare_result Es cxs ws ctxErr req ?n) [0..<?n])" by simp
  then show ?thesis using p False assms(3) by (intro exI [of _ as]) (simp add: CompareRead_def Let_def)
qed

section \<open>Candidates that reach the same memory\<close>

lemma validate_candidates_None:
  "validate_candidates i cands = None \<longleftrightarrow>
     (\<forall>c\<in>set cands. 0 \<le> rsRack c \<and> rsRack c \<le> 7 \<and> 0 \<le> rsSlot c \<and> rsSlot c \<le> 31)"
  by (induction i cands rule: validate_candidates.induct)
     (auto simp: ValidateRackSlot_None_iff [symmetric] split: option.split)

lemma compare_work_serves:
  assumes "ctx_live cx" "serves E m0" "greets E" "heap_wf w" "validateCompareReadRequest req = None"
    and "cand \<in> set (crCandidates req)" "in_range (compare_address req) (crSize req)"
  shows "\<exists>c. compare_work E cx req cand w = Some c \<and> rrStatus (ccResult c) = ReadStatusSuccess \<and>
    rrData (ccResult c) = peek (memory_of E m0 w) (crArea req, crDBNumber req) (crOffset req) (nat (crSize req))"
proof -
  let ?s = "compare_client req cand w" and ?a = "compare_address req"
  have inv: "client_inv ?s" unfolding compare_client_def by (rule client_inv_New [OF assms(4)])
  have "validate_candidates 0 (crCandidates req) = None" "0 \<le> crPort req" "0 \<le> crTimeout req" "0 \<le> crSize req"
    using assms(5) by (auto simp: validateCompareReadRequest_def split: if_splits)
  then have "validate_connect (clOpts ?s) = None" and size: "0 \<le> aSize ?a"
    using assms(6)
    by (auto simp: validate_candidates_None validate_connect_def compare_client_def New_def WithPort_def WithRackSlot_def
        WithTimeout_def defaultOptions_def ValidateRackSlot_None_iff second_def compare_address_def)
  from Connect_serves [OF inv assms(1-3) this(1)]
  obtain t where t: "Connect E cx ?s = (Some (Inr ()), t)" "client_inv t" "clConn t \<noteq> None" "clPduSize t = 480"
    "memory_of E m0 t = memory_of E m0 w"
    by (auto simp: compare_client_def New_def WithPort_def WithRackSlot_def WithTimeout_def defaultOptions_def state_of_def)
  obtain rr u where u: "ReadArea E cx ?a t = (Some (Inr rr), u)" "rrStatus rr = ReadStatusSuccess"
    "rrData rr = peek (memory_of E m0 w) (key_of ?a) (aStart ?a) (nat (aSize ?a))" "same_session t u"
    using ReadArea_serves [OF assms(1,2) t(2,3), of ?a] t(4,5) size assms(7) by (auto simp: compare_address_def)
  have "fst (Close E u) \<noteq> None" using same_session_inv [OF u(4) t(2)] by (rule Close_result(4))
  then show ?thesis
    using t(1) u by (auto simp: compare_work_def compare_worker_def io_case_def compare_address_def key_of_def split: prod.splits)
qed

lemma CompareRead_serves:
  assumes "CompareRead Es cxs ws ctxErr sched req = Some (Inr res)" "Cancel \<notin> set sched"
    and "2 \<le> length (crCandidates req)" "in_range (compare_address req) (crSize req)"
    and "\<And>i. ctx_live (cxs i)" "\<And>i. serves (Es i) (ms i)" "\<And>i. greets (Es i)" "\<And>i. heap_wf (ws i)"
    and "\<And>i. frames_bounded (Es i)"
    and "\<And>i. peek (memory_of (Es i) (ms i) (ws i)) (crArea req, crDBNumber req) (crOffset req) (nat (crSize req)) = d"
  shows "cmRackSlotInsensitive res \<and> (\<forall>c\<in>set (cmByCandidate res). rrData (ccResult c) = d)"
proof -
  have v: "validateCompareReadRequest req = None"
    using assms(1) by (auto simp: CompareRead_def split: option.splits)
  obtain k where k: "cmByCandidate res = map (compare_result Es cxs ws ctxErr req k) [0..<length (crCandidates req)]"
    "cmRackSlotInsensitive res = all_agree (cmByCandidate res)" "k = length (crCandidates req)"
    using CompareRead_spec [OF assms(1,9,8)] assms(2) by blast
  have "rrStatus (ccResult c) = ReadStatusSuccess \<and> rrData (ccResult c) = d" if "c \<in> set (cmByCandidate res)" for c
  proof -
    have "c \<in> compare_result Es cxs ws ctxErr req k ` {0..<length (crCandidates req)}"
      using that unfolding k(1) by (simp only: set_map set_upt)
    then obtain i where i: "i < length (crCandidates req)" "c = compare_result Es cxs ws ctxErr req k i"
      by fastforce
    then show ?thesis
      using compare_work_serves [OF assms(5) [of i] assms(6) [of i] assms(7) [of i] assms(8) [of i] v nth_mem [OF i(1)] assms(4)] k(3) assms(10) [of i]
      by (auto simp: compare_result_def)
  qed
  then show ?thesis using k assms(3) by (auto simp: all_agree_iff)
qed

lemma compare_result_of:
  assumes "\<And>i. frames_bounded (Es i)" "\<And>i. heap_wf (ws i)"
  shows "RackSlot (ccRack (compare_result Es cxs ws ctxErr req k i)) (ccSlot (compare_result Es cxs ws ctxErr req k i)) =
      crCandidates req ! i"
    and "i < k \<Longrightarrow> compare_work (Es i) (cxs i) req (crCandidates req ! i) (ws i) =
      Some (compare_result Es cxs ws ctxErr req k i)"
proof -
  obtain c where "compare_work (Es i) (cxs i) req (crCandidates req ! i) (ws i) = Some c"
    "ccRack c = rsRack (crCandidates req ! i)" "ccSlot c = rsSlot (crCandidates req ! i)"
    by (rule compare_work_total [OF assms])
  then show "RackSlot (ccRack (compare_result Es cxs ws ctxErr req k i)) (ccSlot (compare_result Es cxs ws ctxErr req k i)) =
      crCandidates req ! i"
    "i < k \<Longrightarrow> compare_work (Es i) (cxs i) req (crCandidates req ! i) (ws i) =
      Some (compare_result Es cxs ws ctxErr req k i)"
    by (simp_all add: compare_result_def compareCandidateFailure_def)
qed

lemma compare_pool_sel:
  "pcJobs (compare_pool Es cxs ws ctxErr req) = length (crCandidates req)" "\<not> pcPolls (compare_pool Es cxs ws ctxErr req)"
  "pcWork (compare_pool Es cxs ws ctxErr req) i = compare_work (Es i) (cxs i) req (crCandidates req ! i) (ws i)"
  "pcWaits (compare_pool Es cxs ws ctxErr req) i = Some []"
  by (simp_all add: compare_pool_def)

lemma compare_pool_ends:
  assumes "\<And>i. frames_bounded (Es i)" "\<And>i. heap_wf (ws i)"
    and "pool_run (compare_pool Es cxs ws ctxErr req) sched (pool_init (compare_pool Es cxs ws ctxErr req)) = Some p"
  shows "length (wpRunning p) \<le> nat (max 1 (crParallelism req)) \<and>
    (pool_finished p \<or> (\<exists>a. a \<noteq> Cancel \<and> pool_act (compare_pool Es cxs ws ctxErr req) a p \<noteq> None)) \<and>
    length (filter (\<lambda>a. a \<noteq> Cancel) sched) \<le> 3 * length (crCandidates req)"
proof -
  let ?cfg = "compare_pool Es cxs ws ctxErr req" and ?n = "length (crCandidates req)"
  have "compare_work (Es i) (cxs i) req (crCandidates req ! i) (ws i) \<noteq> None" for i
    by (rule compare_work_total [OF assms(1,2), of i "cxs i" req "crCandidates req ! i" i]) simp
  then have total': "\<forall>i<pcJobs ?cfg. pcWork ?cfg i \<noteq> None \<and> pcWaits ?cfg i \<noteq> None" by (simp add: compare_pool_def)
  have "cp.steps_from Es cxs ws ctxErr req k = 3 * (?n - k)" for k
    by (simp add: cp.steps_from_def compare_pool_sel sum_list_triv)
  then have "cp.work_left Es cxs ws ctxErr req (pool_init ?cfg) \<le> 3 * ?n"
    by (cases "crCandidates req") (simp_all add: cp.work_left_def pool_init_def loop_at_def compare_pool_sel)
  then have "length (filter (\<lambda>a. a \<noteq> Cancel) sched) \<le> 3 * ?n"
    using cp.schedule_bound [OF assms(3) cp.pool_inv_init] by linarith
  moreover have "length (wpRunning p) \<le> nat (max 1 (crParallelism req))"
    using cp.bounded [OF assms(3)] by (auto simp: compare_pool_def split: if_splits)
  ultimately show ?thesis
    using cp.progress [OF cp.pool_inv_run [OF assms(3) cp.pool_inv_init] _ total'] by blast
qed

end
