(* ===== verification/Probe.thy ===== *)
theory Probe
  imports Compare
begin

text \<open>
  The rack/slot probe of one host (\<open>client/probe.go\<close>, with its validation): defaults by safety
  mode, the enumeration of candidates, one probe (TCP, COTP, S7 set-up and, in strict mode, a
  follow-up SZL read), and the pool that runs them.

  The string types of the source stay strings, because their zero value is the empty string and a
  caller may pass any other.  The pool is that of \<open>Worker_Pool\<close>, whose loop polls the context at
  the start of an iteration and then waits for the jitter and the delay; a context that ends during
  such a wait ends the loop as it does at the semaphore.  The random numbers are the parameter
  \<open>rnd\<close>: \<open>rnd k n\<close> is the \<open>k\<close>-th \<open>Intn(n)\<close>.
\<close>

section \<open>Types\<close>

type_synonym SafetyMode = string

definition SafetyConservative :: SafetyMode where "SafetyConservative = ''conservative''"
definition SafetyNormal :: SafetyMode where "SafetyNormal = ''normal''"
definition SafetyAggressive :: SafetyMode where "SafetyAggressive = ''aggressive''"

type_synonym ProbeStage = string

definition ProbeStageTCP :: ProbeStage where "ProbeStageTCP = ''tcp''"
definition ProbeStageCOTP :: ProbeStage where "ProbeStageCOTP = ''cotp''"
definition ProbeStageSetup :: ProbeStage where "ProbeStageSetup = ''setup''"
definition ProbeStageQuery :: ProbeStage where "ProbeStageQuery = ''query''"

type_synonym ProbeStatus = string

definition StatusUnreachable :: ProbeStatus where "StatusUnreachable = ''unreachable''"
definition StatusTCPOnly :: ProbeStatus where "StatusTCPOnly = ''tcp-only''"
definition StatusCOTPOnly :: ProbeStatus where "StatusCOTPOnly = ''cotp-only''"
definition StatusSetupOnly :: ProbeStatus where "StatusSetupOnly = ''setup-only''"
definition StatusValidConnect :: ProbeStatus where "StatusValidConnect = ''valid-connect''"
definition StatusValidQuery :: ProbeStatus where "StatusValidQuery = ''valid-query''"
definition StatusRejected :: ProbeStatus where "StatusRejected = ''rejected''"
definition StatusTimeout :: ProbeStatus where "StatusTimeout = ''timeout''"
definition StatusFlaky :: ProbeStatus where "StatusFlaky = ''flaky''"

lemmas probe_status_defs = StatusUnreachable_def StatusTCPOnly_def StatusCOTPOnly_def StatusSetupOnly_def
  StatusValidConnect_def StatusValidQuery_def StatusRejected_def StatusTimeout_def StatusFlaky_def

type_synonym ConfirmationKind = string

definition ConfirmNone :: ConfirmationKind where "ConfirmNone = ''none''"
definition ConfirmSZL :: ConfirmationKind where "ConfirmSZL = ''szl''"
definition ConfirmCPUState :: ConfirmationKind where "ConfirmCPUState = ''cpu-state''"
definition ConfirmAny :: ConfirmationKind where "ConfirmAny = ''any''"

lemmas confirm_defs = ConfirmNone_def ConfirmSZL_def ConfirmCPUState_def ConfirmAny_def

type_synonym Confidence = string

definition ConfidenceNone :: Confidence where "ConfidenceNone = ''none''"
definition ConfidenceLow :: Confidence where "ConfidenceLow = ''low''"
definition ConfidenceHigh :: Confidence where "ConfidenceHigh = ''high''"

record RackSlotProbeRequest =
  rqAddress :: string
  rqPort :: int
  rqRackMin :: int
  rqRackMax :: int
  rqSlotMin :: int
  rqSlotMax :: int
  rqTimeout :: duration
  rqParallelism :: int
  rqDelayMS :: int
  rqStopOnFirst :: bool
  rqLocalTSAP :: "uint16 option"
  rqRemoteTSAP :: "uint16 option"
  rqSafetyMode :: SafetyMode
  rqJitterMS :: int
  rqMaxAttemptsPerHost :: int
  rqStrict :: bool
  rqConfirm :: ConfirmationKind
  rqRetries :: int
  rqRetryDelay :: duration
  rqStopOnFirstConfirmed :: bool

record RackSlotCandidate =
  cdRack :: int
  cdSlot :: int
  cdLocalTSAP :: uint16
  cdRemoteTSAP :: uint16
  cdStage :: ProbeStage
  cdStatus :: ProbeStatus
  cdPDUSize :: int
  cdConfirmedBy :: ConfirmationKind
  cdConfidence :: Confidence
  cdError :: string

record RackSlotProbeResult =
  psAddress :: string
  psCandidates :: "RackSlotCandidate list"
  psValid :: "RackSlotCandidate list"
  psSetupAccepted :: int
  psConfirmedByQuery :: int
  psFlaky :: int
  psTCPOnly :: int
  psStoppedEarly :: bool
  psStoppedReason :: string

definition zero_RackSlotCandidate :: RackSlotCandidate where
  "zero_RackSlotCandidate =
     \<lparr>cdRack = 0, cdSlot = 0, cdLocalTSAP = 0, cdRemoteTSAP = 0, cdStage = '''', cdStatus = '''',
      cdPDUSize = 0, cdConfirmedBy = '''', cdConfidence = '''', cdError = ''''\<rparr>"

section \<open>Defaults and validation\<close>

definition DefaultRackSlotProbeRequest :: "string \<Rightarrow> RackSlotProbeRequest" where
  "DefaultRackSlotProbeRequest address =
     \<lparr>rqAddress = address, rqPort = 102, rqRackMin = 0, rqRackMax = 7, rqSlotMin = 0, rqSlotMax = 31,
      rqTimeout = 2 * second, rqParallelism = 4, rqDelayMS = 0, rqStopOnFirst = False, rqLocalTSAP = None,
      rqRemoteTSAP = None, rqSafetyMode = '''', rqJitterMS = 0, rqMaxAttemptsPerHost = 0, rqStrict = False,
      rqConfirm = '''', rqRetries = 0, rqRetryDelay = 0, rqStopOnFirstConfirmed = False\<rparr>"

definition applyProbeDefaults :: "RackSlotProbeRequest \<Rightarrow> RackSlotProbeRequest" where
  \<comment> \<open>each assignment of the source reads only the field it sets and the mode\<close>
  "applyProbeDefaults req =
     (let mode = (if rqSafetyMode req = '''' then SafetyNormal else rqSafetyMode req)
      in req\<lparr>rqPort := (if rqPort req = 0 then 102 else rqPort req),
             rqTimeout := (if rqTimeout req = 0 then
                             (if mode = SafetyConservative then 5 * second
                              else if mode = SafetyAggressive then second else 2 * second)
                           else rqTimeout req),
             rqParallelism := (if rqParallelism req < 1 then
                                 (if mode = SafetyConservative then 2
                                  else if mode = SafetyAggressive then 8 else 4)
                               else rqParallelism req),
             rqDelayMS := (if rqDelayMS req = 0 \<and> mode = SafetyConservative then 50 else rqDelayMS req),
             rqConfirm := (if rqStrict req \<and> rqConfirm req = ConfirmNone then ConfirmAny else rqConfirm req)\<rparr>)"

definition validateRackSlotProbeRequest :: "RackSlotProbeRequest \<Rightarrow> goerr option" where
  "validateRackSlotProbeRequest req =
     (if blank (rqAddress req) then Some (ValidationError ''address must be non-empty'')
      else if rqPort req < 0 \<or> rqPort req > 65535 then
        Some (ValidationError (''port must be 0..65535, got '' @ fmt_d (rqPort req)))
      else if rqRackMin req < 0 \<or> rqRackMin req > 7 then
        Some (ValidationError (''rack min must be 0..7, got '' @ fmt_d (rqRackMin req)))
      else if rqRackMax req < 0 \<or> rqRackMax req > 7 then
        Some (ValidationError (''rack max must be 0..7, got '' @ fmt_d (rqRackMax req)))
      else if rqSlotMin req < 0 \<or> rqSlotMin req > 31 then
        Some (ValidationError (''slot min must be 0..31, got '' @ fmt_d (rqSlotMin req)))
      else if rqSlotMax req < 0 \<or> rqSlotMax req > 31 then
        Some (ValidationError (''slot max must be 0..31, got '' @ fmt_d (rqSlotMax req)))
      else if rqRackMin req > rqRackMax req then
        Some (ValidationError (''rack min must be <= rack max, got min='' @ fmt_d (rqRackMin req) @ '' max='' @
                               fmt_d (rqRackMax req)))
      else if rqSlotMin req > rqSlotMax req then
        Some (ValidationError (''slot min must be <= slot max, got min='' @ fmt_d (rqSlotMin req) @ '' max='' @
                               fmt_d (rqSlotMax req)))
      else if rqTimeout req < 0 then
        Some (ValidationError (''timeout must be >= 0, got '' @ duration_String (rqTimeout req)))
      else if rqRetries req < 0 then
        Some (ValidationError (''retries must be >= 0, got '' @ fmt_d (rqRetries req)))
      else if rqDelayMS req < 0 then
        Some (ValidationError (''delay ms must be >= 0, got '' @ fmt_d (rqDelayMS req)))
      else if rqParallelism req < 0 then
        Some (ValidationError (''parallelism must be >= 0, got '' @ fmt_d (rqParallelism req)))
      else if rqJitterMS req < 0 then
        Some (ValidationError (''jitter ms must be >= 0, got '' @ fmt_d (rqJitterMS req)))
      else if rqMaxAttemptsPerHost req < 0 then
        Some (ValidationError (''max attempts per host must be >= 0, got '' @ fmt_d (rqMaxAttemptsPerHost req)))
      else None)"

definition isProbeTimeout :: "goerr option \<Rightarrow> bool" where
  "isProbeTimeout e =
     (case e of
        None \<Rightarrow> False
      | Some err \<Rightarrow> errors_Is err DeadlineExceeded \<or> errors_As_net err = Some True)"

section \<open>The follow-up query\<close>

definition followup_reply :: "cotp_lib \<Rightarrow> uint16 \<Rightarrow> bytes \<Rightarrow> (bool \<times> string) option" where
  \<comment> \<open>from the received TPDU to the result of \<open>trySZL\<close>\<close>
  "followup_reply C pduRef resp =
     (case cotp_Decode C resp of
        Inl err \<Rightarrow> Some (False, err_text err)
      | Inr dec \<Rightarrow>
        (case decDT dec of
           None \<Rightarrow> Some (False, ''expected COTP DT'')
         | Some dt \<Rightarrow> do {
             p \<leftarrow> ParseS7Header (dtUserData dt);
             case p of
               Inl err \<Rightarrow> Some (False, err_text err)
             | Inr (hdr, rest) \<Rightarrow>
                 if hPDURef hdr \<noteq> pduRef then
                   Some (False, ''PDU ref mismatch: expected '' @ fmt_d (uint pduRef) @ '' got '' @
                                fmt_d (uint (hPDURef hdr)))
                 else if hErrorClass hdr \<noteq> 0 \<or> hErrorCode hdr \<noteq> 0 then
                   Some (False, ''S7 error 0x'' @ fmt02X (hErrorClass hdr) @ ''/0x'' @ fmt02X (hErrorCode hdr))
                 else if length rest < unat (hParamLength hdr) + unat (hDataLength hdr) then
                   Some (False, ''short S7 payload'')
                 else do {
                   dataSlice \<leftarrow> slice rest (unat (hParamLength hdr))
                                  (unat (hParamLength hdr + hDataLength hdr));
                   r \<leftarrow> ParseSZLResponse dataSlice;
                   case r of
                     Inl err \<Rightarrow> Some (False, err_text err)
                   | Inr _ \<Rightarrow> Some (True, '''') } }))"

definition trySZL ::
    "env \<Rightarrow> ctx \<Rightarrow> nat \<Rightarrow> uint16 \<Rightarrow> uint16 \<Rightarrow> ('z world_scheme, bool \<times> string) io" where
  "trySZL E cx conn pduRef szlID =
     (let req = EncodeSZLRequest pduRef szlID 0 in
      case EncodeCOTPDT (env_cotp E) req of
        Inl err \<Rightarrow> io_ret (False, err_text err)
      | Inr dtBytes \<Rightarrow>
          io_case (SendContext E conn cx dtBytes) (\<lambda>r. case r of
            Inl err \<Rightarrow> io_ret (False, err_text err)
          | Inr _ \<Rightarrow>
              io_case (ReceiveContext E conn cx) (\<lambda>r. case r of
                Inl err \<Rightarrow> io_ret (False, err_text err)
              | Inr resp \<Rightarrow> io_pure (map_option Inr (followup_reply (env_cotp E) pduRef resp)))))"

definition runFollowUp ::
    "env \<Rightarrow> ctx \<Rightarrow> nat \<Rightarrow> uint16 \<Rightarrow> ConfirmationKind \<Rightarrow>
     ('z world_scheme, bool \<times> ConfirmationKind \<times> string) io" where
  "runFollowUp E cx conn pduRef strategy =
     (if strategy = ConfirmSZL then
        io_bind (trySZL E cx conn pduRef SZLModuleID) (\<lambda>(ok, errMsg).
        if ok then io_ret (True, ConfirmSZL, '''') else io_ret (False, ConfirmNone, errMsg))
      else if strategy = ConfirmCPUState then
        io_bind (trySZL E cx conn pduRef SZLCPUState) (\<lambda>(ok, errMsg).
        if ok then io_ret (True, ConfirmCPUState, '''') else io_ret (False, ConfirmNone, errMsg))
      else if strategy = ConfirmAny then
        io_bind (trySZL E cx conn pduRef SZLModuleID) (\<lambda>(ok, _).
        if ok then io_ret (True, ConfirmSZL, '''')
        else
          io_bind (trySZL E cx conn pduRef SZLCPUState) (\<lambda>(ok, _).
          if ok then io_ret (True, ConfirmCPUState, '''')
          else
            io_bind (trySZL E cx conn pduRef SZLProtectionInfo) (\<lambda>(ok, errMsg).
            if ok then io_ret (True, ConfirmAny, '''') else io_ret (False, ConfirmNone, errMsg))))
      else io_ret (False, ConfirmNone, ''no confirmation strategy''))"

section \<open>One candidate\<close>

definition probe_TSAPs :: "RackSlotProbeRequest \<Rightarrow> int \<Rightarrow> int \<Rightarrow> goerr + uint16 \<times> uint16" where
  "probe_TSAPs req rack slot =
     (case (case rqLocalTSAP req of Some t \<Rightarrow> Inr t | None \<Rightarrow> BuildTSAP 1 0 0) of
        Inl err \<Rightarrow> Inl err
      | Inr localTSAP \<Rightarrow>
          (case (case rqRemoteTSAP req of Some t \<Rightarrow> Inr t | None \<Rightarrow> BuildTSAP 3 rack slot) of
             Inl err \<Rightarrow> Inl err
           | Inr remoteTSAP \<Rightarrow> Inr (localTSAP, remoteTSAP)))"

definition probe_conn ::
    "env \<Rightarrow> ctx \<Rightarrow> RackSlotProbeRequest \<Rightarrow> int \<Rightarrow> int \<Rightarrow> RackSlotCandidate \<Rightarrow> nat \<Rightarrow>
     ('z world_scheme, RackSlotCandidate) io" where
  \<comment> \<open>the body of \<open>probeOne\<close> between the dial and the deferred close\<close>
  "probe_conn E cx req rack slot c conn =
     (case probe_TSAPs req rack slot of
        Inl err \<Rightarrow> io_ret (c\<lparr>cdError := err_text err, cdStatus := StatusRejected\<rparr>)
      | Inr (localTSAP, remoteTSAP) \<Rightarrow>
          let c = c\<lparr>cdLocalTSAP := localTSAP, cdRemoteTSAP := remoteTSAP\<rparr> in
          io_case (performCOTPConnect E cx conn localTSAP remoteTSAP) (\<lambda>r. case r of
            Inl err \<Rightarrow>
              io_ret (c\<lparr>cdStage := ProbeStageCOTP,
                        cdStatus := if isProbeTimeout (Some err) then StatusTimeout else StatusTCPOnly,
                        cdError := err_text err\<rparr>)
          | Inr _ \<Rightarrow>
              io_case (performS7Setup E cx conn 1 1 1 480) (\<lambda>r. case r of
                Inl err \<Rightarrow>
                  io_ret (c\<lparr>cdStage := ProbeStageSetup,
                            cdStatus := if isProbeTimeout (Some err) then StatusTimeout
                                        else if errors_As_S7 err \<noteq> None then StatusRejected
                                        else StatusCOTPOnly,
                            cdError := err_text err\<rparr>)
              | Inr setup \<Rightarrow>
                  let c = c\<lparr>cdPDUSize := scPDUSize setup\<rparr> in
                  if \<not> rqStrict req then
                    io_ret (c\<lparr>cdStage := ProbeStageSetup, cdStatus := StatusSetupOnly,
                              cdConfidence := ConfidenceLow\<rparr>)
                  else
                    let c = c\<lparr>cdStage := ProbeStageQuery\<rparr> in
                    io_bind (runFollowUp E cx conn 2 (rqConfirm req)) (\<lambda>(ok, confirmedBy, errStr).
                    if ok then
                      io_ret (c\<lparr>cdStatus := StatusValidQuery, cdConfirmedBy := confirmedBy,
                                cdConfidence := ConfidenceHigh\<rparr>)
                    else
                      let c = c\<lparr>cdStatus := StatusValidConnect, cdConfidence := ConfidenceLow\<rparr> in
                      io_ret (if errStr \<noteq> '''' then c\<lparr>cdError := ''follow-up failed: '' @ errStr\<rparr> else c)))))"

definition io_finally :: "('s, unit) io \<Rightarrow> ('s, 'a) io \<Rightarrow> ('s, 'a) io" where
  \<comment> \<open>\<open>defer func() { _ = f() }()\<close>\<close>
  "io_finally f m = io_case m (\<lambda>r. io_case f (\<lambda>_. io_pure (Some r)))"

definition probeOne ::
    "env \<Rightarrow> ctx \<Rightarrow> RackSlotProbeRequest \<Rightarrow> int \<Rightarrow> int \<Rightarrow> ('z world_scheme, RackSlotCandidate) io" where
  "probeOne E cx req rack slot =
     (let c = zero_RackSlotCandidate\<lparr>cdRack := rack, cdSlot := slot, cdConfidence := ConfidenceNone\<rparr>;
          addr = JoinHostPort (rqAddress req) (fmt_d (rqPort req))
      in io_case (dialTransport E cx addr (rqTimeout req)) (\<lambda>r. case r of
           Inl err \<Rightarrow>
             io_ret (c\<lparr>cdStage := ProbeStageTCP,
                       cdStatus := if isProbeTimeout (Some err) then StatusTimeout else StatusUnreachable,
                       cdError := err_text err\<rparr>)
         | Inr conn \<Rightarrow>
             io_finally (transport_Close E conn) (probe_conn E cx req rack slot c conn)))"

section \<open>All candidates\<close>

definition probe_jobs :: "RackSlotProbeRequest \<Rightarrow> RackSlot list" where
  "probe_jobs req =
     concat (map (\<lambda>rack. map (\<lambda>slot. RackSlot rack slot) [rqSlotMin req..rqSlotMax req])
       [rqRackMin req..rqRackMax req])"

definition max_jobs :: "RackSlotProbeRequest \<Rightarrow> nat" where
  "max_jobs req =
     (if rqMaxAttemptsPerHost req > 0 \<and> int (length (probe_jobs req)) > rqMaxAttemptsPerHost req
      then nat (rqMaxAttemptsPerHost req) else length (probe_jobs req))"

definition setup_accepted :: "RackSlotCandidate \<Rightarrow> bool" where
  "setup_accepted c \<longleftrightarrow> cdStatus c = StatusSetupOnly \<or> cdStatus c = StatusValidConnect \<or>
     cdStatus c = StatusValidQuery"

definition probe_stops :: "RackSlotProbeRequest \<Rightarrow> RackSlotCandidate \<Rightarrow> bool" where
  "probe_stops req c \<longleftrightarrow>
     (let validForStop = setup_accepted c \<and> \<not> rqStrict req;
          validForStop = (if rqStrict req then cdStatus c = StatusValidQuery else validForStop)
      in validForStop \<and> (rqStopOnFirst req \<or> rqStopOnFirstConfirmed req))"

definition probe_work ::
    "env \<Rightarrow> ctx \<Rightarrow> RackSlotProbeRequest \<Rightarrow> RackSlot \<Rightarrow> world \<Rightarrow> RackSlotCandidate option" where
  "probe_work E cx req job w =
     (case fst (probeOne E cx req (rsRack job) (rsSlot job) w) of Some (Inr c) \<Rightarrow> Some c | _ \<Rightarrow> None)"

definition jitter_of :: "(nat \<Rightarrow> int \<Rightarrow> int) \<Rightarrow> int \<Rightarrow> nat \<Rightarrow> int option" where
  \<comment> \<open>the \<open>k\<close>-th jitter; \<open>Intn\<close> panics unless its argument is positive\<close>
  "jitter_of rnd jitterMS k =
     (if jitterMS > 0 then
        let n = wrap64 (jitterMS + 1) in if n \<le> 0 then None else Some (wrap64 (rnd k n * millisecond))
      else Some 0)"

definition probe_waits :: "(nat \<Rightarrow> int \<Rightarrow> int) \<Rightarrow> RackSlotProbeRequest \<Rightarrow> nat \<Rightarrow> int list option" where
  "probe_waits rnd req i =
     map_option (\<lambda>jitter. (if jitter > 0 then [jitter] else []) @
         (if rqDelayMS req > 0 \<and> i > 0 then [wrap64 (rqDelayMS req * millisecond)] else []))
       (jitter_of rnd (rqJitterMS req) i)"

definition probe_pool ::
    "(nat \<Rightarrow> int \<Rightarrow> int) \<Rightarrow> (nat \<Rightarrow> env) \<Rightarrow> (nat \<Rightarrow> ctx) \<Rightarrow> (nat \<Rightarrow> world) \<Rightarrow> RackSlotProbeRequest \<Rightarrow> RackSlotCandidate pool_config" where
  "probe_pool rnd Es cxs ws req =
     \<lparr>pcJobs = max_jobs req, pcSlots = length (probe_jobs req), pcParallel = nat (rqParallelism req),
      pcPolls = True, pcWaits = probe_waits rnd req, pcWork = (\<lambda>i. probe_work (Es i) (cxs i) req (probe_jobs req ! i) (ws i)),
      pcFill = (\<lambda>_. None), pcStops = probe_stops req\<rparr>"

definition probe_summary :: "RackSlotProbeRequest \<Rightarrow> RackSlotCandidate list \<Rightarrow> RackSlotProbeResult" where
  "probe_summary req candidates =
     \<lparr>psAddress = rqAddress req, psCandidates = candidates,
      psValid = filter (\<lambda>c. if rqStrict req then cdStatus c = StatusValidQuery else setup_accepted c) candidates,
      psSetupAccepted = int (length (filter setup_accepted candidates)),
      psConfirmedByQuery = int (length (filter (\<lambda>c. cdStatus c = StatusValidQuery) candidates)),
      psFlaky = int (length (filter (\<lambda>c. cdStatus c = StatusFlaky) candidates)),
      psTCPOnly = int (length (filter (\<lambda>c. cdStatus c = StatusTCPOnly) candidates)),
      psStoppedEarly = (max_jobs req < length (probe_jobs req)),
      psStoppedReason = (if max_jobs req < length (probe_jobs req) then ''max_attempts_reached'' else '''')\<rparr>"

definition ProbeRackSlots ::
    "(nat \<Rightarrow> int \<Rightarrow> int) \<Rightarrow> (nat \<Rightarrow> env) \<Rightarrow> (nat \<Rightarrow> ctx) \<Rightarrow> (nat \<Rightarrow> world) \<Rightarrow> goerr option \<Rightarrow> action list \<Rightarrow> RackSlotProbeRequest \<Rightarrow>
     (goerr + RackSlotProbeResult \<times> goerr option) option" where
  \<comment> \<open>\<open>ctxErr\<close> is \<open>ctx.Err()\<close> after the pool has finished; \<open>None\<close> as in \<open>CompareRead\<close>\<close>
  "ProbeRackSlots rnd Es cxs ws ctxErr sched req0 =
     (let req = applyProbeDefaults req0 in
      case validateRackSlotProbeRequest req of
        Some err \<Rightarrow> Some (Inl err)
      | None \<Rightarrow>
          let cfg = probe_pool rnd Es cxs ws req
          in case pool_run cfg sched (pool_init cfg) of
               None \<Rightarrow> None
             | Some p \<Rightarrow>
                 if \<not> pool_finished p then None
                 else let candidates = map (case_option zero_RackSlotCandidate id) (wpSlots p)
                      in Some (Inr (probe_summary req candidates, ctxErr)))"

end
