(* ===== verification/Probe_Props.thy ===== *)
theory Probe_Props
  imports Probe
begin

text \<open>
  Properties of the rack/slot probe: a probe never panics, closes every connection it opens,
  sends nothing but the connection request, the set-up request and SZL reads, and classifies its
  outcome consistently; the candidates come out in the order of enumeration for every schedule.
\<close>

section \<open>A probe does not panic\<close>

lemma followup_reply_total:
  assumes "\<And>dec dt. cotp_Decode C resp = Inr dec \<Longrightarrow> decDT dec = Some dt \<Longrightarrow> length (dtUserData dt) < 65546"
  shows "followup_reply C ref resp \<noteq> None"
proof -
  have "followup_reply C ref resp \<noteq> None" if d: "cotp_Decode C resp = Inr dec" "decDT dec = Some dt" for dec dt
  proof (cases rule: ParseS7Header_cases [of "dtUserData dt"])
    case (err e)
    then show ?thesis using d by (simp add: followup_reply_def)
  next
    case (ok h rest)
    note h = ParseS7Header_Inr [OF ok]
    have "length rest < 65536" using h(1,4,5) s7_offset_cases [of "dtUserData dt"] assms [OF d] by auto
    then have sum: "unat (hParamLength h + hDataLength h) = unat (hParamLength h) + unat (hDataLength h)"
      using h(6) by (simp add: unat_word_ariths)
    then obtain x where "slice rest (unat (hParamLength h)) (unat (hParamLength h + hDataLength h)) = Some x"
      using h(6) by (simp add: slice_def)
    then show ?thesis
      using d ok ParseSZLResponse_total [of x] by (auto simp: followup_reply_def split: sum.split)
  qed
  then show ?thesis
    by (cases "cotp_Decode C resp") (auto simp: followup_reply_def split: option.split)
qed

lemma np_trySZL:
  assumes "conn_wf (w_conns s c)" "frames_bounded E"
  shows "no_panic (trySZL E cx c ref i) s"
proof -
  have "followup_reply (env_cotp E) ref resp \<noteq> None" if "ReceiveContext E c cx u = (Some (Inr resp), t)" for resp u t
    using ReceiveContext_read [OF that] assms(2) unfolding frames_bounded_def
    by (intro followup_reply_total) blast
  then show ?thesis
    unfolding trySZL_def Let_def
    using assms(1) by (auto intro!: np_case np_SendContext np_ReceiveContext dest!: conns_SendContext split: sum.split)
qed

lemma only_trace_trySZL: "only_trace s (snd (trySZL E cx c ref i s))"
  unfolding trySZL_def Let_def
  by (auto intro!: tr.frame_case only_trace_SendContext only_trace_ReceiveContext tr.frame_pure
      simp del: io_run split: sum.split)

lemma only_trace_runFollowUp: "only_trace s (snd (runFollowUp E cx c ref k s))"
  unfolding runFollowUp_def
  by (auto intro!: tr.frame_bind only_trace_trySZL tr.frame_pure simp del: io_run split: prod.split)

lemma conns_trySZL: "trySZL E cx c ref i s = (r, t) \<Longrightarrow> w_conns t = w_conns s"
  by (rule conns_run [where m = "trySZL E cx c ref i"]) (rule only_trace_trySZL)

lemma np_runFollowUp:
  assumes "conn_wf (w_conns s c)" "frames_bounded E"
  shows "no_panic (runFollowUp E cx c ref k) s"
  unfolding runFollowUp_def
  using assms by (auto intro!: np_bind np_trySZL dest!: conns_trySZL split: prod.split)

lemma only_trace_probe_conn: "only_trace s (snd (probe_conn E cx req rack slot c p s))"
  unfolding probe_conn_def Let_def
  by (auto intro!: tr.frame_case tr.frame_bind only_trace_performCOTPConnect only_trace_performS7Setup
      only_trace_runFollowUp tr.frame_pure simp del: io_run split: sum.split prod.split)

lemma np_probe_conn:
  assumes "conn_wf (w_conns s p)" "frames_bounded E"
  shows "no_panic (probe_conn E cx req rack slot c p) s"
proof -
  have cotp: "w_conns t = w_conns u" if "performCOTPConnect E cx p l r u = (x, t)" for l r u x t
    using that by (rule conns_run [OF only_trace_performCOTPConnect])
  have setup': "w_conns t = w_conns u" if "performS7Setup E cx p 1 1 1 480 u = (x, t)" for u x t
    using that by (rule conns_run [OF only_trace_performS7Setup])
  show ?thesis
    unfolding probe_conn_def Let_def
    using assms
    by (auto intro!: np_case np_bind np_performCOTPConnect np_performS7Setup np_runFollowUp
        dest!: cotp setup' split: sum.split prod.split)
qed

section \<open>What a probe reports\<close>

definition candidate_wf :: "RackSlotProbeRequest \<Rightarrow> int \<Rightarrow> int \<Rightarrow> RackSlotCandidate \<Rightarrow> bool" where
  \<comment> \<open>status, stage, confidence and confirmation agree\<close>
  "candidate_wf req rack slot c \<longleftrightarrow> cdRack c = rack \<and> cdSlot c = slot \<and>
     (cdStatus c, cdStage c, cdConfidence c) \<in>
       {(StatusUnreachable, ProbeStageTCP, ConfidenceNone), (StatusTimeout, ProbeStageTCP, ConfidenceNone),
        (StatusRejected, '''', ConfidenceNone), (StatusTimeout, ProbeStageCOTP, ConfidenceNone),
        (StatusTCPOnly, ProbeStageCOTP, ConfidenceNone), (StatusTimeout, ProbeStageSetup, ConfidenceNone),
        (StatusRejected, ProbeStageSetup, ConfidenceNone), (StatusCOTPOnly, ProbeStageSetup, ConfidenceNone),
        (StatusSetupOnly, ProbeStageSetup, ConfidenceLow), (StatusValidConnect, ProbeStageQuery, ConfidenceLow),
        (StatusValidQuery, ProbeStageQuery, ConfidenceHigh)} \<and>
     (cdStatus c = StatusSetupOnly \<longrightarrow> \<not> rqStrict req) \<and>
     (cdStatus c = StatusValidQuery \<longrightarrow> rqStrict req \<and> rqConfirm req \<in> {ConfirmSZL, ConfirmCPUState, ConfirmAny} \<and>
        cdConfirmedBy c \<in> {ConfirmSZL, ConfirmCPUState, ConfirmAny}) \<and>
     (cdStatus c \<noteq> StatusValidQuery \<longrightarrow> cdConfirmedBy c = '''')"

lemma yields_ok: "yields (\<lambda>_. True) (io_pure (map_option Inr r))"
  by (auto simp: yields_def)

lemma yields_trySZL: "yields (\<lambda>_. True) (trySZL E cx conn ref i)"
  unfolding trySZL_def Let_def by (auto intro!: yields_case yields_ret yields_ok split: sum.split)

lemma yields_runFollowUp:
  "yields (\<lambda>(ok, by', _). ok \<longrightarrow> k \<in> {ConfirmSZL, ConfirmCPUState, ConfirmAny} \<and>
     by' \<in> {ConfirmSZL, ConfirmCPUState, ConfirmAny}) (runFollowUp E cx conn ref k)"
  unfolding runFollowUp_def
  by (auto intro!: yields_bind [OF yields_trySZL] yields_ret split: prod.split)

lemma yields_probe_conn:
  fixes req rack slot
  defines "c \<equiv> zero_RackSlotCandidate\<lparr>cdRack := rack, cdSlot := slot, cdConfidence := ConfidenceNone\<rparr>"
  shows "yields (candidate_wf req rack slot) (probe_conn E cx req rack slot c conn)"
proof -
  note defs = candidate_wf_def zero_RackSlotCandidate_def probe_status_defs
  have follow: "yields (candidate_wf req rack slot) (io_bind (runFollowUp E cx conn 2 (rqConfirm req))
      (\<lambda>(ok, confirmedBy, errStr).
         if ok then io_ret (c\<lparr>cdLocalTSAP := l, cdRemoteTSAP := r, cdPDUSize := n, cdStage := ProbeStageQuery,
             cdStatus := StatusValidQuery, cdConfirmedBy := confirmedBy, cdConfidence := ConfidenceHigh\<rparr>)
         else io_ret (if errStr \<noteq> '''' then c\<lparr>cdLocalTSAP := l, cdRemoteTSAP := r, cdPDUSize := n,
             cdStage := ProbeStageQuery, cdStatus := StatusValidConnect, cdConfidence := ConfidenceLow,
             cdError := ''follow-up failed: '' @ errStr\<rparr>
           else c\<lparr>cdLocalTSAP := l, cdRemoteTSAP := r, cdPDUSize := n,
             cdStage := ProbeStageQuery, cdStatus := StatusValidConnect, cdConfidence := ConfidenceLow\<rparr>)))"
    if "rqStrict req" for l r n
    by (rule yields_bind [OF yields_runFollowUp])
       (use that in \<open>auto intro!: yields_ret simp: c_def defs split: if_splits\<close>)
  show ?thesis
    unfolding probe_conn_def Let_def
    using follow
    by (auto intro!: yields_case yields_ret simp: c_def defs split: sum.split)
qed

section \<open>A probe closes what it opens\<close>

lemma probeOne_run:
  assumes "heap_wf s" "frames_bounded E"
  obtains c t where "probeOne E cx req rack slot s = (Some (Inr c), t)" "w_next s \<le> w_next t" "heap_wf t"
    "\<And>p. p < w_next s \<Longrightarrow> w_conns t p = w_conns s p"
    "\<And>p. w_next s \<le> p \<Longrightarrow> p < w_next t \<Longrightarrow> tConn (w_conns t p) = None"
proof (cases "env_dial E (w_trace s) (JoinHostPort (rqAddress req) (fmt_d (rqPort req))) (rqTimeout req)")
  case (Some err)
  have run: "\<exists>c. probeOne E cx req rack slot s =
      (Some (Inr c), grow s [EvDial (JoinHostPort (rqAddress req) (fmt_d (rqPort req)))])"
    using Some by (simp add: probeOne_def dialTransport_def io_case_def Let_def)
  then obtain c where "probeOne E cx req rack slot s =
      (Some (Inr c), grow s [EvDial (JoinHostPort (rqAddress req) (fmt_d (rqPort req)))])" ..
  then show ?thesis by (rule that) (use assms(1) in \<open>auto simp: heap_wf_def\<close>)
next
  case None
  let ?p = "w_next s" and ?addr = "JoinHostPort (rqAddress req) (fmt_d (rqPort req))"
  let ?c = "zero_RackSlotCandidate\<lparr>cdRack := rack, cdSlot := slot, cdConfidence := ConfidenceNone\<rparr>"
  define s1 where "s1 = s\<lparr>w_trace := w_trace s @ [EvDial ?addr],
    w_conns := (w_conns s)(?p := transport_New ?p (rqTimeout req)), w_next := ?p + 1\<rparr>"
  have dial: "dialTransport E cx ?addr (rqTimeout req) s = (Some (Inr ?p), s1)"
    using None by (simp add: dialTransport_def Let_def s1_def)
  have wf1: "heap_wf s1" using assms(1) by (simp add: s1_def heap_wf_def transport_New_def conn_wf_def)
  let ?m = "probe_conn E cx req rack slot ?c ?p"
  have "no_panic ?m s1" using wf1 by (intro np_probe_conn assms(2)) (simp add: heap_wf_def)
  then obtain r u where m: "?m s1 = (Some r, u)" by (cases "?m s1") (auto simp: no_panic_def)
  have ot: "only_trace s1 u" using only_trace_probe_conn [of s1 E cx req rack slot ?c ?p] m by simp
  obtain c where c: "r = Inr c" using yields_probe_conn [of req rack slot E cx ?p] m unfolding yields_def by blast
  obtain x t where cl: "transport_Close E ?p u = (Some x, t)"
    using transport_Close_total [of E ?p u] by (cases "transport_Close E ?p u") auto
  have run: "probeOne E cx req rack slot s = (Some (Inr c), t)"
    using dial m c cl by (simp add: probeOne_def io_case_def io_finally_def Let_def)
  have t: "w_next t = ?p + 1" "tConn (w_conns t ?p) = None" "heap_wf t"
    "\<And>q. q \<noteq> ?p \<Longrightarrow> w_conns t q = w_conns s1 q"
  proof -
    show "w_next t = ?p + 1"
      using cl only_trace_sel(2) [OF ot]
      by (cases "tConn (w_conns u ?p)") (auto simp: transport_Close_def Let_def s1_def)
    show "tConn (w_conns t ?p) = None" using transport_Close_closes [of E ?p u] cl by simp
    show "heap_wf t" using transport_Close_wf [of u E ?p] cl heap_wf_only_trace [OF ot] wf1 by simp
    show "w_conns t q = w_conns s1 q" if "q \<noteq> ?p" for q
      using transport_Close_other [OF that, of E u] cl only_trace_sel(1) [OF ot] by simp
  qed
  show ?thesis
    by (rule that [OF run]) (use t in \<open>auto simp: s1_def less_Suc_eq\<close>)
qed

lemma probeOne_candidate: "yields (candidate_wf req rack slot) (probeOne E cx req rack slot)"
proof -
  let ?c = "zero_RackSlotCandidate\<lparr>cdRack := rack, cdSlot := slot, cdConfidence := ConfidenceNone\<rparr>"
  have fin: "yields (candidate_wf req rack slot) (io_finally (transport_Close E conn) (probe_conn E cx req rack slot ?c conn))"
    for conn
    using yields_probe_conn [of req rack slot E cx conn]
    by (auto simp: yields_def io_finally_def io_case_def split: prod.splits option.splits)
  show ?thesis
    unfolding probeOne_def Let_def
    using fin
    by (auto intro!: yields_case yields_ret simp: candidate_wf_def zero_RackSlotCandidate_def probe_status_defs
        split: sum.split)
qed

section \<open>What a probe sends\<close>

definition tx_only :: "(bytes \<Rightarrow> bool) \<Rightarrow> 'z world_scheme \<Rightarrow> 'z world_scheme \<Rightarrow> bool" where
  "tx_only P s t \<longleftrightarrow> (\<exists>evs. w_trace t = w_trace s @ evs \<and> (\<forall>(k, d)\<in>set (tx_of evs). P d))"

interpretation to: io_frame "tx_only P" for P
proof unfold_locales
  show "tx_only P s s" for s :: "'z world_scheme" by (auto simp: tx_only_def)
  show "tx_only P s u" if "tx_only P s t" "tx_only P t u" for s t u :: "'z world_scheme"
    using that by (fastforce simp: tx_only_def)
qed

lemma tx_only_log: "tx_event e = None \<Longrightarrow> tx_only P s (snd (log_ev e s))"
  by (auto simp: tx_only_def)

lemma tx_only_atoms:
  "tx_only P s (snd (ctx_check cx s))" "tx_only P s (snd (setReadDeadline E sock tmo cx s))"
  "tx_only P s (snd (setWriteDeadline E sock tmo cx s))" "tx_only P s (snd (tracer_Trace c dir d s))"
  "tx_only P s (snd (ReadFrame E rd s))"
  by (auto simp: tx_only_def ctx_check_def setReadDeadline_def setWriteDeadline_def tracer_Trace_def ReadFrame_def
      Let_def split: option.split)

lemma tx_only_WriteFrame: "P d \<Longrightarrow> tx_only P s (snd (WriteFrame E wr d s))"
  by (auto simp: tx_only_def WriteFrame_def split: option.split)

lemma tx_only_SendContext:
  assumes "P d"
  shows "tx_only P s (snd (SendContext E c cx d s))"
proof (cases "tConn (w_conns s c)")
  case None
  then show ?thesis by (simp add: SendContext_closed to.R_refl)
next
  case (Some sock)
  show ?thesis
    unfolding SendContext_def Some option.case
    by (intro to.frame_bind tx_only_atoms tx_only_WriteFrame assms)
qed

lemma tx_only_ReceiveContext: "tx_only P s (snd (ReceiveContext E c cx s))"
proof (cases "tConn (w_conns s c)")
  case None
  then show ?thesis by (simp add: ReceiveContext_closed to.R_refl)
next
  case (Some sock)
  show ?thesis
    unfolding ReceiveContext_def Some option.case
    by (intro to.frame_bind to.frame_wrap tx_only_atoms to.frame_pure)
qed

lemma tx_only_transport:
  "tx_only P s (snd (dialTransport E cx a tmo s))" "tx_only P s (snd (transport_Close E c s))"
  by (auto simp: tx_only_def dialTransport_def transport_Close_def Let_def split: option.split)

lemma tx_only_performCOTPConnect:
  assumes "\<And>d. EncodeCOTPCR (env_cotp E) l r = Inr d \<Longrightarrow> P d"
  shows "tx_only P s (snd (performCOTPConnect E cx c l r s))"
proof (cases "EncodeCOTPCR (env_cotp E) l r")
  case (Inl e)
  show ?thesis
    unfolding performCOTPConnect_def Inl io_bind_wrap_pure
    by (intro to.frame_bind tx_only_atoms to.frame_pure)
next
  case (Inr d)
  show ?thesis
    unfolding performCOTPConnect_def Inr io_bind_wrap_pure
    by (auto intro!: to.frame_bind to.frame_wrap tx_only_atoms tx_only_SendContext tx_only_ReceiveContext
        to.frame_pure assms [OF Inr] simp del: io_run)
qed

lemma tx_only_performS7Setup:
  assumes "\<And>d. EncodeCOTPDT (env_cotp E) (EncodeSetupCommRequest ref a b m) = Inr d \<Longrightarrow> P d"
  shows "tx_only P s (snd (performS7Setup E cx c ref a b m s))"
proof (cases "EncodeCOTPDT (env_cotp E) (EncodeSetupCommRequest ref a b m)")
  case (Inl e)
  show ?thesis
    unfolding performS7Setup_def Let_def Inl io_bind_wrap_pure
    by (intro to.frame_bind tx_only_atoms to.frame_pure)
next
  case (Inr d)
  show ?thesis
    unfolding performS7Setup_def Let_def Inr io_bind_wrap_pure
    by (intro to.frame_bind tx_only_atoms tx_only_SendContext tx_only_ReceiveContext to.frame_pure assms [OF Inr])
qed

definition probe_frame :: "env \<Rightarrow> bytes \<Rightarrow> bool" where
  \<comment> \<open>a connection request, the set-up request or a read of one of three status lists\<close>
  "probe_frame E d \<longleftrightarrow> (\<exists>l r. EncodeCOTPCR (env_cotp E) l r = Inr d) \<or>
     EncodeCOTPDT (env_cotp E) (EncodeSetupCommRequest 1 1 1 480) = Inr d \<or>
     (\<exists>i\<in>{SZLModuleID, SZLCPUState, SZLProtectionInfo}. EncodeCOTPDT (env_cotp E) (EncodeSZLRequest 2 i 0) = Inr d)"

lemma tx_only_trySZL:
  assumes "i \<in> {SZLModuleID, SZLCPUState, SZLProtectionInfo}"
  shows "tx_only (probe_frame E) s (snd (trySZL E cx c 2 i s))"
proof (cases "EncodeCOTPDT (env_cotp E) (EncodeSZLRequest 2 i 0)")
  case (Inl e)
  show ?thesis unfolding trySZL_def Let_def Inl sum.case by (rule to.frame_pure)
next
  case (Inr d)
  have "probe_frame E d" using assms Inr by (auto simp: probe_frame_def)
  then show ?thesis
    unfolding trySZL_def Let_def Inr sum.case
    by (auto intro!: to.frame_case tx_only_SendContext tx_only_ReceiveContext to.frame_pure
        simp del: io_run split: sum.split)
qed

lemma tx_only_runFollowUp: "tx_only (probe_frame E) s (snd (runFollowUp E cx c 2 k s))"
  unfolding runFollowUp_def
  by (auto intro!: to.frame_bind tx_only_trySZL to.frame_pure simp del: io_run split: prod.split)

lemma tx_only_probe_conn: "tx_only (probe_frame E) s (snd (probe_conn E cx req rack slot c p s))"
proof -
  have cr: "tx_only (probe_frame E) s (snd (performCOTPConnect E cx p l r s))" for l r s
    by (rule tx_only_performCOTPConnect) (auto simp: probe_frame_def)
  have su: "tx_only (probe_frame E) s (snd (performS7Setup E cx p 1 1 1 480 s))" for s
    by (rule tx_only_performS7Setup) (simp add: probe_frame_def)
  show ?thesis
    unfolding probe_conn_def Let_def
    by (auto intro!: to.frame_case to.frame_bind cr su tx_only_runFollowUp to.frame_pure
        simp del: io_run split: sum.split prod.split)
qed

lemma tx_only_probeOne: "tx_only (probe_frame E) s (snd (probeOne E cx req rack slot s))"
  unfolding probeOne_def Let_def io_finally_def
  by (auto intro!: to.frame_case tx_only_transport tx_only_probe_conn to.frame_pure simp del: io_run split: sum.split)

section \<open>The candidates\<close>

lemma probe_jobs_sorted: "sorted_wrt (<) (probe_jobs req)"
proof -
  have slots: "sorted_wrt (<) (map (RackSlot rack) [a..b])" for rack a b
    by (simp add: sorted_wrt_map less_RackSlot_def)
  have "sorted_wrt (<) (concat (map (\<lambda>rack. map (RackSlot rack) [a..b]) racks))" if "sorted_wrt (<) racks" for racks a b
    using that
  proof (induction racks)
    case (Cons r racks)
    have "x < y" if "x \<in> set (map (RackSlot r) [a..b])" "y \<in> set (concat (map (\<lambda>rack. map (RackSlot rack) [a..b]) racks))" for x y
      using that Cons.prems by (auto simp: less_RackSlot_def)
    then show ?case using slots Cons by (simp add: sorted_wrt_append)
  qed simp
  then show ?thesis unfolding probe_jobs_def by simp
qed

lemma probe_jobs_set:
  "RackSlot r s \<in> set (probe_jobs req) \<longleftrightarrow>
     rqRackMin req \<le> r \<and> r \<le> rqRackMax req \<and> rqSlotMin req \<le> s \<and> s \<le> rqSlotMax req"
  by (fastforce simp: probe_jobs_def)

lemma max_jobs_le: "max_jobs req \<le> length (probe_jobs req)"
  by (auto simp: max_jobs_def)

lemma applyProbeDefaults_parallel: "0 < rqParallelism (applyProbeDefaults req)"
  by (simp add: applyProbeDefaults_def Let_def)

lemma probe_pool_sel [simp]:
  "pcJobs (probe_pool rnd Es cxs ws req) = max_jobs req" "pcSlots (probe_pool rnd Es cxs ws req) = length (probe_jobs req)"
  "pcParallel (probe_pool rnd Es cxs ws req) = nat (rqParallelism req)" "pcPolls (probe_pool rnd Es cxs ws req)"
  "pcWork (probe_pool rnd Es cxs ws req) i = probe_work (Es i) (cxs i) req (probe_jobs req ! i) (ws i)"
  "pcFill (probe_pool rnd Es cxs ws req) = (\<lambda>_. None)" "pcStops (probe_pool rnd Es cxs ws req) = probe_stops req"
  "pcWaits (probe_pool rnd Es cxs ws req) = probe_waits rnd req"
  by (simp_all add: probe_pool_def)

interpretation pp: worker_pool "probe_pool rnd Es cxs ws (applyProbeDefaults req)" for rnd Es cxs ws req
  by unfold_locales (simp_all add: applyProbeDefaults_parallel max_jobs_le)

lemma probe_work_total:
  assumes "frames_bounded E" "heap_wf w"
  obtains c where "probe_work E cx req job w = Some c" "candidate_wf req (rsRack job) (rsSlot job) c"
proof -
  obtain c t where run: "probeOne E cx req (rsRack job) (rsSlot job) w = (Some (Inr c), t)"
    using probeOne_run [OF assms(2,1)] by metis
  have "candidate_wf req (rsRack job) (rsSlot job) c"
    using probeOne_candidate run unfolding yields_def by fastforce
  then show ?thesis using that run by (simp add: probe_work_def)
qed

definition probe_candidate ::
    "(nat \<Rightarrow> env) \<Rightarrow> (nat \<Rightarrow> ctx) \<Rightarrow> (nat \<Rightarrow> world) \<Rightarrow> RackSlotProbeRequest \<Rightarrow> nat \<Rightarrow> nat \<Rightarrow> RackSlotCandidate" where
  \<comment> \<open>the specification: candidate \<open>i\<close> when the first \<open>k\<close> jobs are probed\<close>
  "probe_candidate Es cxs ws req k i =
     (if i < k then the (probe_work (Es i) (cxs i) req (probe_jobs req ! i) (ws i)) else zero_RackSlotCandidate)"

lemma ProbeRackSlots_spec:
  fixes req0
  defines "req \<equiv> applyProbeDefaults req0"
  assumes "ProbeRackSlots rnd Es cxs ws ctxErr sched req0 = Some (Inr (res, err))"
    and "\<And>i. frames_bounded (Es i)" "\<And>i. heap_wf (ws i)"
  shows "\<exists>k\<le>max_jobs req. res = probe_summary req (map (probe_candidate Es cxs ws req k) [0..<length (probe_jobs req)]) \<and>
    err = ctxErr \<and> (k = max_jobs req \<or> Cancel \<in> set sched \<or> (\<exists>i<k. probe_stops req (probe_candidate Es cxs ws req k i)))"
proof -
  let ?cfg = "probe_pool rnd Es cxs ws req" and ?n = "length (probe_jobs req)"
  obtain p where p: "pool_run ?cfg sched (pool_init ?cfg) = Some p" "pool_finished p" "err = ctxErr"
    "res = probe_summary req (map (case_option zero_RackSlotCandidate id) (wpSlots p))"
    using assms(2) by (auto simp: ProbeRackSlots_def Let_def req_def split: option.splits if_splits)
  define k where "k = wpNext p"
  note k = pp.results [OF p(1,2) [unfolded req_def], folded req_def, simplified, folded k_def]
  have "map (case_option zero_RackSlotCandidate id) (wpSlots p) = map (probe_candidate Es cxs ws req k) [0..<?n]"
  proof (rule nth_equalityI)
    fix i
    assume "i < length (map (case_option zero_RackSlotCandidate id) (wpSlots p))"
    then have i: "i < ?n" by (simp add: k(1))
    obtain c where "probe_work (Es i) (cxs i) req (probe_jobs req ! i) (ws i) = Some c"
      by (rule probe_work_total [OF assms(3,4)])
    then show "map (case_option zero_RackSlotCandidate id) (wpSlots p) ! i = map (probe_candidate Es cxs ws req k) [0..<?n] ! i"
      using i by (simp add: k(1) probe_candidate_def)
  qed (simp add: k(1))
  moreover have "k = max_jobs req \<or> Cancel \<in> set sched \<or> (\<exists>i<k. probe_stops req (probe_candidate Es cxs ws req k i))"
  proof (cases "wpDone p")
    case True
    from pool_run_done [OF p(1) this]
    consider "Cancel \<in> set sched" | i r where "Finish i \<in> set sched" "pcWork ?cfg i = Some r" "pcStops ?cfg r"
      by (auto simp: pool_init_def)
    then show ?thesis
    proof cases
      case 2
      have "i < k"
        using pp.finished_started [OF p(1) [unfolded req_def] pp.pool_inv_init 2(1)] by (simp add: k_def)
      moreover from this have "probe_candidate Es cxs ws req k i = r" using 2(2) by (simp add: probe_candidate_def)
      ultimately show ?thesis using 2(3) unfolding probe_pool_sel by blast
    qed simp
  qed (use k(3) in simp)
  ultimately show ?thesis using p(3,4) k(2) by auto
qed

text \<open>Without a limit on the jitter near the largest \<open>int\<close> some schedule completes, and the starts are
  at least the delay apart.\<close>

lemma jitter_of_total: "ms < 2 ^ 63 - 1 \<Longrightarrow> jitter_of rnd ms k \<noteq> None"
  by (simp add: jitter_of_def Let_def wrap64_id in64_def)

lemma ProbeRackSlots_completes:
  fixes req0
  defines "req \<equiv> applyProbeDefaults req0"
  assumes "\<And>i. frames_bounded (Es i)" "\<And>i. heap_wf (ws i)" "rqJitterMS req < 2 ^ 63 - 1"
    and "validateRackSlotProbeRequest req = None"
  shows "\<exists>sched res. Cancel \<notin> set sched \<and> ProbeRackSlots rnd Es cxs ws None sched req0 = Some (Inr (res, None))"
proof -
  let ?cfg = "probe_pool rnd Es cxs ws req"
  have "probe_work (Es i) (cxs i) req (probe_jobs req ! i) (ws i) \<noteq> None" for i
    by (rule probe_work_total [OF assms(2,3), of i "cxs i" req "probe_jobs req ! i" i]) simp
  then have "\<forall>i<pcJobs ?cfg. pcWork ?cfg i \<noteq> None \<and> pcWaits ?cfg i \<noteq> None"
    using jitter_of_total [OF assms(4)] by (simp add: probe_waits_def)
  from pp.completes [OF this [unfolded req_def] pp.pool_inv_init]
  obtain as p where "Cancel \<notin> set as" "pool_run ?cfg as (pool_init ?cfg) = Some p" "pool_finished p"
    unfolding req_def by blast
  then show ?thesis
    using assms(5) by (intro exI [of _ as]) (simp add: ProbeRackSlots_def Let_def req_def)
qed

lemma probe_delays:
  fixes req0
  defines "req \<equiv> applyProbeDefaults req0"
  assumes "pool_run (probe_pool rnd Es cxs ws req) sched (pool_init (probe_pool rnd Es cxs ws req)) = Some p"
    and "rqJitterMS req < 2 ^ 63 - 1" "0 \<le> rqDelayMS req" "rqDelayMS req * millisecond < 2 ^ 63"
  shows "(int (wpNext p) - 1) * (rqDelayMS req * millisecond) \<le> wpWaited p \<and>
    length (wpRunning p) \<le> nat (rqParallelism req)"
proof -
  let ?d = "rqDelayMS req * millisecond"
  have d: "0 \<le> ?d" using assms(4) by (simp add: millisecond_def)
  have one: "(if i = 0 then 0 else ?d) \<le> sum_list (map (max 0) (the (probe_waits rnd req i)))" for i
  proof -
    obtain j where "jitter_of rnd (rqJitterMS req) i = Some j" using jitter_of_total [OF assms(3)] by blast
    moreover have "wrap64 ?d = ?d" using d assms(5) by (intro wrap64_id) (simp add: in64_def)
    ultimately show ?thesis using d assms(4) by (auto simp: probe_waits_def)
  qed
  have "(int k - 1) * ?d \<le> pp.delays rnd Es cxs ws req0 k" for k
  proof (induction k)
    case (Suc k)
    have "pp.delays rnd Es cxs ws req0 (Suc k) =
        pp.delays rnd Es cxs ws req0 k + sum_list (map (max 0) (the (probe_waits rnd req k)))"
      by (simp add: pp.delays_def req_def)
    moreover have "pp.delays rnd Es cxs ws req0 0 = 0" by (simp add: pp.delays_def)
    ultimately show ?case using Suc one [of k] d by (cases "k = 0") (simp_all add: algebra_simps)
  qed (use d in \<open>simp add: pp.delays_def\<close>)
  moreover have "pp.delays rnd Es cxs ws req0 (wpNext p) \<le> wpWaited p"
    using pp.delays_kept [OF assms(2) [unfolded req_def]] by simp
  ultimately show ?thesis
    using pp.bounded [OF assms(2) [unfolded req_def]] order_trans by (fastforce simp: req_def)
qed

lemma probe_summary_counts:
  "int (length (psValid (probe_summary req cs))) =
     (if rqStrict req then psConfirmedByQuery (probe_summary req cs) else psSetupAccepted (probe_summary req cs)) \<and>
   psConfirmedByQuery (probe_summary req cs) \<le> psSetupAccepted (probe_summary req cs)"
proof -
  have "length (filter (\<lambda>c. cdStatus c = StatusValidQuery) cs) \<le> length (filter setup_accepted cs)"
    by (induction cs) (auto simp: setup_accepted_def)
  then show ?thesis by (simp add: probe_summary_def)
qed

lemma probe_jobs_set_eq:
  "set (probe_jobs req) =
     {RackSlot r s |r s. r \<in> {rqRackMin req..rqRackMax req} \<and> s \<in> {rqSlotMin req..rqSlotMax req}}"
  by (auto simp: probe_jobs_def)

lemma ProbeRackSlots_entries:
  assumes "ProbeRackSlots rnd Es cxs ws ctxErr sched req0 = Some (Inr (res, err))"
    and "\<And>i. frames_bounded (Es i)" "\<And>i. heap_wf (ws i)" "req = applyProbeDefaults req0"
  shows "(\<exists>k\<le>max_jobs req. length (psCandidates res) = length (probe_jobs req) \<and>
       (\<forall>i<length (probe_jobs req). if i < k
          then probe_work (Es i) (cxs i) req (probe_jobs req ! i) (ws i) = Some (psCandidates res ! i) \<and>
               candidate_wf req (rsRack (probe_jobs req ! i)) (rsSlot (probe_jobs req ! i)) (psCandidates res ! i)
          else psCandidates res ! i = zero_RackSlotCandidate) \<and>
       (k = max_jobs req \<or> Cancel \<in> set sched \<or> (\<exists>i<k. probe_stops req (psCandidates res ! i)))) \<and>
    psValid res = filter (\<lambda>c. if rqStrict req then cdStatus c = StatusValidQuery else setup_accepted c) (psCandidates res) \<and>
    int (length (psValid res)) = (if rqStrict req then psConfirmedByQuery res else psSetupAccepted res) \<and> err = ctxErr"
proof -
  let ?n = "length (probe_jobs req)"
  obtain k where k: "k \<le> max_jobs req"
    "res = probe_summary req (map (probe_candidate Es cxs ws req k) [0..<?n])" "err = ctxErr"
    "k = max_jobs req \<or> Cancel \<in> set sched \<or> (\<exists>i<k. probe_stops req (probe_candidate Es cxs ws req k i))"
    using ProbeRackSlots_spec [OF assms(1-3), folded assms(4)] by blast
  have kn: "k \<le> ?n" using k(1) max_jobs_le order_trans by blast
  have nth': "psCandidates res ! i = probe_candidate Es cxs ws req k i" if "i < ?n" for i
    using that by (simp add: k(2) probe_summary_def)
  have entry: "if i < k
      then probe_work (Es i) (cxs i) req (probe_jobs req ! i) (ws i) = Some (psCandidates res ! i) \<and>
           candidate_wf req (rsRack (probe_jobs req ! i)) (rsSlot (probe_jobs req ! i)) (psCandidates res ! i)
      else psCandidates res ! i = zero_RackSlotCandidate" if "i < ?n" for i
  proof -
    obtain c where "probe_work (Es i) (cxs i) req (probe_jobs req ! i) (ws i) = Some c"
      "candidate_wf req (rsRack (probe_jobs req ! i)) (rsSlot (probe_jobs req ! i)) c"
      by (rule probe_work_total [OF assms(2,3)])
    then show ?thesis using nth' [OF that] by (simp add: probe_candidate_def)
  qed
  have "k = max_jobs req \<or> Cancel \<in> set sched \<or> (\<exists>i<k. probe_stops req (psCandidates res ! i))"
    using k(4) nth' kn by (metis order_less_le_trans)
  moreover have "length (psCandidates res) = ?n" by (simp add: k(2) probe_summary_def)
  moreover have "psValid res = filter (\<lambda>c. if rqStrict req then cdStatus c = StatusValidQuery else setup_accepted c) (psCandidates res)"
    by (simp add: k(2) probe_summary_def)
  moreover have "int (length (psValid res)) = (if rqStrict req then psConfirmedByQuery res else psSetupAccepted res)"
    unfolding k(2) using probe_summary_counts by blast
  ultimately show ?thesis using entry k(1,3) by blast
qed

section \<open>A probe of a target that answers\<close>

lemma followup_of_reply:
  assumes "sendReceive_reply C ref resp = Some (Inr (param, data))" "ref \<noteq> 0"
    and "ParseSZLResponse data = Some (Inr r)"
  shows "followup_reply C ref resp = Some (True, '''')"
  using assms
  by (auto simp: sendReceive_reply_def followup_reply_def Let_def split: sum.splits option.splits if_splits
      Option.bind_splits)

definition answers_szl :: "'st target \<Rightarrow> 'st \<Rightarrow> uint16 \<Rightarrow> uint16 \<Rightarrow> bool" where
  \<comment> \<open>the target acknowledges the read of this status list under the reference\<close>
  "answers_szl step st ref i \<longleftrightarrow> (\<exists>param data r. accepts ref (snd (step st (EncodeSZLRequest ref i 0))) (param, data) \<and>
     ParseSZLResponse data = Some (Inr r))"

lemma trySZL_live:
  assumes "tConn (w_conns s c) = Some sock" "conn_wf (w_conns s c)" "ctx_live cx" "answers E step st0"
    and "answers_szl step (state_of E step st0 s) ref i" "ref \<noteq> 0"
  shows "\<exists>evs. trySZL E cx c ref i s = (Some (Inr (True, '''')), grow s evs)"
proof -
  let ?C = "env_cotp E" and ?req = "EncodeSZLRequest ref i 0"
  let ?ans = "snd (step (state_of E step st0 s) ?req)"
  obtain param data r where g: "accepts ref ?ans (param, data)" "ParseSZLResponse data = Some (Inr r)"
    using assms(5) by (auto simp: answers_szl_def)
  have sv: "cotp_faithful ?C" "env_set_deadline E tr k = None" "env_write E tr k d = None" for tr k d
    using assms(4) by (simp_all add: answers_def)
  obtain dt where dt: "EncodeCOTPDT ?C ?req = Inr dt" "user_of ?C dt = ?req" "is_dt ?C dt"
    using sv(1) by (rule cotp_faithful_dt)
  obtain resp dec d where resp: "EncodeCOTPDT ?C ?ans = Inr resp" "cotp_Decode ?C resp = Inr dec"
    "decDT dec = Some d" "dtUserData d = ?ans"
    using sv(1) unfolding cotp_faithful_def by blast
  have rd: "\<exists>p. env_read E tr sock = Inr p \<and> p = resp" if "tx_of tr = tx_of (w_trace s) @ [(sock, dt)]" for tr
    using assms(4) that dt resp(1) unfolding answers_def by (fastforce simp: state_of_def)
  obtain e1 e2 where x: "SendContext E c cx dt s = (Some (Inr ()), grow s e1)"
    "ReceiveContext E c cx (grow s e1) = (Some (Inr resp), grow (grow s e1) e2)"
    using SendContext_ReceiveContext [OF assms(1-3) sv(2,3), of dt "\<lambda>p. p = resp", OF rd] by blast
  have "sendReceive_reply ?C ref resp = Some (Inr (param, data))"
    using g(1) resp(2-4) by (simp add: accepts_def)
  from followup_of_reply [OF this assms(6) g(2)]
  have "trySZL E cx c ref i s = (Some (Inr (True, '''')), grow (grow s e1) e2)"
    using x dt(1) by (simp add: trySZL_def io_case_def Let_def)
  then show ?thesis by (intro exI [of _ "e1 @ e2"]) simp
qed

lemma probeOne_live:
  assumes "heap_wf s" "ctx_live cx" "answers E step st0" "greets E"
    and "probe_TSAPs req rack slot = Inr (l, r)"
    and "grants step (state_of E step st0 s) (EncodeSetupCommRequest 1 1 1 480) 1 su"
    and "rqStrict req \<Longrightarrow> rqConfirm req \<in> {ConfirmSZL, ConfirmAny}"
    and "rqStrict req \<Longrightarrow> answers_szl step (state_of E step st0 s) 2 SZLModuleID"
  shows "\<exists>c t. probeOne E cx req rack slot s = (Some (Inr c), t) \<and> cdPDUSize c = scPDUSize su \<and>
    cdStatus c = (if rqStrict req then StatusValidQuery else StatusSetupOnly)"
proof -
  let ?p = "w_next s" and ?addr = "JoinHostPort (rqAddress req) (fmt_d (rqPort req))"
  let ?c = "zero_RackSlotCandidate\<lparr>cdRack := rack, cdSlot := slot, cdConfidence := ConfidenceNone\<rparr>"
  let ?s1 = "s\<lparr>w_trace := w_trace s @ [EvDial ?addr],
    w_conns := (w_conns s)(?p := transport_New ?p (rqTimeout req)), w_next := ?p + 1\<rparr>"
  have dial: "dialTransport E cx ?addr (rqTimeout req) s = (Some (Inr ?p), ?s1)"
    using assms(4) by (simp add: dialTransport_def greets_def Let_def)
  have c1: "tConn (w_conns ?s1 ?p) = Some ?p" "conn_wf (w_conns ?s1 ?p)"
    by (simp_all add: transport_New_def conn_wf_def)
  have st1: "state_of E step st0 ?s1 = state_of E step st0 s" by (simp add: state_of_def)
  obtain e2 where s2: "performCOTPConnect E cx ?p l r ?s1 = (Some (Inr ()), grow ?s1 e2)"
    "state_of E step st0 (grow ?s1 e2) = state_of E step st0 s"
    using performCOTPConnect_live [OF c1 assms(2-4), of l r] unfolding st1 by blast
  have c2: "tConn (w_conns (grow ?s1 e2) ?p) = Some ?p" "conn_wf (w_conns (grow ?s1 e2) ?p)" using c1 by simp_all
  obtain e3 where s3: "performS7Setup E cx ?p 1 1 1 480 (grow ?s1 e2) = (Some (Inr su), grow (grow ?s1 e2) e3)"
    "state_of E step st0 (grow (grow ?s1 e2) e3) = state_of E step st0 s"
    using performS7Setup_live [OF c2 assms(2,3) assms(6) [folded s2(2)]] unfolding s2(2) by blast
  let ?s3 = "grow (grow ?s1 e2) e3"
  have c3: "tConn (w_conns ?s3 ?p) = Some ?p" "conn_wf (w_conns ?s3 ?p)" using c1 by simp_all
  have "\<exists>c u. probe_conn E cx req rack slot ?c ?p ?s1 = (Some (Inr c), u) \<and> cdPDUSize c = scPDUSize su \<and>
    cdStatus c = (if rqStrict req then StatusValidQuery else StatusSetupOnly)"
  proof (cases "rqStrict req")
    case False
    then show ?thesis
      using s2(1) s3(1) by (simp add: probe_conn_def assms(5) io_case_def Let_def)
  next
    case True
    obtain e4 where "trySZL E cx ?p 2 SZLModuleID ?s3 = (Some (Inr (True, '''')), grow ?s3 e4)"
      using trySZL_live [OF c3 assms(2,3)] assms(8) [OF True] unfolding s3(2) by fastforce
    then have "runFollowUp E cx ?p 2 (rqConfirm req) ?s3 = (Some (Inr (True, ConfirmSZL, '''')), grow ?s3 e4)"
      using assms(7) [OF True] by (auto simp: runFollowUp_def confirm_defs)
    then show ?thesis
      using True s2(1) s3(1) by (simp add: probe_conn_def assms(5) io_case_def Let_def)
  qed
  then obtain c u where u: "probe_conn E cx req rack slot ?c ?p ?s1 = (Some (Inr c), u)"
    "cdPDUSize c = scPDUSize su" "cdStatus c = (if rqStrict req then StatusValidQuery else StatusSetupOnly)" by blast
  obtain x t where "transport_Close E ?p u = (Some x, t)"
    using transport_Close_total [of E ?p u] by (cases "transport_Close E ?p u") auto
  then have "probeOne E cx req rack slot s = (Some (Inr c), t)"
    using dial u(1) by (simp add: probeOne_def io_case_def io_finally_def Let_def)
  then show ?thesis using u(2,3) by blast
qed

section \<open>Strict mode without a strategy\<close>

lemma applyProbeDefaults_confirm:
  "rqConfirm (applyProbeDefaults req) =
     (if rqStrict req \<and> rqConfirm req = ConfirmNone then ConfirmAny else rqConfirm req)"
  by (cases req) (simp only: applyProbeDefaults_def Let_def RackSlotProbeRequest.simps)

lemma strict_unset_never_valid:
  assumes "rqStrict req0" "rqConfirm req0 = ''''"
    and "probeOne E cx (applyProbeDefaults req0) rack slot s = (Some (Inr c), t)"
  shows "cdStatus c \<noteq> StatusValidQuery"
proof -
  have "rqConfirm (applyProbeDefaults req0) = ''''"
    using assms(1,2) by (simp add: applyProbeDefaults_confirm confirm_defs)
  moreover have "candidate_wf (applyProbeDefaults req0) rack slot c"
    using probeOne_candidate [of "applyProbeDefaults req0" rack slot E cx] assms(3) unfolding yields_def by blast
  then have "cdStatus c = StatusValidQuery \<longrightarrow> rqConfirm (applyProbeDefaults req0) \<in> {ConfirmSZL, ConfirmCPUState, ConfirmAny}"
    unfolding candidate_wf_def by blast
  ultimately show ?thesis by (simp add: confirm_defs)
qed

lemma strict_unset_no_candidate:
  assumes "\<And>i. frames_bounded (Es i)" "\<And>i. heap_wf (ws i)" "rqStrict req0" "rqConfirm req0 = ''''"
    and "ProbeRackSlots rnd Es cxs ws ctxErr sched req0 = Some (Inr (res, err))"
  shows "psValid res = [] \<and> psConfirmedByQuery res = 0"
proof -
  define req where "req = applyProbeDefaults req0"
  have req: "rqStrict req" "rqConfirm req = ''''"
    using assms(3,4) by (simp_all add: req_def applyProbeDefaults_confirm confirm_defs) (simp add: applyProbeDefaults_def Let_def)
  note entries = ProbeRackSlots_entries [OF assms(5,1,2) req_def]
  then obtain k where all_entries: "\<forall>i<length (probe_jobs req). if i < k
      then probe_work (Es i) (cxs i) req (probe_jobs req ! i) (ws i) = Some (psCandidates res ! i) \<and>
           candidate_wf req (rsRack (probe_jobs req ! i)) (rsSlot (probe_jobs req ! i)) (psCandidates res ! i)
      else psCandidates res ! i = zero_RackSlotCandidate" by blast
  have none: "cdStatus c \<noteq> StatusValidQuery" if c: "c \<in> set (psCandidates res)" for c
  proof -
    have "length (psCandidates res) = length (probe_jobs req)" using entries by blast
    then obtain i where i: "i < length (probe_jobs req)" "c = psCandidates res ! i"
      using c by (metis in_set_conv_nth)
    then have "candidate_wf req (rsRack (probe_jobs req ! i)) (rsSlot (probe_jobs req ! i)) c \<or> c = zero_RackSlotCandidate"
      using all_entries [rule_format, OF i(1)] unfolding i(2) by presburger
    then show ?thesis using req(2) by (auto simp: candidate_wf_def zero_RackSlotCandidate_def confirm_defs StatusValidQuery_def)
  qed
  have "psValid res = filter (\<lambda>c. if rqStrict req then cdStatus c = StatusValidQuery else setup_accepted c) (psCandidates res)"
    using entries by blast
  then have "psValid res = []" using none req(1) by (simp add: filter_empty_conv)
  moreover have "int (length (psValid res)) = (if rqStrict req then psConfirmedByQuery res else psSetupAccepted res)"
    using entries by blast
  ultimately show ?thesis using req(1) by simp
qed

end
