(* ===== verification/Cidr.thy ===== *)
theory Cidr
  imports Transport
begin

text \<open>
  The addresses of a CIDR block (\<open>client/discover.go\<close>: \<open>streamCIDR\<close>, \<open>expandCIDR\<close>,
  \<open>incIP\<close>), with what they use of Go's package \<open>net\<close>: \<open>ParseCIDR\<close>, \<open>IPMask.Size\<close>,
  \<open>IP.Mask\<close>, \<open>IP.To4\<close>, \<open>IPNet.Contains\<close>, \<open>IP.String\<close>.  An IP is its bytes.  The text
  form of IPv6 addresses only decides which error an IPv6 block gets, so its parser and printer are
  the parameter \<open>ip6_lib\<close>.

  The lemmas show that a block of at most 20 host bits is streamed as its host addresses in
  ascending order, that \<open>expandCIDR\<close> gives the same list, and that it does not end on \<open>/0\<close>.
\<close>

section \<open>Package net\<close>

record ip6_lib =
  parse6 :: "string \<Rightarrow> bytes option" \<comment> \<open>16 bytes, without a zone\<close>
  string6 :: "bytes \<Rightarrow> string"

record IPNet =
  inIP :: bytes
  inMask :: bytes

definition is_digit :: "char \<Rightarrow> bool" where
  "is_digit c \<longleftrightarrow> c \<in> set ''0123456789''"

definition digit_val :: "char \<Rightarrow> nat" where
  "digit_val c = nat (uint (of_char c - 48 :: byte))"

fun ipv4_fields :: "string \<Rightarrow> nat \<Rightarrow> nat \<Rightarrow> bytes \<Rightarrow> bytes option" where
  \<comment> \<open>\<open>netip.parseIPv4Fields\<close>: the value and the number of digits of the current octet, the
     octets before it; a dot at the start, at the end or after a dot is refused\<close>
  "ipv4_fields [] val digLen octets = (if length octets < 3 then None else Some (octets @ [of_nat val]))"
| "ipv4_fields (c # cs) val digLen octets =
     (if is_digit c then
        if digLen = 1 \<and> val = 0 then None
        else let val = val * 10 + digit_val c
             in if val > 255 then None else ipv4_fields cs val (digLen + 1) octets
      else if c = CHR ''.'' then
        if digLen = 0 \<or> cs = [] then None
        else if length octets = 3 then None
        else ipv4_fields cs 0 0 (octets @ [of_nat val])
      else None)"

definition ParseAddr :: "ip6_lib \<Rightarrow> string \<Rightarrow> bytes option" where
  "ParseAddr L s =
     (case find (\<lambda>c. c \<in> {CHR ''.'', CHR '':'', CHR ''%''}) s of
        None \<Rightarrow> None
      | Some c \<Rightarrow>
          if c = CHR ''.'' then ipv4_fields s 0 0 []
          else if c = CHR '':'' then parse6 L s
          else None)"

fun dtoi :: "string \<Rightarrow> nat \<Rightarrow> nat option" where
  \<comment> \<open>the digits to the end of the string\<close>
  "dtoi [] n = Some n"
| "dtoi (c # cs) n =
     (if is_digit c then
        let n = n * 10 + digit_val c in if n \<ge> 0xFFFFFF then None else dtoi cs n
      else None)"

definition CIDRMask :: "nat \<Rightarrow> nat \<Rightarrow> bytes" where
  "CIDRMask ones bits =
     map (\<lambda>i. if 8 * (i + 1) \<le> ones then 0xFF
              else if ones \<le> 8 * i then 0
              else NOT (drop_bit (ones - 8 * i) 0xFF)) [0..<bits div 8]"

definition v4InV6Prefix :: bytes where
  "v4InV6Prefix = replicate 10 0 @ [0xFF, 0xFF]"

definition To4 :: "bytes \<Rightarrow> bytes option" where
  "To4 ip =
     (if length ip = 4 then Some ip
      else if length ip = 16 \<and> take 12 ip = v4InV6Prefix then Some (drop 12 ip)
      else None)"

definition IP_Mask :: "bytes \<Rightarrow> bytes \<Rightarrow> bytes" where
  \<comment> \<open>for the masks of \<open>ParseCIDR\<close>: as long as the address, or 4 bytes on an IPv4 address\<close>
  "IP_Mask ip mask' =
     (let ip = (if length mask' = 4 \<and> length ip = 16 \<and> take 12 ip = v4InV6Prefix then drop 12 ip else ip)
      in if length ip \<noteq> length mask' then [] else map2 (AND) ip mask')"

definition Cut :: "char \<Rightarrow> string \<Rightarrow> (string \<times> string) option" where
  "Cut sep s =
     (if sep \<in> set s then Some (takeWhile (\<lambda>c. c \<noteq> sep) s, tl (dropWhile (\<lambda>c. c \<noteq> sep) s)) else None)"

definition ParseCIDR :: "ip6_lib \<Rightarrow> string \<Rightarrow> goerr + IPNet" where
  "ParseCIDR L s =
     (let err = Inl (ErrorText (''invalid CIDR address: '' @ s)) in
      case Cut (CHR ''/'') s of
        None \<Rightarrow> err
      | Some (addr, mask') \<Rightarrow>
          (case ParseAddr L addr of
             None \<Rightarrow> err
           | Some ip \<Rightarrow>
               (case (if mask' = [] then None else dtoi mask' 0) of
                  None \<Rightarrow> err
                | Some n \<Rightarrow>
                    if n > 8 * length ip then err
                    else let m = CIDRMask n (8 * length ip)
                         in Inr \<lparr>inIP = IP_Mask ip m, inMask = m\<rparr>)))"

fun byte_ones :: "nat \<Rightarrow> byte \<Rightarrow> nat \<times> byte" where
  \<comment> \<open>\<open>for v&0x80 != 0 { n++; v <<= 1 }\<close>, at most 8 rounds\<close>
  "byte_ones 0 v = (0, v)"
| "byte_ones (Suc k) v =
     (if v AND 0x80 \<noteq> 0 then (case byte_ones k (push_bit 1 v) of (n, w) \<Rightarrow> (n + 1, w)) else (0, v))"

fun simpleMaskLength :: "bytes \<Rightarrow> nat option" where
  \<comment> \<open>\<open>None\<close> for -1\<close>
  "simpleMaskLength [] = Some 0"
| "simpleMaskLength (v # vs) =
     (if v = 0xFF then map_option (\<lambda>n. n + 8) (simpleMaskLength vs)
      else case byte_ones 8 v of (n, w) \<Rightarrow> if w \<noteq> 0 \<or> \<not> list_all (\<lambda>b. b = 0) vs then None else Some n)"

definition IPMask_Size :: "bytes \<Rightarrow> nat \<times> nat" where
  "IPMask_Size m = (case simpleMaskLength m of None \<Rightarrow> (0, 0) | Some n \<Rightarrow> (n, 8 * length m))"

definition Contains :: "IPNet \<Rightarrow> bytes \<Rightarrow> bool" where
  "Contains n ip =
     (let nn = (case To4 (inIP n) of Some x \<Rightarrow> x | None \<Rightarrow> inIP n);
          m = (if length (inMask n) = 16 \<and> length nn = 4 then drop 12 (inMask n) else inMask n);
          ip = (case To4 ip of Some x \<Rightarrow> x | None \<Rightarrow> ip)
      in length m = length nn \<and> length ip = length nn \<and> map2 (AND) nn m = map2 (AND) ip m)"

definition IP_String :: "ip6_lib \<Rightarrow> bytes \<Rightarrow> string" where
  "IP_String L ip =
     (case To4 ip of
        Some p4 \<Rightarrow> fmt_d (uint (p4 ! 0)) @ ''.'' @ fmt_d (uint (p4 ! 1)) @ ''.'' @
                   fmt_d (uint (p4 ! 2)) @ ''.'' @ fmt_d (uint (p4 ! 3))
      | None \<Rightarrow> string6 L ip)"

section \<open>Addresses of a block\<close>

fun inc_from :: "bytes \<Rightarrow> bytes" where
  \<comment> \<open>the loop of \<open>incIP\<close> on the bytes from the last to the first\<close>
  "inc_from [] = []"
| "inc_from (b # bs) = (if b + 1 > 0 then (b + 1) # bs else (b + 1) # inc_from bs)"

definition incIP :: "bytes \<Rightarrow> bytes" where
  "incIP ip = rev (inc_from (rev ip))"

definition maxDiscoveryHostBits :: nat where "maxDiscoveryHostBits = 20"

fun cidr_loop ::
    "(bytes \<Rightarrow> 'a \<Rightarrow> bool \<times> 'a) \<Rightarrow> nat \<Rightarrow> bool \<Rightarrow> nat \<Rightarrow> nat \<Rightarrow> bytes \<Rightarrow> 'a \<Rightarrow> bool \<times> 'a" where
  \<comment> \<open>rounds left, the index, the address and the state of \<open>send\<close>; \<open>False\<close> when it stopped the loop\<close>
  "cidr_loop send total' skipEnds 0 i ip a = (True, a)"
| "cidr_loop send total' skipEnds (Suc n) i ip a =
     (if skipEnds \<and> (i = 0 \<or> i = total' - 1) then
        cidr_loop send total' skipEnds n (i + 1) (if i = 0 then incIP ip else ip) a
      else case send ip a of
             (False, a) \<Rightarrow> (False, a)
           | (True, a) \<Rightarrow> cidr_loop send total' skipEnds n (i + 1) (incIP ip) a)"

definition check_block :: "ip6_lib \<Rightarrow> string \<Rightarrow> goerr + IPNet \<times> nat" where
  \<comment> \<open>the checks of \<open>streamCIDR\<close>; the block and its number of host bits\<close>
  "check_block L cidr =
     (case ParseCIDR L cidr of
        Inl err \<Rightarrow> Inl (ValidationError (err_text err))
      | Inr ipnet \<Rightarrow>
          if To4 (inIP ipnet) = None then
            Inl (ValidationError (''discovery is IPv4-only; got IPv6 CIDR '' @ cidr))
          else case IPMask_Size (inMask ipnet) of
                 (ones, bits) \<Rightarrow>
                   if bits \<noteq> 32 then
                     Inl (ValidationError (''expected IPv4 mask, got '' @ fmt_d (int bits) @ '' bits''))
                   else if bits - ones > maxDiscoveryHostBits then
                     Inl (ValidationError (''CIDR too large for discovery (max /'' @
                       fmt_d (int (32 - maxDiscoveryHostBits)) @ ''): '' @ cidr))
                   else Inr (ipnet, bits - ones))"

definition streamCIDR ::
    "ip6_lib \<Rightarrow> goerr option \<Rightarrow> string \<Rightarrow> (string \<Rightarrow> 'a \<Rightarrow> bool \<times> 'a) \<Rightarrow> 'a \<Rightarrow> goerr option \<times> 'a" where
  \<comment> \<open>\<open>ctxErr\<close> is \<open>ctx.Err()\<close> after \<open>send\<close> returned false\<close>
  "streamCIDR L ctxErr cidr send a =
     (case check_block L cidr of
        Inl err \<Rightarrow> (Some err, a)
      | Inr (ipnet, hostBits) \<Rightarrow>
          let total' = 2 ^ hostBits;
              ip = IP_Mask (inIP ipnet) (inMask ipnet)
          in case cidr_loop (\<lambda>ip. send (IP_String L ip)) total' (total' > 2) total' 0 ip a of
               (True, a) \<Rightarrow> (None, a)
             | (False, a) \<Rightarrow> (ctxErr, a))"

partial_function (option) expand_loop :: "ip6_lib \<Rightarrow> IPNet \<Rightarrow> bytes \<Rightarrow> string list \<Rightarrow> string list option" where
  "expand_loop L ipnet ip ips =
     (if Contains ipnet ip then expand_loop L ipnet (incIP ip) (ips @ [IP_String L ip]) else Some ips)"

definition expandCIDR :: "ip6_lib \<Rightarrow> string \<Rightarrow> (goerr + string list) option" where
  \<comment> \<open>\<open>None\<close>: the loop does not end\<close>
  "expandCIDR L cidr =
     (case ParseCIDR L cidr of
        Inl err \<Rightarrow> Some (Inl (ValidationError (err_text err)))
      | Inr ipnet \<Rightarrow>
          if To4 (inIP ipnet) = None then
            Some (Inl (ValidationError (''discovery is IPv4-only; got IPv6 CIDR '' @ cidr)))
          else map_option (\<lambda>ips. Inr (if length ips > 2 then butlast (tl ips) else ips))
                 (expand_loop L ipnet (IP_Mask (inIP ipnet) (inMask ipnet)) []))"

section \<open>Addresses as numbers\<close>

fun le_num :: "bytes \<Rightarrow> nat" where
  \<comment> \<open>the number of the bytes from the last to the first\<close>
  "le_num [] = 0"
| "le_num (b # bs) = unat b + 256 * le_num bs"

lemma le_num_less: "le_num bs < 256 ^ length bs"
proof (induction bs)
  case (Cons b bs)
  have "unat b < 256" by (rule unat_byte_lt)
  then show ?case using Cons by simp
qed simp

lemma le_num_inj: "length xs = length ys \<Longrightarrow> le_num xs = le_num ys \<Longrightarrow> xs = ys"
proof (induction xs ys rule: list_induct2)
  case (Cons x xs y ys)
  have "unat x < 256" "unat y < 256" by (rule unat_byte_lt)+
  then have "le_num (x # xs) mod 256 = unat x" "le_num (x # xs) div 256 = le_num xs"
    "le_num (y # ys) mod 256 = unat y" "le_num (y # ys) div 256 = le_num ys" by simp_all
  then have "unat x = unat y" "le_num xs = le_num ys" using Cons.prems by metis+
  then show ?case using Cons.IH by (simp add: unsigned_word_eqI)
qed simp

lemma length_inc_from [simp]: "length (inc_from bs) = length bs"
  by (induction bs) auto

lemma length_incIP [simp]: "length (incIP ip) = length ip"
  by (simp add: incIP_def)

lemma le_num_inc: "le_num (inc_from bs) = (le_num bs + 1) mod 256 ^ length bs"
proof (induction bs)
  case (Cons b bs)
  have b: "unat b < 256" by (rule unat_byte_lt)
  show ?case
  proof (cases "b + 1 = 0")
    case True
    then have "unat b = 255" by (simp add: eq_neg_iff_add_eq_0 [symmetric] unsigned_minus_1_eq_mask mask_eq_exp_minus_1)
    then show ?thesis using True Cons by (simp add: mult_mod_right)
  next
    case False
    then have "unat (b + 1) = unat b + 1" by (metis Suc_eq_plus1 add.commute unatSuc)
    moreover have "unat b + 1 < 256" using calculation unat_byte_lt [of "b + 1"] by simp
    moreover have "le_num bs + 1 \<le> 256 ^ length bs" using le_num_less [of bs] by simp
    then have "256 * le_num bs + 256 \<le> 256 * 256 ^ length bs" by simp
    ultimately show ?thesis using False by (simp add: word_gt_0)
  qed
qed simp

lemma le_num_put32: "le_num (rev (put32 w)) = unat w"
proof -
  define n m k where "n = unat w" and "m = n div 256" and "k = m div 256"
  have "n < 2 ^ LENGTH(32)" unfolding n_def by (rule unsigned_less)
  then have "k div 256 < 256" by (simp add: k_def m_def)
  then have "k div 256 mod 256 = k div 256" by simp
  moreover have "n = 256 * m + n mod 256" "m = 256 * k + m mod 256" "k = 256 * (k div 256) + k mod 256"
    by (simp_all add: m_def k_def)
  moreover have "le_num (rev (put32 w)) =
      n mod 256 + 256 * (m mod 256) + 65536 * (k mod 256) + 16777216 * (k div 256 mod 256)"
    by (simp add: put32_def unat_drop_bit_eq unsigned_ucast_eq take_bit_eq_mod drop_bit_eq_div unat_div_distrib
        n_def m_def k_def div_mult2_eq [symmetric])
  ultimately show ?thesis unfolding n_def [symmetric] by linarith
qed

lemma incIP_put32 [simp]: "incIP (put32 w) = put32 (w + 1)"
proof -
  have "le_num (rev (incIP (put32 w))) = (unat w + 1) mod 2 ^ LENGTH(32)"
    by (simp add: incIP_def le_num_inc le_num_put32)
  also have "\<dots> = unat (w + 1)" by (simp add: unat_word_ariths)
  also have "\<dots> = le_num (rev (put32 (w + 1)))" by (simp add: le_num_put32)
  finally have "rev (incIP (put32 w)) = rev (put32 (w + 1))" by (intro le_num_inj) simp_all
  then show ?thesis by (simp only: rev_is_rev_conv)
qed

lemma put32_inj [simp]: "put32 v = put32 w \<longleftrightarrow> v = w"
  by (metis le_num_put32 unsigned_word_eqI)

lemma map2_put32: "map2 (AND) (put32 v) (put32 w) = put32 (v AND w)"
  by (simp add: put32_def unsigned_and_eq)

lemma four_bytes: "length ip = 4 \<Longrightarrow> \<exists>w. ip = put32 w"
proof -
  assume "length ip = 4"
  then obtain a b c d where "ip = [a, b, c, d]" by (auto simp: eval_nat_numeral length_Suc_conv)
  then show ?thesis by (metis put32_be32)
qed

section \<open>Masks\<close>

definition net_mask :: "nat \<Rightarrow> uint32" where
  \<comment> \<open>the mask of a block with \<open>h\<close> host bits\<close>
  "net_mask h = NOT (mask h)"

lemma CIDRMask_32:
  assumes "n \<le> 32"
  shows "CIDRMask n 32 = put32 (net_mask (32 - n))" "IPMask_Size (put32 (net_mask (32 - n))) = (n, 32)"
proof -
  have "\<forall>n\<in>set [0..<33]. CIDRMask n 32 = put32 (net_mask (32 - n)) \<and> IPMask_Size (put32 (net_mask (32 - n))) = (n, 32)"
    by code_simp
  then show "CIDRMask n 32 = put32 (net_mask (32 - n))" "IPMask_Size (put32 (net_mask (32 - n))) = (n, 32)"
    using assms by simp_all
qed

lemma IP_Mask_put32 [simp]: "IP_Mask (put32 w) (put32 m) = put32 (w AND m)"
  by (simp add: IP_Mask_def map2_put32)

lemma To4_put32 [simp]: "To4 (put32 w) = Some (put32 w)"
  by (simp add: To4_def)

lemma host_in_block:
  assumes "base AND net_mask h = base" "k < 2 ^ h" "h \<le> 32"
  shows "(base + of_nat k) AND net_mask h = base"
proof -
  have k: "of_nat k AND mask h = (of_nat k :: uint32)"
    using assms(2) by (simp add: take_bit_eq_mask [symmetric] take_bit_of_nat take_bit_nat_eq_self)
  have "base AND mask h = (base AND net_mask h) AND mask h" using assms(1) by simp
  also have "\<dots> = 0" by (simp add: net_mask_def and.assoc)
  finally have b: "base AND mask h = 0" .
  have "base AND of_nat k = base AND (of_nat k AND mask h)" by (simp only: k)
  also have "\<dots> = (base AND mask h) AND of_nat k" by (simp add: ac_simps)
  finally have "base + of_nat k = base OR of_nat k" using b by (simp add: disjunctive_add_eq_or)
  moreover have "of_nat k AND net_mask h = (of_nat k AND mask h) AND net_mask h" by (simp only: k)
  then have "of_nat k AND net_mask h = 0" by (simp add: net_mask_def and.assoc)
  ultimately show ?thesis using assms(1) by (simp add: bit.conj_disj_distrib2)
qed

lemma past_block:
  assumes "base AND net_mask h = base" "h < 32"
  shows "(base + 2 ^ h) AND net_mask h \<noteq> base"
proof -
  have "v AND net_mask h = push_bit h (drop_bit h v)" for v :: uint32
    by (rule bit_word_eqI) (auto simp: net_mask_def bit_simps)
  then have "base + 2 ^ h = push_bit h (drop_bit h base + 1)"
    using assms(1) by (simp add: push_bit_add push_bit_of_1)
  moreover have "push_bit h x AND net_mask h = push_bit h x" for x :: uint32
    by (rule bit_word_eqI) (auto simp: net_mask_def bit_simps)
  moreover have "(2 ^ h :: uint32) \<noteq> 0" using assms(2) by simp
  ultimately show ?thesis by (metis add_cancel_left_right)
qed

section \<open>Streaming a block\<close>

definition block_hosts :: "ip6_lib \<Rightarrow> uint32 \<Rightarrow> nat \<Rightarrow> string list" where
  \<comment> \<open>the specification: the addresses of the block at \<open>base\<close> with \<open>h\<close> host bits, without the
     network and the broadcast address when there are more than two\<close>
  "block_hosts L base h =
     map (\<lambda>k. IP_String L (put32 (base + of_nat k))) (if h < 2 then [0..<2 ^ h] else [1..<2 ^ h - 1])"

fun send_all :: "('x \<Rightarrow> 'a \<Rightarrow> bool \<times> 'a) \<Rightarrow> 'x list \<Rightarrow> 'a \<Rightarrow> bool \<times> 'a" where
  \<comment> \<open>the specification: call \<open>send\<close> on the elements in order until it returns false\<close>
  "send_all send [] a = (True, a)"
| "send_all send (x # xs) a = (case send x a of (False, a) \<Rightarrow> (False, a) | (True, a) \<Rightarrow> send_all send xs a)"

lemma send_all_map: "send_all send (map f xs) a = send_all (\<lambda>x. send (f x)) xs a"
  by (induction xs arbitrary: a) (auto split: prod.splits bool.splits)

lemma cidr_loop_inner:
  assumes "n + i = (if skip then t - 1 else t)" "skip \<Longrightarrow> 0 < i" "skip \<Longrightarrow> 0 < t" "m = (if skip then n + 1 else n)"
  shows "cidr_loop send t skip m i (put32 (base + of_nat i)) a =
    send_all send (map (\<lambda>k. put32 (base + of_nat k)) [i..<i + n]) a"
  using assms
proof (induction n arbitrary: i m a)
  case 0
  then show ?case by (auto simp: numeral_eq_Suc)
next
  case (Suc n)
  obtain m' where m: "m = Suc m'" "m' = (if skip then n + 1 else n)" using Suc.prems(4) by auto
  have "\<not> (skip \<and> (i = 0 \<or> i = t - 1))" using Suc.prems(1-3) by (auto split: if_splits)
  then have step: "cidr_loop send t skip m i ip a =
      (case send ip a of (False, a) \<Rightarrow> (False, a) | (True, a) \<Rightarrow> cidr_loop send t skip m' (i + 1) (incIP ip) a)"
    for ip a unfolding m(1) by (simp only: cidr_loop.simps(2) if_False)
  have "cidr_loop send t skip m' (Suc i) (put32 (base + of_nat (Suc i))) b =
      send_all send (map (\<lambda>k. put32 (base + of_nat k)) [Suc i..<Suc i + n]) b" for b
    by (rule Suc.IH) (use Suc.prems m in auto)
  moreover have "Suc i = i + 1" "put32 (base + of_nat (Suc i)) = incIP (put32 (base + of_nat i))"
    by (simp_all add: ac_simps)
  ultimately have rest: "cidr_loop send t skip m' (i + 1) (incIP (put32 (base + of_nat i))) b =
      send_all send (map (\<lambda>k. put32 (base + of_nat k)) [Suc i..<Suc i + n]) b" for b
    by (simp only:)
  have upt: "[i..<i + Suc n] = i # [Suc i..<Suc i + n]" by (simp add: upt_conv_Cons del: upt_Suc)
  show ?case unfolding step rest upt by (simp only: list.map send_all.simps)
qed

lemma cidr_loop_block:
  "cidr_loop send (2 ^ h) (2 ^ h > (2 :: nat)) (2 ^ h) 0 (put32 base) a =
     send_all send (map (\<lambda>k. put32 (base + of_nat k)) (if h < 2 then [0..<2 ^ h] else [1..<2 ^ h - 1])) a"
proof (cases "h < 2")
  case True
  then have "\<not> (2 ^ h > (2 :: nat))" by (cases h) auto
  then show ?thesis
    using True cidr_loop_inner [of "2 ^ h" 0 False "2 ^ h" "2 ^ h" send base a] by simp
next
  case False
  then have "(2 :: nat) ^ 2 \<le> 2 ^ h" by (intro power_increasing) auto
  then have "(2 :: nat) ^ h = Suc (2 ^ h - 3 + 2)" by simp
  then obtain m where m: "(2 :: nat) ^ h = Suc (m + 2)" by blast
  then show ?thesis
    using False cidr_loop_inner [of "m + 1" 1 True "2 ^ h" "m + 2" send base a] by simp
qed

lemma ParseCIDR_block:
  assumes "ParseCIDR L cidr = Inr blk" "length (inMask blk) = 4"
  obtains w n where "n \<le> 32" "blk = \<lparr>inIP = put32 (w AND net_mask (32 - n)), inMask = put32 (net_mask (32 - n))\<rparr>"
proof -
  obtain ip n where blk: "n \<le> 8 * length ip" "blk = \<lparr>inIP = IP_Mask ip (CIDRMask n (8 * length ip)), inMask = CIDRMask n (8 * length ip)\<rparr>"
    using assms(1) by (force simp: ParseCIDR_def Let_def not_less split: option.splits prod.splits if_splits)
  then have ip: "length ip = 4" using assms(2) by (simp add: CIDRMask_def)
  then obtain w where "ip = put32 w" using four_bytes by blast
  then show ?thesis using that [of n w] blk ip by (simp add: CIDRMask_32)
qed

text \<open>An accepted block, with its first address and its host bits, and what is sent for it.\<close>

lemma check_block_ok:
  assumes "check_block L cidr = Inr (blk, h)"
  obtains base where "h \<le> 20" "base AND net_mask h = base"
    "blk = \<lparr>inIP = put32 base, inMask = put32 (net_mask h)\<rparr>" "ParseCIDR L cidr = Inr blk"
proof -
  obtain ones where p: "ParseCIDR L cidr = Inr blk" "IPMask_Size (inMask blk) = (ones, 32)" "h = 32 - ones" "h \<le> 20"
    using assms by (auto simp: check_block_def maxDiscoveryHostBits_def split: sum.splits if_splits prod.splits)
  then have "length (inMask blk) = 4" by (auto simp: IPMask_Size_def split: option.splits)
  from ParseCIDR_block [OF p(1) this] obtain w n
    where n: "n \<le> 32" "blk = \<lparr>inIP = put32 (w AND net_mask (32 - n)), inMask = put32 (net_mask (32 - n))\<rparr>" .
  then have "h = 32 - n" using p(2,3) CIDRMask_32(2) [OF n(1)] by simp
  then show ?thesis using that [of "w AND net_mask h"] p n by (simp add: and.assoc)
qed

lemma streamCIDR_block:
  assumes "check_block L cidr = Inr (blk, h)"
  shows "streamCIDR L ctxErr cidr send a =
    (case send_all send (block_hosts L (be32 (inIP blk ! 0) (inIP blk ! 1) (inIP blk ! 2) (inIP blk ! 3)) h) a of
       (True, a) \<Rightarrow> (None, a) | (False, a) \<Rightarrow> (ctxErr, a))"
proof -
  obtain base where b: "base AND net_mask h = base" "blk = \<lparr>inIP = put32 base, inMask = put32 (net_mask h)\<rparr>"
    by (rule check_block_ok [OF assms])
  then have "be32 (inIP blk ! 0) (inIP blk ! 1) (inIP blk ! 2) (inIP blk ! 3) = base"
    by (simp add: put32_def)
  then show ?thesis
    using assms b by (simp add: streamCIDR_def Let_def cidr_loop_block block_hosts_def send_all_map)
qed

section \<open>Expanding a block\<close>

lemma Contains_put32:
  "Contains \<lparr>inIP = put32 base, inMask = put32 m\<rparr> (put32 w) \<longleftrightarrow> base AND m = w AND m"
  by (simp add: Contains_def Let_def map2_put32)

lemma expand_loop_block:
  assumes "base AND net_mask h = base" "h < 32" "k \<le> 2 ^ h"
  shows "expand_loop L \<lparr>inIP = put32 base, inMask = put32 (net_mask h)\<rparr> (put32 (base + of_nat k)) acc =
    Some (acc @ map (\<lambda>k. IP_String L (put32 (base + of_nat k))) [k..<2 ^ h])"
  using assms(3)
proof (induction "2 ^ h - k" arbitrary: k acc)
  case 0
  then have "k = 2 ^ h" by simp
  then show ?case using past_block [OF assms(1,2)] assms(1)
    by (subst expand_loop.simps) (auto simp: Contains_put32)
next
  case (Suc n)
  then have "Contains \<lparr>inIP = put32 base, inMask = put32 (net_mask h)\<rparr> (put32 (base + of_nat k))"
    using host_in_block [OF assms(1), of k] assms by (simp add: Contains_put32)
  moreover have next_address: "base + of_nat k + 1 = base + of_nat (Suc k)" by simp
  have "n = 2 ^ h - Suc k" "Suc k \<le> 2 ^ h" using Suc.hyps(2) by simp_all
  then have "expand_loop L \<lparr>inIP = put32 base, inMask = put32 (net_mask h)\<rparr> (put32 (base + of_nat k + 1)) acc' =
      Some (acc' @ map (\<lambda>k. IP_String L (put32 (base + of_nat k))) [Suc k..<2 ^ h])" for acc'
    using Suc.hyps(1) [of "Suc k" acc'] by (simp only: next_address)
  moreover have "[k..<2 ^ h] = k # [Suc k..<2 ^ h]" using Suc.hyps(2) by (simp add: upt_conv_Cons)
  ultimately show ?case by (subst expand_loop.simps) simp
qed

lemma expandCIDR_block:
  assumes "ParseCIDR L cidr = Inr \<lparr>inIP = put32 base, inMask = put32 (net_mask h)\<rparr>" "base AND net_mask h = base" "h < 32"
  shows "expandCIDR L cidr = Some (Inr (block_hosts L base h))"
proof -
  let ?all = "map (\<lambda>k. IP_String L (put32 (base + of_nat k))) [0..<2 ^ h]"
  have "expand_loop L \<lparr>inIP = put32 base, inMask = put32 (net_mask h)\<rparr> (put32 base) [] = Some ?all"
    using expand_loop_block [OF assms(2,3), of 0 L "[]"] by simp
  moreover have "(if length ?all > 2 then butlast (tl ?all) else ?all) = block_hosts L base h"
  proof (cases "h < 2")
    case True
    then have "h = 0 \<or> h = 1" by auto
    then show ?thesis by (auto simp: block_hosts_def)
  next
    case False
    then have "(2 :: nat) ^ 2 \<le> 2 ^ h" by (intro power_increasing) auto
    then have "2 ^ h > (2 :: nat)" "2 ^ h = Suc (2 ^ h - 1 :: nat)" by simp_all
    then have "butlast [Suc 0..<2 ^ h] = [Suc 0..<2 ^ h - 1]" by (metis Suc_lessD butlast_snoc numeral_2_eq_2 upt_Suc_append Suc_less_eq less_imp_le)
    then show ?thesis using False \<open>2 ^ h > (2 :: nat)\<close>
      by (simp add: block_hosts_def map_tl [symmetric] map_butlast [symmetric])
  qed
  ultimately show ?thesis using assms by (simp add: expandCIDR_def)
qed

lemma expand_loop_diverges:
  assumes "\<And>ip. length ip = 4 \<Longrightarrow> Contains blk ip" "length ip = 4"
  shows "expand_loop L blk ip acc = None"
proof -
  have "blk' = blk \<longrightarrow> length ip \<noteq> 4" if "expand_loop L blk' ip acc = Some r" for L blk' ip acc r
    by (rule expand_loop.raw_induct [OF _ that, of "\<lambda>L blk' ip acc r. blk' = blk \<longrightarrow> length ip \<noteq> 4"])
      (use assms(1) in \<open>fastforce split: if_splits\<close>)
  then show ?thesis using assms(2) by (cases "expand_loop L blk ip acc") blast+
qed

lemma expandCIDR_diverges:
  assumes "ParseCIDR L cidr = Inr \<lparr>inIP = put32 0, inMask = put32 (net_mask 32)\<rparr>"
  shows "expandCIDR L cidr = None"
proof -
  have all: "net_mask 32 = 0" by (simp add: net_mask_def mask_eq_exp_minus_1)
  have "expand_loop L \<lparr>inIP = put32 0, inMask = put32 (net_mask 32)\<rparr> (put32 0) [] = None"
    by (rule expand_loop_diverges) (auto simp: Contains_put32 all dest!: four_bytes)
  then show ?thesis using assms by (simp add: expandCIDR_def)
qed

section \<open>Text of a block\<close>

fun scan_octet :: "string \<Rightarrow> nat \<Rightarrow> nat \<Rightarrow> (nat \<times> nat) option" where
  \<comment> \<open>\<open>ipv4_fields\<close> on the digits of one octet\<close>
  "scan_octet [] val digLen = Some (val, digLen)"
| "scan_octet (c # cs) val digLen =
     (if is_digit c \<and> \<not> (digLen = 1 \<and> val = 0) \<and> val * 10 + digit_val c \<le> 255
      then scan_octet cs (val * 10 + digit_val c) (digLen + 1) else None)"

lemma ipv4_fields_scan:
  "scan_octet ds val digLen = Some (val', digLen') \<Longrightarrow>
     ipv4_fields (ds @ rest) val digLen octets = ipv4_fields rest val' digLen' octets"
  by (induction ds arbitrary: val digLen) (auto split: if_splits)

lemma hex_digit_digit: "k < 10 \<Longrightarrow> is_digit (hex_digit k) \<and> digit_val (hex_digit k) = k"
proof -
  assume "k < 10"
  moreover have "\<forall>k\<in>set [0..<10]. is_digit (hex_digit k) \<and> digit_val (hex_digit k) = k" by code_simp
  ultimately show ?thesis by simp
qed

lemma dec_digits_small:
  "n < 10 \<Longrightarrow> dec_digits n = [hex_digit n]"
  "10 \<le> n \<Longrightarrow> n < 100 \<Longrightarrow> dec_digits n = [hex_digit (n div 10), hex_digit (n mod 10)]"
  "100 \<le> n \<Longrightarrow> n < 1000 \<Longrightarrow>
     dec_digits n = [hex_digit (n div 100), hex_digit (n div 10 mod 10), hex_digit (n mod 10)]"
proof -
  assume "100 \<le> n" "n < 1000"
  then have "n div 100 < 10" "10 \<le> n div 10" by (simp_all add: less_mult_imp_div_less less_eq_div_iff_mult_less_eq)
  then show "dec_digits n = [hex_digit (n div 100), hex_digit (n div 10 mod 10), hex_digit (n mod 10)]"
    using \<open>100 \<le> n\<close>
    by (simp add: dec_digits.simps [of n] dec_digits.simps [of "n div 10"] dec_digits.simps [of "n div 100"]
        div_mult2_eq [symmetric])
qed (simp_all add: dec_digits.simps [of n] dec_digits.simps [of "n div 10"] less_mult_imp_div_less)

lemma scan_octet_byte: "\<exists>l>0. scan_octet (fmt_d (uint (b :: byte))) 0 0 = Some (unat b, l)"
proof -
  define n where "n = unat b"
  have n: "n < 256" unfolding n_def by (rule unat_byte_lt)
  have fmt: "fmt_d (uint b) = dec_digits n" by (simp add: fmt_d_def n_def)
  consider "n < 10" | "10 \<le> n" "n < 100" | "100 \<le> n" by linarith
  then have "\<exists>l>0. scan_octet (dec_digits n) 0 0 = Some (n, l)"
  proof cases
    case 1
    then show ?thesis by (simp add: dec_digits_small hex_digit_digit)
  next
    case 2
    then have "n div 10 < 10" "0 < n div 10" by simp_all
    then show ?thesis using 2 by (simp add: dec_digits_small hex_digit_digit)
  next
    case 3
    have "n div 100 < 10" "0 < n div 100" using n 3 by simp_all
    moreover have "(n div 100) * 10 + n div 10 mod 10 = n div 10"
      using div_mult_mod_eq [of "n div 10" 10] by (simp only: div_mult2_eq [symmetric]) simp
    moreover have "n div 10 * 10 + n mod 10 = n" by (rule div_mult_mod_eq)
    moreover have "n div 10 \<le> 255" using n by simp
    ultimately show ?thesis using n 3 by (simp add: dec_digits_small hex_digit_digit)
  qed
  then show ?thesis unfolding fmt n_def .
qed

lemma IP_String_put32:
  "IP_String L (put32 (be32 a b c d)) =
     fmt_d (uint a) @ ''.'' @ fmt_d (uint b) @ ''.'' @ fmt_d (uint c) @ ''.'' @ fmt_d (uint d)"
  by (simp add: IP_String_def To4_def)

lemma fmt_d_digits: "0 \<le> i \<Longrightarrow> list_all is_digit (fmt_d i)"
proof -
  have "list_all is_digit (dec_digits n)" for n
    by (induction n rule: dec_digits.induct) (subst dec_digits.simps, simp add: hex_digit_digit)
  then show "0 \<le> i \<Longrightarrow> list_all is_digit (fmt_d i)" by (simp add: fmt_d_def)
qed

lemma ipv4_fields_String: "ipv4_fields (IP_String L (put32 w)) 0 0 [] = Some (put32 w)"
proof -
  obtain a b c d where w: "w = be32 a b c d"
    by (metis be32_put32)
  have ne: "fmt_d (uint x) \<noteq> []" for x :: byte by (simp add: fmt_d_def)
  have field: "ipv4_fields (fmt_d (uint x) @ CHR ''.'' # rest) 0 0 octets = ipv4_fields rest 0 0 (octets @ [x])"
    if "length octets < 3" "rest \<noteq> []" for x :: byte and rest octets
    using scan_octet_byte [of x] that by (auto simp: ipv4_fields_scan is_digit_def)
  have last_field: "ipv4_fields (fmt_d (uint x)) 0 0 [o1, o2, o3] = Some [o1, o2, o3, x]" for x o1 o2 o3 :: byte
    using scan_octet_byte [of x] ipv4_fields_scan [of "fmt_d (uint x)" 0 0 _ _ "[]"] by auto
  show ?thesis unfolding w IP_String_put32 by (simp add: field last_field ne)
qed

lemma IP_String_chars:
  "find (\<lambda>c. c \<in> {CHR ''.'', CHR '':'', CHR ''%''}) (IP_String L (put32 w)) = Some CHR ''.''"
  "CHR ''/'' \<notin> set (IP_String L (put32 w))"
proof -
  obtain a b c d where w: "w = be32 a b c d" by (metis be32_put32)
  have digits: "list_all is_digit (fmt_d (uint x))" for x :: byte by (simp add: fmt_d_digits)
  have find: "list_all is_digit ds \<Longrightarrow> find (\<lambda>c. c \<in> {CHR ''.'', CHR '':'', CHR ''%''}) (ds @ CHR ''.'' # r) = Some CHR ''.''" for ds r
    by (induction ds) (auto simp: is_digit_def)
  show "find (\<lambda>c. c \<in> {CHR ''.'', CHR '':'', CHR ''%''}) (IP_String L (put32 w)) = Some CHR ''.''"
    unfolding w IP_String_put32 using find [OF digits] by simp
  have "CHR ''/'' \<notin> set (fmt_d (uint x))" for x :: byte
    using digits [of x] by (auto simp: list_all_iff is_digit_def)
  then show "CHR ''/'' \<notin> set (IP_String L (put32 w))" unfolding w IP_String_put32 by simp
qed

lemma dtoi_prefix: "n \<le> 32 \<Longrightarrow> dtoi (fmt_d (int n)) 0 = Some n"
  by (cases "n < 10") (simp_all add: fmt_d_def dec_digits_small hex_digit_digit Let_def)

text \<open>The text the code reads of a block: an IPv4 address, a slash and the prefix length.\<close>

definition cidr_text :: "ip6_lib \<Rightarrow> 32 word \<Rightarrow> nat \<Rightarrow> string" where
  "cidr_text L w n = IP_String L (put32 w) @ CHR ''/'' # fmt_d (int n)"

lemma ParseCIDR_String:
  assumes "n \<le> 32"
  shows "ParseCIDR L (cidr_text L w n) =
    Inr \<lparr>inIP = put32 (w AND net_mask (32 - n)), inMask = put32 (net_mask (32 - n))\<rparr>"
proof -
  have "Cut (CHR ''/'') (cidr_text L w n) = Some (IP_String L (put32 w), fmt_d (int n))"
    using IP_String_chars(2) [of L w] by (auto simp: cidr_text_def Cut_def takeWhile_append dropWhile_append)
  moreover have "ParseAddr L (IP_String L (put32 w)) = Some (put32 w)"
    using IP_String_chars(1) [of L w] by (simp add: ParseAddr_def ipv4_fields_String)
  moreover have "fmt_d (int n) \<noteq> []" by (simp add: fmt_d_def)
  ultimately show ?thesis
    using assms by (simp add: ParseCIDR_def dtoi_prefix CIDRMask_32)
qed

section \<open>The text of a block and its addresses\<close>

lemma ParseCIDR_text_facts:
  assumes "n \<le> 32"
  shows "(w AND net_mask (32 - n)) AND net_mask (32 - n) = w AND net_mask (32 - n)"
    "check_block L (cidr_text L w n) =
      (if n < 12 then Inl (ValidationError (''CIDR too large for discovery (max /12): '' @ cidr_text L w n))
       else Inr (\<lparr>inIP = put32 (w AND net_mask (32 - n)), inMask = put32 (net_mask (32 - n))\<rparr>, 32 - n))"
proof -
  have "fmt_d 12 = ''12''" by code_simp
  then show "check_block L (cidr_text L w n) =
      (if n < 12 then Inl (ValidationError (''CIDR too large for discovery (max /12): '' @ cidr_text L w n))
       else Inr (\<lparr>inIP = put32 (w AND net_mask (32 - n)), inMask = put32 (net_mask (32 - n))\<rparr>, 32 - n))"
    using assms unfolding check_block_def ParseCIDR_String [OF assms]
    by (auto simp: CIDRMask_32 maxDiscoveryHostBits_def)
qed (simp add: and.assoc)

lemma be32_bytes: "be32 (put32 w ! 0) (put32 w ! 1) (put32 w ! 2) (put32 w ! 3) = w"
  by (simp add: put32_def)

lemma streamCIDR_text:
  assumes "n \<le> 32"
  shows "streamCIDR L ctxErr (cidr_text L w n) send a =
    (if n < 12 then (Some (ValidationError (''CIDR too large for discovery (max /12): '' @ cidr_text L w n)), a)
     else case send_all send (block_hosts L (w AND net_mask (32 - n)) (32 - n)) a of
            (True, a) \<Rightarrow> (None, a) | (False, a) \<Rightarrow> (ctxErr, a))"
proof (cases "n < 12")
  case True
  then show ?thesis by (simp add: streamCIDR_def ParseCIDR_text_facts(2) [OF assms])
next
  case False
  then have "check_block L (cidr_text L w n) =
      Inr (\<lparr>inIP = put32 (w AND net_mask (32 - n)), inMask = put32 (net_mask (32 - n))\<rparr>, 32 - n)"
    by (simp add: ParseCIDR_text_facts(2) [OF assms])
  from streamCIDR_block [OF this] show ?thesis using False by (simp only: IPNet.simps be32_bytes if_False)
qed

lemma expandCIDR_text:
  assumes "n \<le> 32"
  shows "expandCIDR L (cidr_text L w n) =
    (if n = 0 then None else Some (Inr (block_hosts L (w AND net_mask (32 - n)) (32 - n))))"
proof (cases "n = 0")
  case True
  have "net_mask 32 = 0" by (simp add: net_mask_def mask_eq_exp_minus_1)
  then show ?thesis using True expandCIDR_diverges ParseCIDR_String [OF assms, of L w] by auto
next
  case False
  then have "32 - n < 32" using assms by simp
  from expandCIDR_block [OF ParseCIDR_String [OF assms] ParseCIDR_text_facts(1) [OF assms] this]
  show ?thesis using False by simp
qed

end
