(* ===== verification/Job_Channel.thy ===== *)
theory Job_Channel
  imports Prelude
begin

text \<open>
  The pipeline of \<open>Discover\<close> (\<open>client/discover.go\<close>): a producer that sends one job after the
  other into a buffered channel and closes it, a fixed number of workers that range over the
  channel and deliver indexed results, and a collector that stores them.  Each goroutine also
  watches the context: the producer may stop instead of sending, a worker may return instead of
  delivering.

  As in \<open>Worker_Pool\<close> a schedule is a list of actions and a run is \<open>None\<close> when an action is
  not enabled.  The result channel has room for every job, so a delivery never blocks and the
  collector's store is part of it.  The run is over when no worker is left: only then is the result
  channel closed.

  The locale \<open>job_channel\<close> is the contract of a configuration with a worker and a buffer; its
  lemmas are the invariant, that without a cancellation every job is delivered at its own index,
  the absence of deadlock and the end of every schedule.
\<close>

section \<open>States and actions\<close>

record 'r pipeline =
  jqNext :: nat \<comment> \<open>the producer's \<open>idx\<close>\<close>
  jqOpen :: bool \<comment> \<open>the producer has not closed the channel\<close>
  jqQueue :: "nat list" \<comment> \<open>the channel's buffer\<close>
  jqBusy :: "nat list" \<comment> \<open>the jobs that workers hold\<close>
  jqIdle :: nat \<comment> \<open>the workers at their \<open>range\<close>\<close>
  jqDone :: bool \<comment> \<open>the context is done\<close>
  jqSlots :: "'r option list" \<comment> \<open>the results: \<open>None\<close> where nothing was stored\<close>

datatype step =
    Produce \<comment> \<open>\<open>case jobs <- job{idx, ip}\<close>\<close>
  | CloseJobs \<comment> \<open>the addresses are exhausted: \<open>close(jobs)\<close>\<close>
  | StopProducing \<comment> \<open>\<open>case <-ctx.Done()\<close> of the producer, then \<open>close(jobs)\<close>\<close>
  | Take \<comment> \<open>a worker receives a job\<close>
  | Deliver nat \<comment> \<open>\<open>case out <- indexed{j.i, r}\<close>\<close>
  | Abandon nat \<comment> \<open>\<open>case <-ctx.Done()\<close> of a worker: it returns\<close>
  | Leave \<comment> \<open>a worker sees the closed and empty channel\<close>
  | CancelContext

record 'r pipe_config =
  pipeJobs :: nat
  pipeWorkers :: nat
  pipeBuffer :: nat
  pipeWork :: "nat \<Rightarrow> 'r option" \<comment> \<open>the result of job \<open>i\<close>; \<open>None\<close> for a panic\<close>

definition pipe_init :: "'r pipe_config \<Rightarrow> 'r pipeline" where
  "pipe_init cfg =
     \<lparr>jqNext = 0, jqOpen = True, jqQueue = [], jqBusy = [], jqIdle = pipeWorkers cfg, jqDone = False,
      jqSlots = replicate (pipeJobs cfg) None\<rparr>"

fun pipe_step :: "'r pipe_config \<Rightarrow> step \<Rightarrow> 'r pipeline \<Rightarrow> 'r pipeline option" where
  "pipe_step cfg Produce p =
     (if jqOpen p \<and> jqNext p < pipeJobs cfg \<and> length (jqQueue p) < pipeBuffer cfg
      then Some (p\<lparr>jqNext := jqNext p + 1, jqQueue := jqQueue p @ [jqNext p]\<rparr>) else None)"
| "pipe_step cfg CloseJobs p =
     (if jqOpen p \<and> jqNext p = pipeJobs cfg then Some (p\<lparr>jqOpen := False\<rparr>) else None)"
| "pipe_step cfg StopProducing p =
     (if jqOpen p \<and> jqNext p < pipeJobs cfg \<and> jqDone p then Some (p\<lparr>jqOpen := False\<rparr>) else None)"
| "pipe_step cfg Take p =
     (case jqQueue p of
        [] \<Rightarrow> None
      | i # queue \<Rightarrow>
          if jqIdle p > 0 then Some (p\<lparr>jqQueue := queue, jqBusy := i # jqBusy p, jqIdle := jqIdle p - 1\<rparr>)
          else None)"
| "pipe_step cfg (Deliver i) p =
     (if i \<in> set (jqBusy p) then
        (case pipeWork cfg i of
           None \<Rightarrow> None
         | Some r \<Rightarrow> Some (p\<lparr>jqBusy := remove1 i (jqBusy p), jqIdle := jqIdle p + 1,
                              jqSlots := (jqSlots p)[i := Some r]\<rparr>))
      else None)"
| "pipe_step cfg (Abandon i) p =
     (if i \<in> set (jqBusy p) \<and> jqDone p \<and> pipeWork cfg i \<noteq> None
      then Some (p\<lparr>jqBusy := remove1 i (jqBusy p)\<rparr>) else None)"
| "pipe_step cfg Leave p =
     (if jqIdle p > 0 \<and> \<not> jqOpen p \<and> jqQueue p = [] then Some (p\<lparr>jqIdle := jqIdle p - 1\<rparr>) else None)"
| "pipe_step cfg CancelContext p = Some (p\<lparr>jqDone := True\<rparr>)"

fun pipe_run :: "'r pipe_config \<Rightarrow> step list \<Rightarrow> 'r pipeline \<Rightarrow> 'r pipeline option" where
  "pipe_run cfg [] p = Some p"
| "pipe_run cfg (a # as) p = (case pipe_step cfg a p of None \<Rightarrow> None | Some q \<Rightarrow> pipe_run cfg as q)"

definition pipe_finished :: "'r pipeline \<Rightarrow> bool" where
  "pipe_finished p \<longleftrightarrow> jqIdle p = 0 \<and> jqBusy p = []"

lemma length_remove1_Suc: "i \<in> set xs \<Longrightarrow> Suc (length (remove1 i xs)) = length xs"
  by (induction xs) auto

lemma pipe_run_Cons:
  assumes "pipe_run cfg (a # as) p = Some q"
  obtains p' where "pipe_step cfg a p = Some p'" "pipe_run cfg as p' = Some q"
  using assms by (auto split: option.splits)

lemma pipe_run_done: "pipe_run cfg as p = Some q \<Longrightarrow> jqDone q \<Longrightarrow> jqDone p \<or> CancelContext \<in> set as"
proof (induction as arbitrary: p)
  case (Cons a as)
  from Cons.prems(1) obtain p' where p': "pipe_step cfg a p = Some p'" "pipe_run cfg as p' = Some q"
    by (rule pipe_run_Cons)
  then show ?case using Cons.IH [OF p'(2) Cons.prems(2)]
    by (cases a) (auto split: if_splits option.splits list.splits)
qed simp

section \<open>The contract\<close>

locale job_channel =
  fixes cfg :: "'r pipe_config"
  assumes workers_pos: "0 < pipeWorkers cfg"
    and buffer_pos: "0 < pipeBuffer cfg"
begin

definition pending :: "'r pipeline \<Rightarrow> nat list" where
  "pending p = jqQueue p @ jqBusy p"

definition slot_ok :: "'r pipeline \<Rightarrow> nat \<Rightarrow> bool" where
  \<comment> \<open>a job that was taken and is no longer pending was delivered, or abandoned\<close>
  "slot_ok p i \<longleftrightarrow>
     (if i < jqNext p \<and> i \<notin> set (pending p)
      then pipeWork cfg i \<noteq> None \<and> (jqSlots p ! i = pipeWork cfg i \<or> jqSlots p ! i = None \<and> jqDone p)
      else jqSlots p ! i = None)"

definition pipe_inv :: "'r pipeline \<Rightarrow> bool" where
  "pipe_inv p \<longleftrightarrow> jqNext p \<le> pipeJobs cfg \<and> length (jqSlots p) = pipeJobs cfg \<and>
     distinct (pending p) \<and> set (pending p) \<subseteq> {..<jqNext p} \<and> length (jqQueue p) \<le> pipeBuffer cfg \<and>
     jqIdle p + length (jqBusy p) \<le> pipeWorkers cfg \<and>
     (jqIdle p + length (jqBusy p) < pipeWorkers cfg \<longrightarrow> jqDone p \<or> \<not> jqOpen p \<and> jqQueue p = []) \<and>
     (jqOpen p \<or> jqNext p = pipeJobs cfg \<or> jqDone p) \<and> (\<forall>i<pipeJobs cfg. slot_ok p i)"

lemma pipe_inv_init: "pipe_inv (pipe_init cfg)"
  by (simp add: pipe_inv_def pipe_init_def pending_def slot_ok_def)

lemma slot_ok_step:
  assumes "pipe_inv p" "pipe_step cfg a p = Some q" "i < pipeJobs cfg"
  shows "slot_ok q i"
proof -
  have ok: "slot_ok p i" and inv: "length (jqSlots p) = pipeJobs cfg" "distinct (pending p)"
    "set (pending p) \<subseteq> {..<jqNext p}"
    using assms(1,3) unfolding pipe_inv_def by blast+
  show ?thesis
  proof (cases a)
    case Produce
    then have "q = p\<lparr>jqNext := jqNext p + 1, jqQueue := jqQueue p @ [jqNext p]\<rparr>"
      using assms(2) by (simp split: if_splits)
    then show ?thesis using ok by (cases "i = jqNext p") (auto simp: slot_ok_def pending_def less_Suc_eq split: if_splits)
  next
    case Take
    then obtain j queue where "jqQueue p = j # queue"
      "q = p\<lparr>jqQueue := queue, jqBusy := j # jqBusy p, jqIdle := jqIdle p - 1\<rparr>"
      using assms(2) by (auto split: list.splits if_splits)
    then show ?thesis using ok by (simp add: slot_ok_def pending_def disj_commute disj_left_commute)
  next
    case (Deliver j)
    then obtain r where q: "j \<in> set (jqBusy p)" "pipeWork cfg j = Some r"
      "q = p\<lparr>jqBusy := remove1 j (jqBusy p), jqIdle := jqIdle p + 1, jqSlots := (jqSlots p)[j := Some r]\<rparr>"
      using assms(2) by (auto split: if_splits option.splits)
    have "set (pending q) = set (pending p) - {j}" using inv(2) q by (auto simp: pending_def)
    moreover have "j < jqNext p" using inv(3) q(1) by (auto simp: pending_def)
    ultimately show ?thesis using ok q assms(3) inv(1) by (cases "i = j") (simp_all add: slot_ok_def)
  next
    case (Abandon j)
    then have q: "j \<in> set (jqBusy p)" "jqDone p" "pipeWork cfg j \<noteq> None" "q = p\<lparr>jqBusy := remove1 j (jqBusy p)\<rparr>"
      using assms(2) by (auto split: if_splits)
    have "set (pending q) = set (pending p) - {j}" "j \<in> set (pending p)"
      using inv(2) q by (auto simp: pending_def)
    then show ?thesis using ok q by (cases "i = j") (auto simp: slot_ok_def split: if_splits)
  qed (use ok assms(2) in \<open>auto simp: slot_ok_def pending_def split: if_splits\<close>)
qed

lemma pipe_inv_step:
  assumes "pipe_inv p" "pipe_step cfg a p = Some q"
  shows "pipe_inv q"
proof -
  have slots: "\<forall>i<pipeJobs cfg. slot_ok q i" using slot_ok_step [OF assms] by blast
  have inv: "jqNext p \<le> pipeJobs cfg" "length (jqSlots p) = pipeJobs cfg" "distinct (pending p)"
    "set (pending p) \<subseteq> {..<jqNext p}" "length (jqQueue p) \<le> pipeBuffer cfg"
    "jqIdle p + length (jqBusy p) \<le> pipeWorkers cfg"
    "jqIdle p + length (jqBusy p) < pipeWorkers cfg \<longrightarrow> jqDone p \<or> \<not> jqOpen p \<and> jqQueue p = []"
    "jqOpen p \<or> jqNext p = pipeJobs cfg \<or> jqDone p"
    using assms(1) unfolding pipe_inv_def by blast+
  have "jqNext q \<le> pipeJobs cfg \<and> length (jqSlots q) = pipeJobs cfg \<and> length (jqQueue q) \<le> pipeBuffer cfg"
    using assms(2) inv(1,2,5) by (cases a) (auto split: if_splits option.splits list.splits)
  moreover have "distinct (pending q) \<and> set (pending q) \<subseteq> {..<jqNext q}"
    using assms(2) inv(3,4)
    by (cases a) (auto simp: pending_def less_Suc_eq split: if_splits option.splits list.splits)
  moreover have "jqIdle q + length (jqBusy q) \<le> pipeWorkers cfg \<and>
      (jqIdle q + length (jqBusy q) < pipeWorkers cfg \<longrightarrow> jqDone q \<or> \<not> jqOpen q \<and> jqQueue q = [])"
    using assms(2) inv(6,7)
    by (cases a) (auto dest: length_remove1_Suc split: if_splits option.splits list.splits)
  moreover have "jqOpen q \<or> jqNext q = pipeJobs cfg \<or> jqDone q"
    using assms(2) inv(8) by (cases a) (auto split: if_splits option.splits list.splits)
  ultimately show ?thesis unfolding pipe_inv_def using slots by blast
qed

lemma pipe_inv_run: "pipe_run cfg as p = Some q \<Longrightarrow> pipe_inv p \<Longrightarrow> pipe_inv q"
  by (induction as arbitrary: p) (auto split: option.splits dest: pipe_inv_step)

text \<open>Never more jobs in the hands of workers than there are workers, never more in the buffer than
  it holds.\<close>

lemma bounded:
  "pipe_run cfg as (pipe_init cfg) = Some p \<Longrightarrow>
     length (jqBusy p) \<le> pipeWorkers cfg \<and> length (jqQueue p) \<le> pipeBuffer cfg"
  using pipe_inv_run [OF _ pipe_inv_init] unfolding pipe_inv_def by fastforce

text \<open>The results of a run that is over.\<close>

lemma results:
  assumes "pipe_run cfg as (pipe_init cfg) = Some p" "pipe_finished p"
  shows "length (jqSlots p) = pipeJobs cfg"
    and "\<And>i. i < pipeJobs cfg \<Longrightarrow> jqSlots p ! i = None \<or> jqSlots p ! i = pipeWork cfg i"
    and "CancelContext \<notin> set as \<Longrightarrow> jqSlots p = map (pipeWork cfg) [0..<pipeJobs cfg] \<and>
      (\<forall>i<pipeJobs cfg. pipeWork cfg i \<noteq> None)"
proof -
  have inv: "pipe_inv p" by (rule pipe_inv_run [OF assms(1) pipe_inv_init])
  then show len: "length (jqSlots p) = pipeJobs cfg" unfolding pipe_inv_def by blast
  have ok: "slot_ok p i" if "i < pipeJobs cfg" for i using inv that unfolding pipe_inv_def by blast
  show "jqSlots p ! i = None \<or> jqSlots p ! i = pipeWork cfg i" if "i < pipeJobs cfg" for i
    using ok [OF that] by (auto simp: slot_ok_def split: if_splits)
  assume "CancelContext \<notin> set as"
  then have nd: "\<not> jqDone p" using pipe_run_done [OF assms(1)] by (auto simp: pipe_init_def)
  have "jqIdle p + length (jqBusy p) < pipeWorkers cfg" using assms(2) workers_pos by (simp add: pipe_finished_def)
  then have "\<not> jqOpen p" "jqQueue p = []" "jqNext p = pipeJobs cfg" using inv nd unfolding pipe_inv_def by blast+
  then have "jqSlots p ! i = pipeWork cfg i \<and> pipeWork cfg i \<noteq> None" if "i < pipeJobs cfg" for i
    using ok [OF that] nd that assms(2) by (simp add: slot_ok_def pending_def pipe_finished_def)
  then show "jqSlots p = map (pipeWork cfg) [0..<pipeJobs cfg] \<and> (\<forall>i<pipeJobs cfg. pipeWork cfg i \<noteq> None)"
    using len by (auto intro: nth_equalityI)
qed

text \<open>No deadlock, and every schedule ends.\<close>

lemma progress:
  assumes "pipe_inv p" "\<not> pipe_finished p" "\<forall>i<pipeJobs cfg. pipeWork cfg i \<noteq> None"
  shows "\<exists>a. a \<noteq> CancelContext \<and> pipe_step cfg a p \<noteq> None"
proof (cases "jqBusy p")
  case (Cons i more)
  have "set (pending p) \<subseteq> {..<jqNext p}" "jqNext p \<le> pipeJobs cfg" using assms(1) unfolding pipe_inv_def by blast+
  then have "i < pipeJobs cfg" using Cons by (auto simp: pending_def)
  then show ?thesis using Cons assms(3) by (intro exI [of _ "Deliver i"]) auto
next
  case Nil
  then have idle: "0 < jqIdle p" using assms(2) by (simp add: pipe_finished_def)
  show ?thesis
  proof (cases "jqQueue p")
    case (Cons i more)
    then show ?thesis using idle by (intro exI [of _ Take]) simp
  next
    case empty: Nil
    have "jqNext p \<le> pipeJobs cfg" using assms(1) unfolding pipe_inv_def by blast
    then consider "\<not> jqOpen p" | "jqOpen p" "jqNext p < pipeJobs cfg" | "jqOpen p" "jqNext p = pipeJobs cfg"
      by linarith
    then show ?thesis
    proof cases
      case 1
      then show ?thesis using idle empty by (intro exI [of _ Leave]) simp
    next
      case 2
      then show ?thesis using empty buffer_pos by (intro exI [of _ Produce]) simp
    next
      case 3
      then show ?thesis by (intro exI [of _ CloseJobs]) simp
    qed
  qed
qed

definition work_left :: "'r pipeline \<Rightarrow> nat" where
  "work_left p = 4 * (pipeJobs cfg - jqNext p) + (if jqOpen p then 1 else 0) + 3 * length (jqQueue p) +
     2 * length (jqBusy p) + jqIdle p"

lemma work_left_step:
  assumes "pipe_step cfg a p = Some q"
  shows "work_left q + (if a = CancelContext then 0 else 1) \<le> work_left p"
  using assms by (cases a) (auto simp: work_left_def dest: length_remove1_Suc split: if_splits option.splits list.splits)

lemma schedule_bound:
  "pipe_run cfg as p = Some q \<Longrightarrow> length (filter (\<lambda>a. a \<noteq> CancelContext) as) + work_left q \<le> work_left p"
proof (induction as arbitrary: p)
  case (Cons a as)
  from Cons.prems obtain p' where p': "pipe_step cfg a p = Some p'" "pipe_run cfg as p' = Some q"
    by (rule pipe_run_Cons)
  show ?case using Cons.IH [OF p'(2)] work_left_step [OF p'(1)] by (auto split: if_splits)
qed simp

lemma completes:
  assumes "\<forall>i<pipeJobs cfg. pipeWork cfg i \<noteq> None"
  shows "pipe_inv p \<Longrightarrow> \<exists>as q. CancelContext \<notin> set as \<and> pipe_run cfg as p = Some q \<and> pipe_finished q"
proof (induction "work_left p" arbitrary: p rule: less_induct)
  case less
  show ?case
  proof (cases "pipe_finished p")
    case True
    then show ?thesis by (intro exI [of _ "[]"]) simp
  next
    case False
    obtain a p' where a: "a \<noteq> CancelContext" "pipe_step cfg a p = Some p'" using progress [OF less.prems False assms] by auto
    then have "work_left p' < work_left p" using work_left_step [OF a(2)] by simp
    then obtain as q where "CancelContext \<notin> set as" "pipe_run cfg as p' = Some q" "pipe_finished q"
      using less.hyps pipe_inv_step [OF less.prems a(2)] by blast
    then show ?thesis using a by (intro exI [of _ "a # as"]) auto
  qed
qed

end

end
