(* ===== verification/Discover.thy ===== *)
theory Discover
  imports Probe_Props Cidr Job_Channel
begin

text \<open>
  Discovery of S7 devices in an IPv4 block (\<open>client/discover.go\<close>): the options with their safety
  presets, the probe of one host and the two passes of \<open>Discover\<close>, the second of which runs the
  pipeline of \<open>Job_Channel\<close> over the addresses of \<open>Cidr\<close>.

  As in \<open>Compare\<close>, each host probe has its own environment, context and starting world, and
  here its own random numbers: \<open>rnd k n\<close> is the \<open>k\<close>-th \<open>Intn(n)\<close>.  The loops over racks and
  slots are the lists of their values; they are meant for upper limits below the largest \<open>int\<close>,
  where the loop variable does not wrap.
\<close>

section \<open>Types and options\<close>

record DiscoverResult =
  drIP :: string
  drPort :: int
  drIsS7 :: bool
  drRack :: int
  drSlot :: int
  drPDUSize :: int
  drTSAP :: string
  drError :: string
  drAbandonedReason :: string

record discoverOpts =
  doTimeout :: int
  doParallel :: int
  doRackMin :: int
  doRackMax :: int
  doSlotMin :: int
  doSlotMax :: int
  doRateMS :: int
  doSafetyMode :: SafetyMode
  doJitterMS :: int
  doMaxAttemptsPerHost :: int

type_synonym DiscoverOption = "discoverOpts \<Rightarrow> discoverOpts"

definition zero_DiscoverResult :: DiscoverResult where
  "zero_DiscoverResult =
     \<lparr>drIP = '''', drPort = 0, drIsS7 = False, drRack = 0, drSlot = 0, drPDUSize = 0, drTSAP = '''',
      drError = '''', drAbandonedReason = ''''\<rparr>"

definition WithDiscoverTimeout :: "int \<Rightarrow> DiscoverOption" where
  "WithDiscoverTimeout ms = (\<lambda>o'. o'\<lparr>doTimeout := ms\<rparr>)"

definition WithDiscoverParallel :: "int \<Rightarrow> DiscoverOption" where
  "WithDiscoverParallel n = (\<lambda>o'. o'\<lparr>doParallel := n\<rparr>)"

definition WithDiscoverRackSlotRange :: "int \<Rightarrow> int \<Rightarrow> int \<Rightarrow> int \<Rightarrow> DiscoverOption" where
  "WithDiscoverRackSlotRange rackMin rackMax slotMin slotMax =
     (\<lambda>o'. o'\<lparr>doRackMin := rackMin, doRackMax := rackMax, doSlotMin := slotMin, doSlotMax := slotMax\<rparr>)"

definition WithDiscoverRateLimit :: "int \<Rightarrow> DiscoverOption" where
  "WithDiscoverRateLimit ms = (\<lambda>o'. o'\<lparr>doRateMS := ms\<rparr>)"

definition WithDiscoverSafetyMode :: "SafetyMode \<Rightarrow> DiscoverOption" where
  "WithDiscoverSafetyMode mode = (\<lambda>o'. o'\<lparr>doSafetyMode := mode\<rparr>)"

definition WithDiscoverJitter :: "int \<Rightarrow> DiscoverOption" where
  "WithDiscoverJitter ms = (\<lambda>o'. o'\<lparr>doJitterMS := ms\<rparr>)"

definition WithDiscoverMaxAttemptsPerHost :: "int \<Rightarrow> DiscoverOption" where
  "WithDiscoverMaxAttemptsPerHost n = (\<lambda>o'. o'\<lparr>doMaxAttemptsPerHost := n\<rparr>)"

definition default_discoverOpts :: discoverOpts where
  "default_discoverOpts =
     \<lparr>doTimeout = 2000, doParallel = 10, doRackMin = 0, doRackMax = 3, doSlotMin = 0, doSlotMax = 5,
      doRateMS = 0, doSafetyMode = '''', doJitterMS = 0, doMaxAttemptsPerHost = 0\<rparr>"

definition apply_safety :: "discoverOpts \<Rightarrow> discoverOpts" where
  "apply_safety o' =
     (let mode = (if doSafetyMode o' = '''' then SafetyNormal else doSafetyMode o');
          o' = o'\<lparr>doSafetyMode := mode\<rparr>
      in if mode = SafetyConservative then
           o'\<lparr>doTimeout := (if doTimeout o' = 2000 then 5000 else doTimeout o'),
              doParallel := (if doParallel o' = 10 then 3 else doParallel o'),
              doRateMS := (if doRateMS o' = 0 then 50 else doRateMS o')\<rparr>
         else if mode = SafetyAggressive then
           o'\<lparr>doTimeout := (if doTimeout o' = 2000 then 1000 else doTimeout o'),
              doParallel := (if doParallel o' = 10 then 15 else doParallel o')\<rparr>
         else o')"

definition validate_discover :: "discoverOpts \<Rightarrow> goerr option" where
  "validate_discover o' =
     (if doRackMin o' > doRackMax o' then
        Some (ValidationError (''discover: rack min ('' @ fmt_d (doRackMin o') @
          '') must be <= rack max ('' @ fmt_d (doRackMax o') @ '')''))
      else if doSlotMin o' > doSlotMax o' then
        Some (ValidationError (''discover: slot min ('' @ fmt_d (doSlotMin o') @
          '') must be <= slot max ('' @ fmt_d (doSlotMax o') @ '')''))
      else if doJitterMS o' < 0 then
        Some (ValidationError (''discover: jitter ms must be >= 0, got '' @ fmt_d (doJitterMS o')))
      else if doMaxAttemptsPerHost o' < 0 then
        Some (ValidationError (''discover: max attempts per host must be >= 0, got '' @
          fmt_d (doMaxAttemptsPerHost o')))
      else None)"

section \<open>One host\<close>

definition abandoned :: "goerr \<Rightarrow> DiscoverResult \<Rightarrow> DiscoverResult" where
  "abandoned err result = result\<lparr>drError := err_text err, drAbandonedReason := ''context_canceled''\<rparr>"

definition jitter_wait ::
    "(nat \<Rightarrow> int \<Rightarrow> int) \<Rightarrow> ctx \<Rightarrow> discoverOpts \<Rightarrow> nat \<Rightarrow> ('z world_scheme, unit) io" where
  "jitter_wait rnd cx o' k =
     (case jitter_of rnd (doJitterMS o') k of
        None \<Rightarrow> io_pure None
      | Some jitter \<Rightarrow> if jitter > 0 then ctx_sleep cx jitter else io_ret ())"

definition rate_wait :: "ctx \<Rightarrow> discoverOpts \<Rightarrow> ('z world_scheme, unit) io" where
  "rate_wait cx o' =
     (if doRateMS o' > 0 then ctx_sleep cx (wrap64 (doRateMS o' * millisecond)) else io_ret ())"

definition discover_client :: "string \<Rightarrow> int \<Rightarrow> discoverOpts \<Rightarrow> int \<Rightarrow> int \<Rightarrow> world \<Rightarrow> client" where
  "discover_client ip port o' rack slot w =
     New ip [WithPort port, WithRackSlot rack slot, WithTimeout (wrap64 (doTimeout o' * millisecond))] w"

definition discover_attempt :: "env \<Rightarrow> ctx \<Rightarrow> (client, ConnectionInfo) io" where
  "discover_attempt E cx =
     io_bind (Connect E cx) (\<lambda>_.
     io_bind (io_get client_ConnectionInfo) (\<lambda>info.
     io_case (Close E) (\<lambda>_. io_ret info)))"

definition with_client :: "(client, 'a) io \<Rightarrow> (world \<Rightarrow> client) \<Rightarrow> (world, 'a) io" where
  \<comment> \<open>run an operation on a new client, of which only the heap and the trace remain\<close>
  "with_client m new w = (case m (new w) of (r, c) \<Rightarrow> (r, world.truncate c))"

fun probe_pairs ::
    "(nat \<Rightarrow> int \<Rightarrow> int) \<Rightarrow> env \<Rightarrow> ctx \<Rightarrow> string \<Rightarrow> int \<Rightarrow> discoverOpts \<Rightarrow> (int \<times> int) list \<Rightarrow> nat \<Rightarrow>
     DiscoverResult \<Rightarrow> (world, DiscoverResult) io" where
  "probe_pairs rnd E cx ip port o' [] attempts result =
     io_ret (result\<lparr>drError := ''no valid COTP+S7 setup for tested rack/slot range''\<rparr>)"
| "probe_pairs rnd E cx ip port o' ((rack, slot) # pairs) attempts result =
     (if doMaxAttemptsPerHost o' > 0 \<and> int attempts \<ge> doMaxAttemptsPerHost o' then
        io_ret (result\<lparr>drAbandonedReason := ''max_attempts'', drError := ''max attempts per host reached''\<rparr>)
      else
        io_case (io_bind (ctx_check cx) (\<lambda>_. io_bind (jitter_wait rnd cx o' attempts) (\<lambda>_. rate_wait cx o')))
          (\<lambda>r. case r of
             Inl err \<Rightarrow> io_ret (abandoned err result)
           | Inr _ \<Rightarrow>
               io_case (with_client (discover_attempt E cx) (discover_client ip port o' rack slot)) (\<lambda>r. case r of
                 Inl _ \<Rightarrow> probe_pairs rnd E cx ip port o' pairs (attempts + 1) result
               | Inr info \<Rightarrow>
                   io_ret (result\<lparr>drIsS7 := True, drRack := ciRack info, drSlot := ciSlot info,
                                  drPDUSize := ciPDUSize info,
                                  drTSAP := ''0x'' @ fmt04X (ciRemoteTSAP info)\<rparr>))))"

definition discover_pairs :: "discoverOpts \<Rightarrow> (int \<times> int) list" where
  "discover_pairs o' =
     concat (map (\<lambda>rack. map (\<lambda>slot. (rack, slot)) [doSlotMin o'..doSlotMax o']) [doRackMin o'..doRackMax o'])"

definition probeS7 ::
    "(nat \<Rightarrow> int \<Rightarrow> int) \<Rightarrow> env \<Rightarrow> ctx \<Rightarrow> string \<Rightarrow> int \<Rightarrow> discoverOpts \<Rightarrow> (world, DiscoverResult) io" where
  "probeS7 rnd E cx ip port o' =
     probe_pairs rnd E cx ip port o' (discover_pairs o') 0 (zero_DiscoverResult\<lparr>drIP := ip, drPort := port\<rparr>)"

definition isPortOpen :: "env \<Rightarrow> ctx \<Rightarrow> string \<Rightarrow> int \<Rightarrow> int \<Rightarrow> ('z world_scheme, unit) io" where
  \<comment> \<open>the dial, with the default of 800 ms, and the close of what it opened\<close>
  "isPortOpen E cx ip port timeout =
     (\<lambda>s. let timeout = (if timeout \<le> 0 then 800 * millisecond else timeout);
              addr = JoinHostPort ip (fmt_d port);
              err = env_dial E (w_trace s) addr timeout;
              s = snd (log_ev (EvDial addr) s)
          in case err of
               Some err \<Rightarrow> (Some (Inl err), s)
             | None \<Rightarrow> (Some (Inr ()), (snd (log_ev (EvClose (w_next s)) s))\<lparr>w_next := w_next s + 1\<rparr>))"

section \<open>All hosts\<close>

definition cidr_addresses :: "ip6_lib \<Rightarrow> string \<Rightarrow> string list" where
  \<comment> \<open>what \<open>streamCIDR\<close> sends when nothing stops it\<close>
  "cidr_addresses L cidr = snd (streamCIDR L None cidr (\<lambda>ip ips. (True, ips @ [ip])) [])"

definition count_pass :: "ip6_lib \<Rightarrow> nat option \<Rightarrow> goerr \<Rightarrow> string \<Rightarrow> goerr option \<times> nat" where
  \<comment> \<open>the first pass; \<open>cancelAt\<close> is the poll that first sees the context done\<close>
  "count_pass L cancelAt ctxErr cidr =
     streamCIDR L (Some ctxErr) cidr
       (\<lambda>_ count. case cancelAt of
          None \<Rightarrow> (True, count + 1)
        | Some k \<Rightarrow> if k \<le> count then (False, count) else (True, count + 1)) 0"

record host_view =
  \<comment> \<open>what the probe of one host sees\<close>
  hvRnd :: "nat \<Rightarrow> int \<Rightarrow> int"
  hvEnv :: env
  hvCtx :: ctx
  hvWorld :: world

definition host_work :: "host_view \<Rightarrow> discoverOpts \<Rightarrow> string \<Rightarrow> DiscoverResult option" where
  "host_work v o' ip =
     (case fst (probeS7 (hvRnd v) (hvEnv v) (hvCtx v) ip 102 o' (hvWorld v)) of
        Some (Inr r) \<Rightarrow> Some r
      | _ \<Rightarrow> None)"

definition discover_pipe :: "(nat \<Rightarrow> host_view) \<Rightarrow> discoverOpts \<Rightarrow> string list \<Rightarrow> DiscoverResult pipe_config" where
  "discover_pipe vs o' ips =
     (let parallel = (if doParallel o' < 1 then 1 else doParallel o')
      in \<lparr>pipeJobs = length ips, pipeWorkers = nat parallel, pipeBuffer = nat (parallel * 2),
          pipeWork = (\<lambda>i. host_work (vs i) o' (ips ! i))\<rparr>)"

definition Discover ::
    "ip6_lib \<Rightarrow> (nat \<Rightarrow> host_view) \<Rightarrow> nat option \<Rightarrow> goerr \<Rightarrow> goerr option \<Rightarrow> step list \<Rightarrow> string \<Rightarrow>
     DiscoverOption list \<Rightarrow> (goerr + DiscoverResult list \<times> goerr option) option" where
  \<comment> \<open>\<open>ctxErr\<close> is the error of a context that ends in the first pass, \<open>finalErr\<close> the
     \<open>ctx.Err()\<close> at the end; \<open>None\<close>: the schedule is not one of a complete run\<close>
  "Discover L vs cancelAt ctxErr finalErr sched cidr opts =
     (let dOpts = apply_safety (fold (\<lambda>f o'. f o') opts default_discoverOpts) in
      case validate_discover dOpts of
        Some err \<Rightarrow> Some (Inl err)
      | None \<Rightarrow>
          (case count_pass L cancelAt ctxErr cidr of
             (Some err, _) \<Rightarrow> Some (Inl err)
           | (None, count) \<Rightarrow>
               if count = 0 then Some (Inr ([], None))
               else
                 let cfg = discover_pipe vs dOpts (cidr_addresses L cidr)
                 in case pipe_run cfg sched (pipe_init cfg) of
                      None \<Rightarrow> None
                    | Some p \<Rightarrow>
                        if \<not> pipe_finished p then None
                        else Some (Inr (map (case_option zero_DiscoverResult id) (jqSlots p), finalErr))))"

end
