(* ===== verification/Discover_Props.thy ===== *)
theory Discover_Props
  imports Discover
begin

text \<open>
  What \<open>Discover\<close> guarantees.  A host probe never panics, closes every connection it opens, and
  dials at most as often as it may; its result names its own host; a host that accepts the first
  candidate is reported with it.  For every schedule the results come in the order of the
  addresses, and without a cancellation there is one for each address.
\<close>

section \<open>Dials\<close>

fun is_dial :: "event \<Rightarrow> bool" where
  "is_dial (EvDial a) = True"
| "is_dial _ = False"

definition dials :: "'z world_scheme \<Rightarrow> nat" where
  "dials s = length (filter is_dial (w_trace s))"

definition no_dial :: "'z world_scheme \<Rightarrow> 'z world_scheme \<Rightarrow> bool" where
  "no_dial s t \<longleftrightarrow> dials t = dials s"

interpretation nd: io_frame no_dial
  by unfold_locales (simp_all add: no_dial_def)

lemma no_dial_atoms:
  "no_dial s (snd (ctx_check cx s))" "no_dial s (snd (setReadDeadline E sock tmo cx s))"
  "no_dial s (snd (setWriteDeadline E sock tmo cx s))" "no_dial s (snd (tracer_Trace c dir d s))"
  "no_dial s (snd (ReadFrame E rd s))" "no_dial s (snd (WriteFrame E wr d s))"
  "no_dial s (snd (transport_Close E c s))"
  by (auto simp: no_dial_def dials_def ctx_check_def setReadDeadline_def setWriteDeadline_def tracer_Trace_def
      ReadFrame_def WriteFrame_def transport_Close_def Let_def split: option.split)

lemma no_dial_sleep: "no_dial s (snd (ctx_sleep cx d s))"
  unfolding ctx_sleep_def by (rule nd.frame_bind) (simp_all add: no_dial_def dials_def)

lemma no_dial_SendContext: "no_dial s (snd (SendContext E c cx data s))"
  by (auto simp: SendContext_def nd.R_refl intro!: nd.frame_bind no_dial_atoms split: option.splits)

lemma no_dial_ReceiveContext: "no_dial s (snd (ReceiveContext E c cx s))"
  by (auto simp: ReceiveContext_def nd.R_refl intro!: nd.frame_bind nd.frame_wrap no_dial_atoms split: option.splits)

lemma no_dial_performCOTPConnect: "no_dial s (snd (performCOTPConnect E cx c l r s))"
  unfolding performCOTPConnect_def
  by (intro nd.frame_bind nd.frame_wrap no_dial_atoms no_dial_SendContext no_dial_ReceiveContext nd.frame_pure)
     (simp add: nd.R_refl)

lemma no_dial_performS7Setup: "no_dial s (snd (performS7Setup E cx c ref a b m s))"
  unfolding performS7Setup_def Let_def
  by (intro nd.frame_bind nd.frame_wrap no_dial_atoms no_dial_SendContext no_dial_ReceiveContext nd.frame_pure)

lemma dials_dial: "dials (snd (dialTransport E cx a tmo s)) = dials s + 1"
  by (simp add: dials_def dialTransport_def Let_def split: option.split)

lemma no_dial_close_and_fail: "no_dial s (snd (close_and_fail E c e s))"
  unfolding close_and_fail_def by (rule nd.frame_case) (auto simp: no_dial_atoms nd.frame_pure simp del: io_run)

lemma no_dial_after_dial:
  "no_dial s (snd ((case connect_TSAPs opts rack slot of
         Inl err \<Rightarrow> close_and_fail E conn err
       | Inr (local, remote) \<Rightarrow>
           io_case (performCOTPConnect E cx conn local remote) (\<lambda>r. case r of
             Inl err \<Rightarrow> close_and_fail E conn (Errorf ''COTP connect: '' err '''')
           | Inr _ \<Rightarrow>
               io_case (performS7Setup E cx conn 1 a b m) (\<lambda>r. case r of
                 Inl err \<Rightarrow> close_and_fail E conn (Errorf ''S7 setup: '' err '''')
               | Inr setup \<Rightarrow>
                   io_bind (io_get clConn) (\<lambda>oldConn.
                   io_bind (io_modify (install_session conn rack slot local remote setup)) (\<lambda>_.
                   case oldConn of
                     None \<Rightarrow> io_ret ()
                   | Some old \<Rightarrow> io_case (transport_Close E old) (\<lambda>_. io_ret ())))))) s))"
proof -
  have modify: "no_dial s (snd (io_modify (install_session conn rack slot l r su) s))" for s l r su
    by (simp add: no_dial_def dials_def install_session_def)
  show ?thesis
    by (auto intro!: nd.frame_case nd.frame_bind no_dial_close_and_fail no_dial_performCOTPConnect
        no_dial_performS7Setup modify no_dial_atoms nd.frame_pure simp del: io_run split: sum.split prod.split option.split)
qed

lemma dials_connectOnce: "dials (snd (connectOnce E cx rack slot s)) = dials s + 1"
proof -
  let ?a = "JoinHostPort (clHost s) (fmt_d (oPort (clOpts s)))" and ?t = "oTimeout (clOpts s)"
  obtain r t where d: "dialTransport E cx ?a ?t s = (r, t)" by (cases "dialTransport E cx ?a ?t s")
  then have n: "dials t = dials s + 1" using dials_dial [of E cx ?a ?t s] by simp
  show ?thesis
  proof (cases r)
    case None
    then show ?thesis using d by (simp add: dialTransport_def Let_def split: option.splits)
  next
    case (Some x)
    show ?thesis
    proof (cases x)
      case (Inl e)
      then show ?thesis using Some d n by (simp add: connectOnce_def Let_def)
    next
      case (Inr conn)
      then show ?thesis
        using Some d n no_dial_after_dial [where s = t and E = E and conn = conn and opts = "clOpts s" and rack = rack
            and slot = slot and cx = cx and a = "oMaxAmqCalling (clOpts s)" and b = "oMaxAmqCalled (clOpts s)"
            and m = "oMaxPDU (clOpts s)"]
        by (simp add: connectOnce_def Let_def no_dial_def)
    qed
  qed
qed

section \<open>One attempt\<close>

lemma discover_client_sel:
  "clOpts (discover_client ip port o' rack slot w) =
     defaultOptions\<lparr>oPort := port, oRack := rack, oSlot := slot, oTimeout := wrap64 (doTimeout o' * millisecond)\<rparr>"
  "clConn (discover_client ip port o' rack slot w) = None"
  "w_next (discover_client ip port o' rack slot w) = w_next w"
  "w_conns (discover_client ip port o' rack slot w) = w_conns w"
  "w_trace (discover_client ip port o' rack slot w) = w_trace w"
  by (simp_all add: discover_client_def New_def WithPort_def WithRackSlot_def WithTimeout_def)

lemma dials_Connect_manual:
  assumes "\<not> oAutoRackSlot (clOpts s)"
  shows "dials (snd (Connect E cx s)) \<le> dials s + 1"
proof -
  have log: "dials (snd (log_connect_error opts m s)) = dials (snd (m s))" for opts m
    by (auto simp: log_connect_error_def io_case_def dials_def split: prod.split option.split sum.split)
  show ?thesis using assms by (simp add: Connect_def Let_def log dials_connectOnce split: option.split)
qed

lemma no_dial_Close: "no_dial s (snd (Close E s))"
proof (cases "clConn s")
  case None
  then show ?thesis by (simp add: Close_def closeConnLocked_def nd.R_refl)
next
  case (Some c)
  then show ?thesis
    using no_dial_atoms(7) [of s E c]
    by (cases "transport_Close E c s") (simp add: Close_def closeConnLocked_def no_dial_def dials_def)
qed

definition attempt_info :: "int \<Rightarrow> int \<Rightarrow> ConnectionInfo \<Rightarrow> bool" where
  \<comment> \<open>the connection was made with this rack and slot\<close>
  "attempt_info rack slot info \<longleftrightarrow> ciRack info = rack \<and> ciSlot info = slot \<and>
     BuildTSAP 3 rack slot = Inr (ciRemoteTSAP info) \<and> 0 \<le> ciPDUSize info \<and> ciPDUSize info < 65536"

lemma Connect_discover_client:
  "Connect E cx (discover_client ip port o' rack slot w) =
     (case validate_connect (clOpts (discover_client ip port o' rack slot w)) of
        Some err \<Rightarrow> (Some (Inl err), discover_client ip port o' rack slot w)
      | None \<Rightarrow> connectOnce E cx rack slot (discover_client ip port o' rack slot w))"
  by (auto simp: Connect_def Let_def discover_client_sel defaultOptions_def log_connect_error_def io_case_def
      split: option.split prod.split sum.split)

lemma close_new_session:
  assumes "client_inv c0" "connectOnce E cx rack slot c0 = (Some (Inr ()), c1)" "clConn c0 = None"
  obtains x c2 where "Close E c1 = (Some x, c2)" "heap_wf c2" "w_next c2 = w_next c0 + 1" "dials c2 = dials c1"
    "\<And>p. p < w_next c0 \<Longrightarrow> w_conns c2 p = w_conns c0 p" "tConn (w_conns c2 (w_next c0)) = None"
proof -
  note result = that
  have hw: "heap_wf c0" using assms(1) by (simp add: client_inv_def)
  note ok = connectOnce_success [OF assms(1,2)]
  obtain x c2 where cl: "Close E c1 = (x, c2)" by (cases "Close E c1")
  note cr = Close_result [OF ok(1), where E = E, unfolded cl snd_conv fst_conv]
  obtain t where t: "keeps_session c0 t" "w_next t = w_next c0 + 1" "w_conns c1 = w_conns t" "w_next c1 = w_next t"
    using assms(2,3)
    by (cases rule: connectOnce_cases [OF hw, of E cx rack slot]) (auto simp: install_session_def)
  have c2: "w_next c2 = w_next c1" "\<And>p. p \<noteq> w_next c0 \<Longrightarrow> w_conns c2 p = w_conns c1 p"
    using cl ok(2) transport_Close_frame(1) [of E "w_next c0" c1] transport_Close_other [of _ "w_next c0" E c1]
    by (auto simp: Close_def closeConnLocked_def split: prod.splits)
  obtain y where y: "x = Some y" using cr(4) by blast
  show ?thesis
  proof (rule result [OF cl [unfolded y]])
    show "heap_wf c2" using cr(1) by (simp add: client_inv_def)
    show "w_next c2 = w_next c0 + 1" using c2(1) t(2,4) by simp
    show "dials c2 = dials c1" using no_dial_Close [of c1 E] cl by (simp add: no_dial_def)
    show "w_conns c2 p = w_conns c0 p" if "p < w_next c0" for p
      using that c2(2) t by (simp add: keeps_session_def)
    show "tConn (w_conns c2 (w_next c0)) = None" using cr(3) ok(2) by simp
  qed
qed

lemma discover_attempt_run:
  assumes "heap_wf w"
  obtains r t where "with_client (discover_attempt E cx) (discover_client ip port o' rack slot) w = (Some r, t)"
    "heap_wf t" "w_next w \<le> w_next t" "dials t \<le> dials w + 1"
    "\<And>p. p < w_next w \<Longrightarrow> w_conns t p = w_conns w p"
    "\<And>p. w_next w \<le> p \<Longrightarrow> p < w_next t \<Longrightarrow> tConn (w_conns t p) = None"
    "\<And>info. r = Inr info \<Longrightarrow> attempt_info rack slot info"
proof -
  note result = that
  let ?c = "discover_client ip port o' rack slot w"
  let ?with = "with_client (discover_attempt E cx) (discover_client ip port o' rack slot) w"
  have inv: "client_inv ?c" unfolding discover_client_def by (rule client_inv_New [OF assms])
  have hw: "heap_wf ?c" using inv by (simp add: client_inv_def)
  have sel: "w_next ?c = w_next w" "w_conns ?c = w_conns w" "dials ?c = dials w" "clConn ?c = None"
    by (simp_all add: discover_client_sel dials_def)
  have failed: thesis if run: "Connect E cx ?c = (Some (Inl e), c1)" and nn: "no_new_conn ?c c1"
    and wf: "heap_wf c1" and d: "dials c1 \<le> dials w + 1" for e c1
  proof -
    have "?with = (Some (Inl e), world.truncate c1)"
      using run by (simp add: with_client_def discover_attempt_def)
    then show ?thesis
      by (rule result) (use nn wf d sel in \<open>simp_all add: no_new_conn_def keeps_session_def world.defs heap_wf_def dials_def\<close>)
  qed
  show ?thesis
  proof (cases "validate_connect (clOpts ?c)")
    case (Some err)
    then have "Connect E cx ?c = (Some (Inl err), ?c)" by (simp add: Connect_discover_client)
    then show ?thesis by (rule failed) (simp_all add: nn.R_refl hw sel)
  next
    case None
    then have run: "Connect E cx ?c = connectOnce E cx rack slot ?c" by (simp add: Connect_discover_client)
    have d: "dials (snd (connectOnce E cx rack slot ?c)) = dials w + 1" by (simp add: dials_connectOnce sel)
    show ?thesis
    proof (cases rule: connectOnce_cases [OF hw, of E cx rack slot])
      case (1 e c1)
      show ?thesis by (rule failed [of e c1]) (use run d 1 in simp_all)
    next
      case (2 l r su t c1)
      obtain x c2 where c2: "Close E c1 = (Some x, c2)" "heap_wf c2" "w_next c2 = w_next ?c + 1" "dials c2 = dials c1"
        "\<And>p. p < w_next ?c \<Longrightarrow> w_conns c2 p = w_conns ?c p" "tConn (w_conns c2 (w_next ?c)) = None"
        using close_new_session [OF inv 2(1) sel(4)] by blast
      have info: "attempt_info rack slot (client_ConnectionInfo c1)"
        using connectOnce_success [OF inv 2(1)] 2(2) None
        by (auto simp: attempt_info_def client_ConnectionInfo_def connect_TSAPs_def discover_client_sel
            defaultOptions_def client_inv_def split: sum.splits)
      have "?with = (Some (Inr (client_ConnectionInfo c1)), world.truncate c2)"
        using run 2(1) c2(1) by (simp add: with_client_def discover_attempt_def io_case_def)
      then show ?thesis
        by (rule result) (use c2 d 2(1) info sel in \<open>auto simp: world.defs heap_wf_def dials_def less_Suc_eq\<close>)
    qed
  qed
qed

section \<open>One host\<close>

definition probed :: "nat \<Rightarrow> world \<Rightarrow> world \<Rightarrow> bool" where
  \<comment> \<open>at most \<open>n\<close> dials, and every connection opened is closed\<close>
  "probed n s t \<longleftrightarrow> heap_wf t \<and> w_next s \<le> w_next t \<and> dials t \<le> dials s + n \<and>
     (\<forall>p<w_next s. w_conns t p = w_conns s p) \<and>
     (\<forall>p. w_next s \<le> p \<longrightarrow> p < w_next t \<longrightarrow> tConn (w_conns t p) = None)"

lemma probed_trans:
  assumes "probed m s t" "probed n t u" "m + n \<le> k"
  shows "probed k s u"
proof -
  have "tConn (w_conns u p) = None" if "w_next s \<le> p" "p < w_next u" for p
    using that assms(1,2) by (cases "p < w_next t") (auto simp: probed_def)
  then show ?thesis using assms by (simp add: probed_def)
qed

definition before_attempt ::
    "(nat \<Rightarrow> int \<Rightarrow> int) \<Rightarrow> ctx \<Rightarrow> discoverOpts \<Rightarrow> nat \<Rightarrow> (world, unit) io" where
  "before_attempt rnd cx o' k =
     io_bind (ctx_check cx) (\<lambda>_. io_bind (jitter_wait rnd cx o' k) (\<lambda>_. rate_wait cx o'))"

lemma jitter_rate_frames:
  "only_trace s (snd (jitter_wait rnd cx o' k s))" "no_dial s (snd (jitter_wait rnd cx o' k s))"
  "only_trace s (snd (rate_wait cx o' s))" "no_dial s (snd (rate_wait cx o' s))"
  by (auto simp: jitter_wait_def rate_wait_def only_trace_sleep no_dial_sleep tr.R_refl nd.R_refl split: option.split)

lemma np_sleep: "no_panic (ctx_sleep cx d) s"
  unfolding ctx_sleep_def no_panic_def by (cases "ctx_wait cx (w_trace s) d") simp_all

lemma np_rate: "no_panic (rate_wait cx o') s"
  by (simp add: rate_wait_def np_sleep)

lemma before_attempt_run:
  assumes "doJitterMS o' < 2 ^ 63 - 1" "heap_wf s"
  obtains r t where "before_attempt rnd cx o' k s = (Some r, t)" "probed 0 s t"
proof -
  obtain j where "jitter_of rnd (doJitterMS o') k = Some j" using jitter_of_total [OF assms(1)] by blast
  then have "no_panic (jitter_wait rnd cx o' k) s" for s :: world
    by (simp add: jitter_wait_def np_sleep)
  then have "no_panic (before_attempt rnd cx o' k) s"
    unfolding before_attempt_def
    by (intro np_bind np_rate) (simp_all add: ctx_check_def no_panic_def)
  then obtain r t where run: "before_attempt rnd cx o' k s = (Some r, t)"
    by (cases "before_attempt rnd cx o' k s") (auto simp: no_panic_def)
  have "only_trace s (snd (before_attempt rnd cx o' k s))" "no_dial s (snd (before_attempt rnd cx o' k s))"
    unfolding before_attempt_def
    by (intro tr.frame_bind nd.frame_bind only_trace_atoms no_dial_atoms jitter_rate_frames)+
  then have "probed 0 s t"
    using run assms(2) only_trace_sel(1,2) [of s t] heap_wf_only_trace [of s t] by (simp add: probed_def no_dial_def)
  then show ?thesis using that run by blast
qed

definition host_result :: "string \<Rightarrow> int \<Rightarrow> (int \<times> int) set \<Rightarrow> DiscoverResult \<Rightarrow> bool" where
  "host_result ip port pairs r \<longleftrightarrow> drIP r = ip \<and> drPort r = port \<and>
     (if drIsS7 r
      then (drRack r, drSlot r) \<in> pairs \<and> drError r = '''' \<and> drAbandonedReason r = '''' \<and>
        0 \<le> drPDUSize r \<and> drPDUSize r < 65536 \<and>
        (\<exists>tsap. BuildTSAP 3 (drRack r) (drSlot r) = Inr tsap \<and> drTSAP r = ''0x'' @ fmt04X tsap)
      else drAbandonedReason r \<in> {'''', ''max_attempts'', ''context_canceled''} \<and>
        (drAbandonedReason r = '''' \<longrightarrow> drError r = ''no valid COTP+S7 setup for tested rack/slot range''))"

definition new_result :: "string \<Rightarrow> int \<Rightarrow> DiscoverResult" where
  "new_result ip port = zero_DiscoverResult\<lparr>drIP := ip, drPort := port\<rparr>"

definition attempts_left :: "discoverOpts \<Rightarrow> nat \<Rightarrow> nat \<Rightarrow> nat" where
  "attempts_left o' k n =
     (if doMaxAttemptsPerHost o' > 0 then min (nat (doMaxAttemptsPerHost o') - k) n else n)"

text \<open>One round of the loop: what precedes the attempt has run.\<close>

lemma probe_pairs_round:
  assumes "\<not> (doMaxAttemptsPerHost o' > 0 \<and> int k \<ge> doMaxAttemptsPerHost o')"
    and "before_attempt rnd cx o' k s = (Some (Inr ()), t)"
    and "with_client (discover_attempt E cx) (discover_client ip port o' rack slot) t = (Some x, v)"
  shows "probe_pairs rnd E cx ip port o' ((rack, slot) # pairs) k result s =
    (case x of
       Inl _ \<Rightarrow> probe_pairs rnd E cx ip port o' pairs (k + 1) result v
     | Inr info \<Rightarrow>
         (Some (Inr (result\<lparr>drIsS7 := True, drRack := ciRack info, drSlot := ciSlot info,
            drPDUSize := ciPDUSize info, drTSAP := ''0x'' @ fmt04X (ciRemoteTSAP info)\<rparr>)), v))"
  using assms(2,3) unfolding before_attempt_def
  by (simp only: probe_pairs.simps if_not_P [OF assms(1)] io_case_def prod.case option.case sum.case)
     (cases x; simp)

lemma probe_pairs_ended:
  assumes "\<not> (doMaxAttemptsPerHost o' > 0 \<and> int k \<ge> doMaxAttemptsPerHost o')"
    and "before_attempt rnd cx o' k s = (Some (Inl err), t)"
  shows "probe_pairs rnd E cx ip port o' ((rack, slot) # pairs) k result s = (Some (Inr (abandoned err result)), t)"
  using assms(2) unfolding before_attempt_def
  by (simp add: if_not_P [OF assms(1)] io_case_def del: de_Morgan_conj not_less not_le)

lemma probe_pairs_run:
  assumes "doJitterMS o' < 2 ^ 63 - 1"
  shows "heap_wf s \<Longrightarrow> set pairs \<subseteq> P \<Longrightarrow> \<exists>r t. probe_pairs rnd E cx ip port o' pairs k (new_result ip port) s = (Some (Inr r), t) \<and>
    probed (attempts_left o' k (length pairs)) s t \<and> host_result ip port P r"
proof (induction pairs arbitrary: k s)
  case Nil
  then show ?case
    by (simp add: probed_def attempts_left_def host_result_def new_result_def zero_DiscoverResult_def)
next
  case (Cons pair pairs)
  obtain rack slot where pair: "pair = (rack, slot)" by (cases pair)
  have refl: "probed n s s" for n using Cons.prems(1) by (simp add: probed_def)
  obtain r t where b: "before_attempt rnd cx o' k s = (Some r, t)" "probed 0 s t"
    by (rule before_attempt_run [OF assms Cons.prems(1)])
  then have "heap_wf t" by (simp add: probed_def)
  then obtain x v where a: "with_client (discover_attempt E cx) (discover_client ip port o' rack slot) t = (Some x, v)"
    "probed 1 t v" "\<And>info. x = Inr info \<Longrightarrow> attempt_info rack slot info"
    by (rule discover_attempt_run [of t E cx ip port o' rack slot]) (auto simp: probed_def)
  have sv: "probed 1 s v" by (rule probed_trans [OF b(2) a(2)]) simp
  show ?case
  proof (cases "doMaxAttemptsPerHost o' > 0 \<and> int k \<ge> doMaxAttemptsPerHost o'")
    case True
    then show ?thesis
      using refl by (simp add: pair host_result_def new_result_def zero_DiscoverResult_def)
  next
    case False
    then have left: "attempts_left o' k (length (pair # pairs)) = Suc (attempts_left o' (k + 1) (length pairs))"
      by (auto simp: attempts_left_def)
    consider (ended) err where "r = Inl err" | (failed) e where "r = Inr ()" "x = Inl e"
      | (found) info where "r = Inr ()" "x = Inr info"
      by (cases r; cases x) auto
    then show ?thesis
    proof cases
      case (ended err)
      show ?thesis
        unfolding pair probe_pairs_ended [OF False b(1) [unfolded ended]]
        using b(2) by (auto simp: abandoned_def host_result_def new_result_def zero_DiscoverResult_def probed_def)
    next
      case (failed e)
      have "heap_wf v" using sv by (simp add: probed_def)
      then obtain r' w where w: "probe_pairs rnd E cx ip port o' pairs (k + 1) (new_result ip port) v = (Some (Inr r'), w)"
        "probed (attempts_left o' (k + 1) (length pairs)) v w" "host_result ip port P r'"
        using Cons.IH [of v "k + 1"] Cons.prems(2) by auto
      have "probed (attempts_left o' k (length (pair # pairs))) s w"
        by (rule probed_trans [OF sv w(2)]) (simp only: left Suc_eq_plus1_left)
      then show ?thesis
        unfolding pair probe_pairs_round [OF False b(1) [unfolded failed] a(1)] failed using w(1,3) by simp
    next
      case (found info)
      have "probed (attempts_left o' k (length (pair # pairs))) s v"
        using sv unfolding left by (auto simp: probed_def)
      then show ?thesis
        unfolding pair probe_pairs_round [OF False b(1) [unfolded found] a(1)] found
        using Cons.prems(2) a(3) [OF found(2)]
        by (auto simp: host_result_def attempt_info_def pair new_result_def zero_DiscoverResult_def)
    qed
  qed
qed

lemma probeS7_run:
  assumes "heap_wf s" "doJitterMS o' < 2 ^ 63 - 1"
  shows "\<exists>r t. probeS7 rnd E cx ip port o' s = (Some (Inr r), t) \<and>
    probed (attempts_left o' 0 (length (discover_pairs o'))) s t \<and>
    host_result ip port (set (discover_pairs o')) r"
  using probe_pairs_run [OF assms(2,1) subset_refl] by (simp add: probeS7_def new_result_def)

lemma discover_pairs_length:
  "length (discover_pairs o') = nat (doRackMax o' - doRackMin o' + 1) * nat (doSlotMax o' - doSlotMin o' + 1)"
  by (simp add: discover_pairs_def length_concat sum_list_triv comp_def)

lemma discover_pairs_set:
  "set (discover_pairs o') = {doRackMin o'..doRackMax o'} \<times> {doSlotMin o'..doSlotMax o'}"
  by (auto simp: discover_pairs_def)

text \<open>A host that takes the call and grants a session is found with the first candidate.\<close>

lemma before_attempt_live:
  assumes "ctx_live cx" "doJitterMS o' < 2 ^ 63 - 1"
  obtains evs where "before_attempt rnd cx o' k s = (Some (Inr ()), grow s evs)" "tx_of evs = []"
proof -
  have sleep: "ctx_sleep cx d s = (Some (Inr ()), grow s [EvWait d])" for d and s :: world
    using assms(1) by (simp add: ctx_sleep_def ctx_live_def)
  obtain j where "jitter_of rnd (doJitterMS o') k = Some j" using jitter_of_total [OF assms(2)] by blast
  then have j: "\<exists>evs. jitter_wait rnd cx o' k s = (Some (Inr ()), grow s evs) \<and> tx_of evs = []" for s :: world
    by (auto simp: jitter_wait_def sleep intro: exI [of _ "[]"] exI [of _ "[EvWait x]" for x])
  have r: "\<exists>evs. rate_wait cx o' s = (Some (Inr ()), grow s evs) \<and> tx_of evs = []" for s :: world
    by (auto simp: rate_wait_def sleep intro: exI [of _ "[]"] exI [of _ "[EvWait x]" for x])
  have c: "ctx_check cx s = (Some (Inr ()), s)" using assms(1) by (simp add: ctx_check_def ctx_live_def)
  obtain e1 where e1: "jitter_wait rnd cx o' k s = (Some (Inr ()), grow s e1)" "tx_of e1 = []" using j by blast
  obtain e2 where e2: "rate_wait cx o' (grow s e1) = (Some (Inr ()), grow (grow s e1) e2)" "tx_of e2 = []"
    using r by blast
  have "before_attempt rnd cx o' k s = (Some (Inr ()), grow s (e1 @ e2))"
    using c e1 e2 by (simp add: before_attempt_def)
  then show ?thesis by (rule that) (simp add: e1 e2)
qed

lemma with_client_attempt:
  assumes "Connect E cx (new w) = (Some (Inr ()), c)" "client_inv c"
  shows "\<exists>t. with_client (discover_attempt E cx) new w = (Some (Inr (client_ConnectionInfo c)), t)"
proof -
  obtain x c2 where cl: "Close E c = (x, c2)" by (cases "Close E c")
  have "x \<noteq> None" using Close_result(4) [OF assms(2), of E] cl by simp
  then show ?thesis using assms(1) cl by (auto simp: with_client_def discover_attempt_def io_case_def)
qed

lemma probeS7_live:
  assumes "heap_wf s" "ctx_live cx" "answers E step st0" "greets E" "doJitterMS o' < 2 ^ 63 - 1"
    and "doRackMin o' \<le> doRackMax o'" "doSlotMin o' \<le> doSlotMax o'"
    and "ValidateRackSlot (doRackMin o') (doSlotMin o') = None" "0 \<le> wrap64 (doTimeout o' * millisecond)" "0 \<le> port"
    and "grants step (state_of E step st0 s) (EncodeSetupCommRequest 1 1 1 480) 1 su"
  shows "\<exists>r t. probeS7 rnd E cx ip port o' s = (Some (Inr r), t) \<and> drIsS7 r \<and> drIP r = ip \<and>
    drRack r = doRackMin o' \<and> drSlot r = doSlotMin o' \<and> drPDUSize r = scPDUSize su"
proof -
  let ?rack = "doRackMin o'" and ?slot = "doSlotMin o'"
  obtain pairs where pairs: "discover_pairs o' = (?rack, ?slot) # pairs"
    using assms(6,7) by (simp add: discover_pairs_def upto_rec1)
  obtain evs where b: "before_attempt rnd cx o' 0 s = (Some (Inr ()), grow s evs)" "tx_of evs = []"
    by (rule before_attempt_live [OF assms(2,5)])
  let ?s = "grow s evs" and ?c = "discover_client ip port o' ?rack ?slot (grow s evs)"
  have inv: "client_inv ?c"
    unfolding discover_client_def by (rule client_inv_New) (use assms(1) in \<open>simp add: heap_wf_def\<close>)
  have v: "validate_connect (clOpts ?c) = None"
    using assms(8-10) by (simp add: validate_connect_def discover_client_sel defaultOptions_def ValidateRackSlot_None_iff)
  have st: "state_of E step st0 ?c = state_of E step st0 s"
    using b(2) by (simp add: state_of_def discover_client_sel)
  have sel: "oMaxAmqCalling (clOpts ?c) = 1" "oMaxAmqCalled (clOpts ?c) = 1" "oMaxPDU (clOpts ?c) = 480"
    "first_choice (clOpts ?c) = (?rack, ?slot)"
    by (simp_all add: discover_client_sel defaultOptions_def first_choice_def)
  obtain c where c: "Connect E cx ?c = (Some (Inr ()), c)" "client_inv c" "clRack c = ?rack" "clSlot c = ?slot"
    "clPduSize c = scPDUSize su"
    using Connect_live [OF inv assms(2-4) v, of su] assms(11) unfolding sel st by auto
  obtain t where t: "with_client (discover_attempt E cx) (discover_client ip port o' ?rack ?slot) ?s =
      (Some (Inr (client_ConnectionInfo c)), t)"
    using with_client_attempt [where new = "discover_client ip port o' ?rack ?slot" and w = ?s, OF c(1,2)] by blast
  have "probeS7 rnd E cx ip port o' s =
      (Some (Inr ((zero_DiscoverResult\<lparr>drIP := ip, drPort := port\<rparr>)\<lparr>drIsS7 := True, drRack := ?rack,
         drSlot := ?slot, drPDUSize := scPDUSize su, drTSAP := ''0x'' @ fmt04X (clRemoteTSAP c)\<rparr>)), t)"
    using b(1) t c(3-5)
    by (auto simp: probeS7_def pairs io_case_def before_attempt_def [symmetric] client_ConnectionInfo_def)
  then show ?thesis by simp
qed

section \<open>All hosts\<close>

lemma cidr_addresses_block:
  assumes "check_block L cidr = Inr (blk, h)"
  shows "cidr_addresses L cidr =
    block_hosts L (be32 (inIP blk ! 0) (inIP blk ! 1) (inIP blk ! 2) (inIP blk ! 3)) h"
proof -
  have "send_all (\<lambda>ip ips. (True, ips @ [ip])) xs acc = (True, acc @ xs)" for xs acc :: "string list"
    by (induction xs arbitrary: acc) auto
  then show ?thesis by (simp add: cidr_addresses_def streamCIDR_block [OF assms])
qed

lemma count_pass_ok:
  assumes "count_pass L cancelAt ctxErr cidr = (None, n)"
  shows "n = length (cidr_addresses L cidr)" "\<exists>b. check_block L cidr = Inr b"
proof -
  let ?send = "\<lambda>_ count. case cancelAt of None \<Rightarrow> (True, count + 1)
    | Some k \<Rightarrow> if k \<le> count then (False, count) else (True, count + 1)"
  obtain blk h where b: "check_block L cidr = Inr (blk, h)"
    using assms by (auto simp: count_pass_def streamCIDR_def split: sum.splits)
  then show "\<exists>b. check_block L cidr = Inr b" by blast
  have all: "send_all ?send xs a = (True, m) \<Longrightarrow> m = a + length xs" for xs :: "string list" and a m :: nat
  proof (induction xs arbitrary: a)
    case (Cons x xs)
    then have "send_all ?send xs (a + 1) = (True, m)" by (auto split: option.splits if_splits)
    from Cons.IH [OF this] show ?case by simp
  qed simp
  show "n = length (cidr_addresses L cidr)"
    using assms all [of _ 0 n]
    by (auto simp: count_pass_def streamCIDR_block [OF b] cidr_addresses_block [OF b] split: prod.splits bool.splits)
qed

lemma count_pass_live:
  assumes "check_block L cidr = Inr b"
  shows "count_pass L None ctxErr cidr = (None, length (cidr_addresses L cidr))"
proof -
  obtain blk h where b: "check_block L cidr = Inr (blk, h)" using assms by (cases b) simp
  have all: "send_all (\<lambda>_ count. (True, count + 1)) xs a = (True, a + length xs)" for xs :: "string list" and a :: nat
    by (induction xs arbitrary: a) auto
  show ?thesis by (simp add: count_pass_def streamCIDR_block [OF b] cidr_addresses_block [OF b] all [where a = 0, simplified])
qed

interpretation dp: job_channel "discover_pipe vs o' ips" for vs o' ips
  by unfold_locales (auto simp: discover_pipe_def Let_def)

definition discover_options :: "DiscoverOption list \<Rightarrow> discoverOpts" where
  "discover_options opts = apply_safety (fold (\<lambda>f o'. f o') opts default_discoverOpts)"

lemma host_work_total:
  assumes "heap_wf (hvWorld v)" "doJitterMS o' < 2 ^ 63 - 1"
  shows "\<exists>r. host_work v o' ip = Some r \<and> host_result ip 102 (set (discover_pairs o')) r"
  using probeS7_run [OF assms, of "hvRnd v" "hvEnv v" "hvCtx v" ip 102] by (auto simp: host_work_def)

lemma Discover_spec:
  assumes "Discover L vs cancelAt ctxErr finalErr sched cidr opts = Some (Inr (results, err))"
    and "\<And>i. heap_wf (hvWorld (vs i))" "doJitterMS (discover_options opts) < 2 ^ 63 - 1"
  shows "length results = length (cidr_addresses L cidr) \<and>
    (\<forall>i<length results. results ! i = zero_DiscoverResult \<and> CancelContext \<in> set sched \<or>
       host_result (cidr_addresses L cidr ! i) 102 (set (discover_pairs (discover_options opts))) (results ! i))"
proof -
  let ?ips = "cidr_addresses L cidr" and ?o = "discover_options opts"
  let ?cfg = "discover_pipe vs ?o ?ips"
  obtain n where n: "count_pass L cancelAt ctxErr cidr = (None, n)"
    using assms(1) by (auto simp: Discover_def Let_def split: option.splits prod.splits)
  note len = count_pass_ok(1) [OF n]
  have cfg: "pipeJobs ?cfg = length ?ips" "pipeWork ?cfg = (\<lambda>i. host_work (vs i) ?o (?ips ! i))"
    by (simp_all add: discover_pipe_def Let_def)
  show ?thesis
  proof (cases "n = 0")
    case True
    then show ?thesis using assms(1) n len by (auto simp: Discover_def Let_def split: option.splits)
  next
    case False
    then obtain p where p: "pipe_run ?cfg sched (pipe_init ?cfg) = Some p" "pipe_finished p"
      "results = map (case_option zero_DiscoverResult id) (jqSlots p)"
      using assms(1) n by (auto simp: Discover_def Let_def discover_options_def split: option.splits if_splits)
    note res = dp.results [OF p(1,2), unfolded cfg]
    have "results ! i = zero_DiscoverResult \<and> CancelContext \<in> set sched \<or>
        host_result (?ips ! i) 102 (set (discover_pairs ?o)) (results ! i)" if "i < length results" for i
    proof -
      have i: "i < length ?ips" using that p(3) res(1) by simp
      obtain r where r: "host_work (vs i) ?o (?ips ! i) = Some r" "host_result (?ips ! i) 102 (set (discover_pairs ?o)) r"
        using host_work_total [OF assms(2,3)] by blast
      show ?thesis using res(2) [OF i] res(3) i p(3) r res(1) by (cases "CancelContext \<in> set sched") auto
    qed
    then show ?thesis using p(3) res(1) by simp
  qed
qed

lemma Discover_completes:
  assumes "\<And>i. heap_wf (hvWorld (vs i))" "doJitterMS (discover_options opts) < 2 ^ 63 - 1"
    and "validate_discover (discover_options opts) = None" "check_block L cidr = Inr b"
  shows "\<exists>sched results. CancelContext \<notin> set sched \<and>
    Discover L vs None ctxErr None sched cidr opts = Some (Inr (results, None))"
proof -
  let ?ips = "cidr_addresses L cidr" and ?o = "discover_options opts"
  let ?cfg = "discover_pipe vs ?o ?ips"
  note n = count_pass_live [OF assms(4), of ctxErr]
  have "\<forall>i<pipeJobs ?cfg. pipeWork ?cfg i \<noteq> None"
    using host_work_total [OF assms(1,2)] by (fastforce simp: discover_pipe_def Let_def)
  from dp.completes [OF this dp.pipe_inv_init]
  obtain as p where "CancelContext \<notin> set as" "pipe_run ?cfg as (pipe_init ?cfg) = Some p" "pipe_finished p"
    by blast
  then show ?thesis
    using assms(3) n by (intro exI [of _ as]) (auto simp: Discover_def Let_def discover_options_def)
qed

lemma cidr_addresses_text:
  assumes "12 \<le> n" "n \<le> 32"
  shows "cidr_addresses L (cidr_text L w n) =
    block_hosts L (w AND net_mask (32 - n)) (32 - n)"
proof -
  have "check_block L (cidr_text L w n) =
      Inr (\<lparr>inIP = put32 (w AND net_mask (32 - n)), inMask = put32 (net_mask (32 - n))\<rparr>, 32 - n)"
    using assms(1) by (simp add: ParseCIDR_text_facts(2) [OF assms(2)])
  from cidr_addresses_block [OF this] show ?thesis by (simp only: IPNet.simps be32_bytes)
qed

lemma discover_pipe_sel:
  "pipeJobs (discover_pipe vs o' ips) = length ips" "pipeWorkers (discover_pipe vs o' ips) = nat (max 1 (doParallel o'))"
  "pipeBuffer (discover_pipe vs o' ips) = 2 * nat (max 1 (doParallel o'))"
  "pipeWork (discover_pipe vs o' ips) i = host_work (vs i) o' (ips ! i)"
  by (auto simp: discover_pipe_def Let_def max_def nat_mult_distrib)

lemma discover_pipe_ends:
  assumes "\<And>i. heap_wf (hvWorld (vs i))" "doJitterMS o' < 2 ^ 63 - 1"
    and "pipe_run (discover_pipe vs o' ips) steps (pipe_init (discover_pipe vs o' ips)) = Some q"
  shows "length (jqBusy q) \<le> nat (max 1 (doParallel o')) \<and> length (jqQueue q) \<le> 2 * nat (max 1 (doParallel o')) \<and>
    (pipe_finished q \<or> (\<exists>a. a \<noteq> CancelContext \<and> pipe_step (discover_pipe vs o' ips) a q \<noteq> None)) \<and>
    length (filter (\<lambda>a. a \<noteq> CancelContext) steps) \<le> 4 * length ips + 1 + nat (max 1 (doParallel o'))"
proof -
  let ?cfg = "discover_pipe vs o' ips"
  have "\<forall>i<pipeJobs ?cfg. pipeWork ?cfg i \<noteq> None"
    using host_work_total [OF assms(1,2)] by (fastforce simp: discover_pipe_sel)
  note go = dp.progress [OF dp.pipe_inv_run [OF assms(3) dp.pipe_inv_init] _ this]
  have "dp.work_left vs o' ips (pipe_init ?cfg) = 4 * length ips + 1 + nat (max 1 (doParallel o'))"
    by (simp add: dp.work_left_def pipe_init_def discover_pipe_sel)
  then have "length (filter (\<lambda>a. a \<noteq> CancelContext) steps) \<le> 4 * length ips + 1 + nat (max 1 (doParallel o'))"
    using dp.schedule_bound [OF assms(3)] by linarith
  then show ?thesis using go dp.bounded [OF assms(3)] unfolding discover_pipe_sel by blast
qed

lemma Discover_addresses:
  assumes "Discover L vs cancelAt ctxErr finalErr sched cidr opts = Some (Inr (results, err))"
    and "\<And>i. heap_wf (hvWorld (vs i))" "doJitterMS (discover_options opts) < 2 ^ 63 - 1" "CancelContext \<notin> set sched"
  shows "map drIP results = cidr_addresses L cidr"
  using Discover_spec [OF assms(1-3)] assms(4) by (intro nth_equalityI) (auto simp: host_result_def)

lemma Discover_entry:
  assumes "Discover L vs cancelAt ctxErr finalErr sched cidr opts = Some (Inr (results, err))" "CancelContext \<notin> set sched"
    and "i < length results"
  shows "host_work (vs i) (discover_options opts) (cidr_addresses L cidr ! i) = Some (results ! i)"
proof -
  let ?ips = "cidr_addresses L cidr" and ?o = "discover_options opts"
  let ?cfg = "discover_pipe vs ?o ?ips"
  obtain n where n: "count_pass L cancelAt ctxErr cidr = (None, n)"
    using assms(1) by (auto simp: Discover_def Let_def split: option.splits prod.splits)
  have "results = []" if "n = 0" using that assms(1) n by (auto simp: Discover_def Let_def split: option.splits)
  then have "n \<noteq> 0" using assms(3) by fastforce
  then obtain p where p: "pipe_run ?cfg sched (pipe_init ?cfg) = Some p" "pipe_finished p"
    "results = map (case_option zero_DiscoverResult id) (jqSlots p)"
    using assms(1) n by (auto simp: Discover_def Let_def discover_options_def split: option.splits if_splits)
  note res = dp.results(3) [OF p(1,2) assms(2), unfolded discover_pipe_sel]
  have i: "i < length ?ips" using assms(3) p(3) res by simp
  then obtain r where "host_work (vs i) ?o (?ips ! i) = Some r" using res by blast
  then show ?thesis using i p(3) res by (simp add: discover_pipe_sel)
qed

lemma discover_pairs_first:
  assumes "validate_discover o' = None"
  shows "doRackMin o' \<le> doRackMax o'" "doSlotMin o' \<le> doSlotMax o'"
  using assms by (auto simp: validate_discover_def split: if_splits)

lemma Discover_live:
  assumes "Discover L vs cancelAt ctxErr finalErr sched cidr opts = Some (Inr (results, err))" "CancelContext \<notin> set sched"
    and "\<And>i. heap_wf (hvWorld (vs i))" "doJitterMS (discover_options opts) < 2 ^ 63 - 1"
    and "ValidateRackSlot (doRackMin (discover_options opts)) (doSlotMin (discover_options opts)) = None"
    and "0 \<le> wrap64 (doTimeout (discover_options opts) * millisecond)"
    and "i < length results" "ctx_live (hvCtx (vs i))" "serves (hvEnv (vs i)) m" "greets (hvEnv (vs i))"
  shows "drIP (results ! i) = cidr_addresses L cidr ! i \<and> drIsS7 (results ! i) \<and>
    drRack (results ! i) = doRackMin (discover_options opts) \<and> drSlot (results ! i) = doSlotMin (discover_options opts) \<and>
    drPDUSize (results ! i) = 480"
proof -
  let ?o = "discover_options opts" and ?ip = "cidr_addresses L cidr ! i"
  have v: "validate_discover ?o = None"
    using assms(1) by (auto simp: Discover_def Let_def discover_options_def split: option.splits)
  have grants: "grants plc_exec (state_of (hvEnv (vs i)) plc_exec m (hvWorld (vs i))) (EncodeSetupCommRequest 1 1 1 480) 1
      \<lparr>scMaxAmqCalling = 1 mod 65536, scMaxAmqCalled = 1 mod 65536, scPDUSize = 480 mod 65536\<rparr>"
    by (rule plc_grants)
  obtain r t where "probeS7 (hvRnd (vs i)) (hvEnv (vs i)) (hvCtx (vs i)) ?ip 102 ?o (hvWorld (vs i)) = (Some (Inr r), t)"
    "drIsS7 r" "drIP r = ?ip" "drRack r = doRackMin ?o" "drSlot r = doSlotMin ?o" "drPDUSize r = 480"
    using probeS7_live [OF assms(3) assms(8-10,4) discover_pairs_first [OF v] assms(5,6) _ grants, of 102 "hvRnd (vs i)" ?ip]
    by auto
  then show ?thesis using Discover_entry [OF assms(1,2,7)] by (simp add: host_work_def)
qed

end
