(* ===== verification/Example_Probe.thy ===== *)
theory Example_Probe
  imports Example_Session Discover_Props
begin

text \<open>
  Concrete requests on which the properties of the comparison, of the probe and of the discovery are
  evaluated, all against the target of \<open>Example_Session\<close>.
\<close>

lemma ex_world_wf: "heap_wf ex_world"
  by (simp add: heap_wf_def ex_world_def conn_wf_def)

section \<open>A comparison of three candidates\<close>

definition ex_compare :: CompareReadRequest where
  "ex_compare =
     \<lparr>crAddress = ''plc'', crPort = 0, crCandidates = [RackSlot 0 2, RackSlot 0 1, RackSlot 1 3], crArea = AreaDB,
      crDBNumber = 1, crOffset = 0, crSize = 16, crTimeout = 0, crParallelism = 2\<rparr>"

definition ex_compare_pool :: "CompareReadCandidate pool_config" where
  "ex_compare_pool =
     compare_pool (\<lambda>_. ex_env plc_exec ex_mem) (\<lambda>_. context_background) (\<lambda>_. ex_world) (Sentinel DeadlineExceeded)
       ex_compare"

lemma ex_blank: "\<not> blank ''plc''"
  by code_simp

lemma ex_compare_valid: "validateCompareReadRequest ex_compare = None"
  by (simp add: ex_compare_def validateCompareReadRequest_def ex_blank ValidateRackSlot_def)

lemma ex_compare_starts: "\<exists>p. pool_run ex_compare_pool [Start, Start] (pool_init ex_compare_pool) = Some p"
  by (simp add: ex_compare_pool_def compare_pool_def ex_compare_def pool_init_def loop_at_def)

section \<open>A discovery of two hosts\<close>

definition ex_view :: host_view where
  "ex_view =
     \<lparr>hvRnd = (\<lambda>k n. 0), hvEnv = ex_env plc_exec ex_mem, hvCtx = context_background, hvWorld = ex_world\<rparr>"

definition ex_discover_pipe :: "DiscoverResult pipe_config" where
  "ex_discover_pipe = discover_pipe (\<lambda>_. ex_view) default_discoverOpts [''10.0.0.5'', ''10.0.0.6'']"

definition ex_ip6 :: ip6_lib where
  "ex_ip6 = \<lparr>parse6 = (\<lambda>_. None), string6 = (\<lambda>_. '''')\<rparr>"

lemma ex_view_wf: "heap_wf (hvWorld ex_view)"
  by (simp add: ex_view_def ex_world_wf)

lemma ex_discover_starts: "\<exists>q. pipe_run ex_discover_pipe [Produce, Take, Produce] (pipe_init ex_discover_pipe) = Some q"
  by (simp add: ex_discover_pipe_def discover_pipe_def default_discoverOpts_def pipe_init_def Let_def)

lemma ex_cidr: "cidr_text ex_ip6 0x0A000005 30 = ''10.0.0.5/30''"
  by code_simp

lemma ex_cidr_hosts: "block_hosts ex_ip6 (0x0A000005 AND net_mask (32 - 30)) (32 - 30) = [''10.0.0.5'', ''10.0.0.6'']"
  by code_simp

lemma ex_check_block: "\<exists>b. check_block ex_ip6 ''10.0.0.5/30'' = Inr b"
  using ParseCIDR_text_facts(2) [of 30 ex_ip6 "0x0A000005"] by (simp add: ex_cidr)

lemma ex_addresses: "cidr_addresses ex_ip6 ''10.0.0.5/30'' = [''10.0.0.5'', ''10.0.0.6'']"
  using cidr_addresses_text [of 30 ex_ip6 "0x0A000005"] by (simp add: ex_cidr ex_cidr_hosts [simplified])

lemma ex_discover_options: "discover_options [] = default_discoverOpts\<lparr>doSafetyMode := SafetyNormal\<rparr>"
  by (simp add: discover_options_def apply_safety_def default_discoverOpts_def Let_def SafetyNormal_def SafetyConservative_def SafetyAggressive_def)

lemma ex_discover_valid: "validate_discover (discover_options []) = None"
  by (simp add: ex_discover_options validate_discover_def default_discoverOpts_def)

section \<open>Probes\<close>

definition ex_probe :: RackSlotProbeRequest where
  "ex_probe = DefaultRackSlotProbeRequest ''plc''"

definition ex_gentle :: RackSlotProbeRequest where
  \<comment> \<open>in conservative mode, with the mode's own delay and parallelism\<close>
  "ex_gentle = ex_probe\<lparr>rqSafetyMode := SafetyConservative, rqParallelism := 0\<rparr>"

definition ex_gentle_pool :: "RackSlotCandidate pool_config" where
  "ex_gentle_pool =
     probe_pool (\<lambda>k n. 0) (\<lambda>_. ex_env plc_exec ex_mem) (\<lambda>_. context_background) (\<lambda>_. ex_world)
       (applyProbeDefaults ex_gentle)"

lemmas ex_probe_defs = ex_probe_def DefaultRackSlotProbeRequest_def applyProbeDefaults_def Let_def

lemma ex_probe_defaults: "applyProbeDefaults ex_probe = ex_probe"
  by (simp add: ex_probe_defs second_def SafetyNormal_def SafetyConservative_def)

lemma ex_probe_valid: "validateRackSlotProbeRequest ex_probe = None"
  by (simp add: ex_probe_defs validateRackSlotProbeRequest_def ex_blank second_def)

lemma ex_probe_strict_valid: "validateRackSlotProbeRequest (applyProbeDefaults (ex_probe\<lparr>rqStrict := True\<rparr>)) = None"
  by (simp add: ex_probe_defs validateRackSlotProbeRequest_def ex_blank second_def)

lemma ex_gentle_facts:
  "rqDelayMS (applyProbeDefaults ex_gentle) = 50" "rqParallelism (applyProbeDefaults ex_gentle) = 2"
  "rqJitterMS (applyProbeDefaults ex_gentle) = 0"
  "validateRackSlotProbeRequest (applyProbeDefaults ex_gentle) = None"
  by (simp_all add: ex_gentle_def ex_probe_defs validateRackSlotProbeRequest_def ex_blank second_def
      SafetyConservative_def)

lemma probe_jobs_length:
  "length (probe_jobs req) =
     nat (rqRackMax req - rqRackMin req + 1) * nat (rqSlotMax req - rqSlotMin req + 1)"
  by (simp add: probe_jobs_def length_concat sum_list_triv comp_def)

lemma ex_probe_jobs: "length (probe_jobs ex_probe) = 256" "max_jobs ex_probe = 256"
  by (simp_all add: max_jobs_def probe_jobs_length ex_probe_defs)

lemma ex_gentle_starts:
  "\<exists>p. pool_run ex_gentle_pool [Poll, Start, Poll, Elapse, Start] (pool_init ex_gentle_pool) = Some p \<and> wpNext p = 2"
proof -
  have "max_jobs (applyProbeDefaults ex_gentle) = 256"
    by (simp add: max_jobs_def probe_jobs_length ex_gentle_def ex_probe_defs)
  then show ?thesis
    by (simp add: ex_gentle_pool_def probe_pool_def pool_init_def loop_at_def probe_waits_def jitter_of_def
        ex_gentle_facts)
qed

end
