(* ===== verification/Spec2Isabelle.thy ===== *)
theory Spec2Isabelle
  imports Client_Steps Range_Scan_Props Example_Probe
begin

text \<open>
  \<^bold>\<open>s7comm\<close>: a Go client library for the S7 protocol of Siemens PLCs.

  A program calls a \<open>client\<close> (package \<open>client\<close>), which dials the PLC, negotiates a COTP connection and
  an S7 session, and then exchanges one request and one reply at a time over a \<open>transport.Conn\<close> (package
  \<open>transport\<close>: TPKT frames with deadlines).  The bytes of the PDUs are built and parsed by package
  \<open>wire\<close>; package \<open>model\<close> holds the types and the scalar codecs.  On top of the client stand tools that open many
  connections: the range scan, the comparison of reads, the rack/slot probe and the discovery of a network.

  \<^bold>\<open>Theories and the code they model\<close>

  \<^item> \<open>Prelude\<close>: Go slices with their bounds checks, big-endian words, \<open>wrap64\<close> for a 64-bit \<open>int\<close>, printf verbs.
  \<^item> \<open>Codec\<close>, \<open>Model_Types\<close>: \<open>model/codec/codec.go\<close> (and its forwarders in \<open>model/types.go\<close>), the other files of
    \<open>model\<close>.
  \<^item> \<open>Wire_Errors\<close>, \<open>Wire_Header\<close>, \<open>Wire_RW\<close>, \<open>Wire_SZL\<close>, \<open>Wire_Blocks\<close>: \<open>wire/errors.go\<close> and
    \<open>param_error.go\<close>; \<open>s7.go\<close>, \<open>cotp.go\<close>, \<open>pdu_setup.go\<close>, \<open>inspect.go\<close>; \<open>pdu_rw.go\<close>; \<open>pdu_szl.go\<close>;
    \<open>pdu_blocks.go\<close>.
  \<^item> \<open>World\<close>, \<open>Transport\<close>, \<open>Handshake\<close>: input and output, \<open>transport/conn.go\<close>, \<open>client/options.go\<close> and
    \<open>handshake.go\<close>.
  \<^item> \<open>Client\<close>, \<open>Client_Props\<close>, \<open>Client_Steps\<close>, \<open>Connect_Live\<close>: \<open>client/client.go\<close>, its guarantees against any
    peer, the client as a state machine, and against a peer that takes calls.
  \<^item> \<open>Read_Write\<close>, \<open>Read_Write_Props\<close>, \<open>Target\<close>, \<open>Plc_Memory\<close>: \<open>client/readwrite.go\<close>, \<open>result.go\<close> and
    \<open>validateAddress\<close>; properties against any peer; a peer that answers; a peer with a memory.
  \<^item> \<open>Szl_Text\<close>, \<open>Szl_Ops\<close>, \<open>Block_Ops\<close>: \<open>client/szl.go\<close> and \<open>blocks.go\<close>.
  \<^item> \<open>Range_Scan\<close>, \<open>Range_Scan_Props\<close>: \<open>client/rangescan.go\<close>.
  \<^item> \<open>Worker_Pool\<close>, \<open>Compare\<close>, \<open>Probe\<close>, \<open>Probe_Props\<close>: the bounded pool of goroutines, \<open>client/compare.go\<close>,
    \<open>probe.go\<close>.
  \<^item> \<open>Cidr\<close>, \<open>Job_Channel\<close>, \<open>Discover\<close>, \<open>Discover_Props\<close>: the IPv4 part of package \<open>net\<close> with \<open>streamCIDR\<close>,
    \<open>expandCIDR\<close> and \<open>incIP\<close>; the channel of jobs; \<open>client/discover.go\<close>.  The validators of
    \<open>client/validation.go\<close> stand in the theory of the operation that calls them.
  \<^item> \<open>Example_Session\<close>, \<open>Example_Probe\<close>: the concrete peers and requests of the witnesses.

  Definitions have the names of the source; a constant, function or method \<open>T.m\<close> is \<open>T_m\<close> where the bare name is
  taken.  A struct is a record whose fields carry a two-letter prefix, a named integer or string type with constants
  is a type synonym with definitions, because any value can occur in it.

  \<^bold>\<open>State, errors and effects\<close>

  A Go function that returns a value and an error returns a sum, \<open>Inl\<close> the error.  \<open>None\<close> is a run-time panic: an
  index or slice out of range.  Go checks a slice expression against the capacity of the slice; all the slices of the program
  are inside the length, which \<open>slice\<close> checks, but for the order number in \<open>Identify\<close>, which is sliced with
  \<open>reslice\<close> from the payload and what the receive buffer holds behind it.  Errors are the datatype \<open>goerr\<close>
  with their wrapping structure, on which \<open>errors.Is\<close> and \<open>errors.As\<close> walk.

  An operation with effects is an \<open>io\<close>: from a state to a result and a state.  The state is a record \<open>world\<close> (the heap
  of transport connections and the trace of all that was done: dials, deadlines, frames, sleeps, closes), extended by
  the fields of the client.  Everything outside is the record \<open>env\<close>, an argument: what a dial, a write or a read
  yields, the addresses of a socket, the bytes of the receive buffer behind a reply (\<open>env_room\<close>), the clock and the COTP
  library, all but the last a function of the trace or the socket.  A theorem without an assumption about \<open>env\<close>
  holds for every network and every peer.  A context is a function of the trace as well.  The assumptions have names:
  \<open>frames_bounded\<close> (a received TPDU carries at most as much user data as a TPKT frame holds), \<open>answers\<close> and \<open>serves\<close>
  (the peer is a step function on a state, or on a memory, and the COTP codec returns what was put in), \<open>greets\<close>
  (it confirms connection requests), \<open>ctx_live\<close> (the context does not end).  \<open>client_inv\<close> is the invariant of a
  client: a well-formed heap in which its connection, if it has one, exists.

  The request lock makes a call of a client atomic, so a client is a sequence of calls (\<open>client_step\<close>, with a step for
  every exported method that does more than read a field).  Two methods take the lock several times:
  \<open>ListAllBlocks\<close> once for each block type and \<open>ProbeReadableRanges\<close> once for each read.  What happens when calls of others
  come in between is the sequence of steps \<open>ListBlocks\<close> (\<open>ListAllBlocks_locks\<close>) and \<open>ReadArea\<close> they consist of.  The tools that run
  goroutines are modelled with explicit schedules: a schedule is a list of actions, a run of a schedule that takes a
  disabled action is \<open>None\<close>, and the theorems quantify over all schedules.  Each worker has its own environment,
  context and starting world, arbitrary, so what the others do meanwhile is covered by the choice of them.

  \<^bold>\<open>What the lemmas show\<close>

  \<^item> \<open>io_frame\<close> (theory \<open>World\<close>) is the contract of a relation that every step of an operation keeps; its
    interpretations are the frame conditions: only the trace grows, no connection is added, the session stays, only
    certain frames are sent, nothing is dialled, at most one connection is open.
  \<^item> \<open>fixed_codec\<close> and \<open>exact_codec\<close> (theory \<open>Codec\<close>): round trips of the scalar codecs; \<open>chunk_plan\<close>: what reading
    and writing rely on in \<open>planReadChunks\<close>.
  \<^item> \<open>worker_pool\<close> and \<open>job_channel\<close>: the invariants of the pool and of the pipeline, no deadlock, the end of every
    schedule, the results at their own indices; interpreted on the pools of \<open>CompareRead\<close>, \<open>ProbeRackSlots\<close> and
    \<open>Discover\<close>.
  \<^item> Parsers: every parser is total on every input, with a table of its results; encoders and parsers agree.
  \<^item> Refinements: against a peer that serves a memory, reading is a slice of it, writing is its update and a scan
    finds exactly its readable parts; lists return what the peer holds, and an upload the block that was named.
  \<^item> Liveness: connecting to a peer that greets succeeds, so reading, comparing and discovering do.

  \<^bold>\<open>Bounds\<close>

  There is no fuel.  Loops over a list (chunks, pairs, addresses, entries of a payload) are structural recursions or have
  the remaining bytes as their measure; the upload counts down its own limit of chunks.  Three loops advance a number by a
  step that could be wrong and are partial functions to \<open>option\<close>: the chunk plan and the probe offsets, for which
  theorems show that they end, and the loop of \<open>expandCIDR\<close>, which does not end on /0.  Theorems on reading and writing a
  memory take a PDU size of at most 8192 (the largest for which the bit length of a write fits 16 bits; the client
  proposes 480) and, for writing, an even one.  An address is \<open>in_range\<close> when its bytes lie below 2^21, the bound of the
  24-bit bit address on the wire.

  \<^bold>\<open>Not modelled\<close>

  \<^item> The libraries \<open>go-cotp\<close> and \<open>go-tpkt\<close>, the network and the clock: parameters.  IPv6 text and the Unicode tables
    beyond ASCII: parameters.
  \<^item> Panics of \<open>make\<close> for sizes beyond the memory, and the wrap-around of loop variables next to the largest \<open>int\<close>
    in the rack and slot loops of a discovery.
  \<^item> Logging and tracing callbacks beyond their place in the trace; package documentation (\<open>doc.go\<close>).
\<close>

section \<open>Reading and writing memory\<close>

text \<open>C1: What is written is what is read.  On a connected session with an even negotiated PDU
  size between 30 and 8192 bytes, against a target that serves a memory, \<open>WriteArea\<close>
  succeeds on any data whose addresses fit the wire format, and a following \<open>ReadArea\<close> of
  the same range succeeds and returns exactly that data, for every length (any number of
  chunks), area, rate limit and context that stays alive.\<close>
theorem write_then_read:
  assumes "ctx_live cx" "serves E m0" "client_inv s" "clConn s \<noteq> None"
    and "30 \<le> clPduSize s" "even (clPduSize s)" "clPduSize s \<le> 8192"
    and "in_range addr (int (length data))" "aSize addr = int (length data)"
  shows "\<exists>t rr u. WriteArea E cx addr data s = (Some (Inr ()), t) \<and>
    ReadArea E cx addr t = (Some (Inr rr), u) \<and> ReadResult_OK (Some rr) \<and> rrData rr = data"
proof -
  obtain t where w: "WriteArea E cx addr data s = (Some (Inr ()), t)" "same_session s t"
    "memory_of E m0 t = poke (memory_of E m0 s) (key_of addr) (aStart addr) data"
    using WriteArea_serves [OF assms(1-8)] assms(9) by auto
  have t: "client_inv t" "clConn t \<noteq> None" "24 \<le> clPduSize t" "clPduSize t \<le> 8192"
    using same_session_inv [OF w(2) assms(3)] assms(4,5,7) by (simp_all add: same_session_sel [OF w(2)])
  have "in_range addr (aSize addr)" "0 \<le> aSize addr" using assms(8,9) by simp_all
  from ReadArea_serves [OF assms(1,2) t this] show ?thesis
    using w(1,3) peek_poke assms(9) by (fastforce simp: ReadResult_OK_def)
qed

theorem write_then_read_witness:
  "\<exists>t rr u. WriteArea (ex_env plc_exec ex_mem) context_background
      \<lparr>aArea = AreaDB, aDBNumber = 7, aStart = 4, aSize = 300\<rparr> (replicate 300 0xAB) ex_client = (Some (Inr ()), t) \<and>
    ReadArea (ex_env plc_exec ex_mem) context_background
      \<lparr>aArea = AreaDB, aDBNumber = 7, aStart = 4, aSize = 300\<rparr> t = (Some (Inr rr), u) \<and>
    ReadResult_OK (Some rr) \<and> rrData rr = replicate 300 0xAB"
  by (rule write_then_read [of _ _ ex_mem]) (simp_all add: ex_session in_range_def)

text \<open>C2: \<open>ReadArea\<close> implements a slice of the target's memory: against a target that serves a
  memory it returns a successful result whose data is that slice, leaves the memory and the
  session as they were, whatever the number of chunks.\<close>
theorem ReadArea_refines_peek:
  assumes "ctx_live cx" "serves E m0" "client_inv s" "clConn s \<noteq> None"
    and "24 \<le> clPduSize s" "clPduSize s \<le> 8192" "in_range addr (aSize addr)" "0 \<le> aSize addr"
  shows "\<exists>rr t. ReadArea E cx addr s = (Some (Inr rr), t) \<and> rrStatus rr = ReadStatusSuccess \<and>
    rrData rr = peek (memory_of E m0 s) (key_of addr) (aStart addr) (nat (aSize addr)) \<and>
    same_session s t \<and> memory_of E m0 t = memory_of E m0 s"
  by (rule ReadArea_serves [OF assms])

theorem ReadArea_refines_peek_witness:
  "\<exists>rr t. ReadArea (ex_env plc_exec ex_mem) context_background
      \<lparr>aArea = AreaMerkers, aDBNumber = 0, aStart = 10, aSize = 500\<rparr> ex_client = (Some (Inr rr), t) \<and>
    rrStatus rr = ReadStatusSuccess \<and> length (rrData rr) = 500"
  using ReadArea_refines_peek [of context_background "ex_env plc_exec ex_mem" ex_mem ex_client
      "\<lparr>aArea = AreaMerkers, aDBNumber = 0, aStart = 10, aSize = 500\<rparr>"]
  by (auto simp: ex_session in_range_def)

text \<open>C3: \<open>WriteArea\<close> implements the update of the target's memory: on a session with an even PDU size between 30 and 8192
  bytes, and for a range that fits the wire format, it returns no error, and the
  memory afterwards is the memory before with exactly the written range replaced.\<close>
theorem WriteArea_refines_poke:
  assumes "ctx_live cx" "serves E m0" "client_inv s" "clConn s \<noteq> None"
    and "30 \<le> clPduSize s" "even (clPduSize s)" "clPduSize s \<le> 8192"
    and "in_range addr (int (length data))" "0 \<le> aSize addr"
  shows "\<exists>t. WriteArea E cx addr data s = (Some (Inr ()), t) \<and> same_session s t \<and>
    memory_of E m0 t = poke (memory_of E m0 s) (key_of addr) (aStart addr) data"
  by (rule WriteArea_serves [OF assms])

theorem WriteArea_refines_poke_witness:
  "\<exists>t. WriteArea (ex_env plc_exec ex_mem) context_background
      \<lparr>aArea = AreaOutputs, aDBNumber = 0, aStart = 0, aSize = 0\<rparr> [1, 2, 3] ex_client = (Some (Inr ()), t) \<and>
    memory_of (ex_env plc_exec ex_mem) ex_mem t = poke ex_mem (AreaOutputs, 0) 0 [1, 2, 3]"
  using WriteArea_refines_poke [of context_background "ex_env plc_exec ex_mem" ex_mem ex_client
      "\<lparr>aArea = AreaOutputs, aDBNumber = 0, aStart = 0, aSize = 0\<rparr>" "[1, 2, 3]"]
  by (auto simp: ex_session in_range_def key_of_def ex_state)

section \<open>The session\<close>

text \<open>C4: In every state reachable from a new client by any sequence of calls of the exported methods, against
  any peer whose frames respect the TPKT limit, the session invariant holds: a disconnected client has
  zeroed limits, a connected one holds an open connection and a 16-bit PDU size.  From there no exported
  method panics, with one exception (sizes beyond the memory, which \<open>make\<close> refuses, are not modelled; the snapshots
  \<open>ConnectionInfo\<close> and \<open>PDUSize\<close> only read fields):
  \<open>Identify\<close> panics exactly when its module payload passes the check for 20 bytes but the buffer ends before byte 22.
  \<open>ProbeReadableRanges\<close> returns whenever the end of its range plus the step is an \<open>int\<close>.\<close>
theorem reachable_safe:
  assumes "reachable E s" "frames_bounded E"
  shows "client_inv s \<and> fst (Connect E cx s) \<noteq> None \<and> fst (Close E s) \<noteq> None \<and>
    fst (ReadArea E cx addr s) \<noteq> None \<and> fst (WriteArea E cx addr data s) \<noteq> None \<and>
    fst (ReadDB E cx db offset len s) \<noteq> None \<and> fst (WriteDB E cx db offset data s) \<noteq> None \<and>
    fst (ReadInputs E cx offset len s) \<noteq> None \<and> fst (ReadOutputs E cx offset len s) \<noteq> None \<and>
    fst (ReadMerkers E cx offset len s) \<noteq> None \<and>
    fst (GetCPUState E cx s) \<noteq> None \<and> fst (GetProtectionLevel E cx s) \<noteq> None \<and>
    fst (ReadDiagBufferRaw E cx s) \<noteq> None \<and> fst (ReadDiagBuffer E cx s) \<noteq> None \<and>
    fst (ListBlocks E cx bt s) \<noteq> None \<and> fst (ListAllBlocks E cx s) \<noteq> None \<and>
    fst (GetBlockInfo E cx bt num s) \<noteq> None \<and> fst (UploadBlock E cx bt num s) \<noteq> None \<and>
    (- (2 ^ 63) \<le> rpStart req \<and> rpEnd req + scan_step req < 2 ^ 63 \<longrightarrow>
       fst (ProbeReadableRanges E cx req s) \<noteq> None) \<and>
    (fst (Identify U E cx s) = None \<longleftrightarrow>
       (\<exists>raw behind. fst (readModuleIDSZL E cx s) = Some (Inr (raw, behind)) \<and>
          20 \<le> length raw \<and> length raw + length behind < 22))"
proof (intro conjI impI)
  have inv: "client_inv s" by (rule reachable_inv [OF assms])
  show "fst (Identify U E cx s) = None \<longleftrightarrow>
      (\<exists>raw behind. fst (readModuleIDSZL E cx s) = Some (Inr (raw, behind)) \<and>
         20 \<le> length raw \<and> length raw + length behind < 22)"
    unfolding Identify_panics_iff [OF assms(2) inv] order_overrun_iff by blast
  show "fst (ProbeReadableRanges E cx req s) \<noteq> None"
    if "- (2 ^ 63) \<le> rpStart req \<and> rpEnd req + scan_step req < 2 ^ 63"
    using that by (intro safe_total [OF safe_ProbeReadableRanges [OF assms(2)] inv]) simp_all
qed (rule safe_total safe_ops reachable_inv [OF assms] assms(2))+

theorem reachable_safe_witness:
  "client_inv (New ''plc'' [] ex_world) \<and>
   fst (ReadArea (ex_env plc_exec ex_mem) context_background
     \<lparr>aArea = AreaDB, aDBNumber = 1, aStart = 0, aSize = 8\<rparr> (New ''plc'' [] ex_world)) \<noteq> None \<and>
   fst (ProbeReadableRanges (ex_env plc_exec ex_mem) context_background
     \<lparr>rpArea = AreaDB, rpDBNumber = 1, rpStart = 0, rpEnd = 20, rpStep = 0, rpProbeSize = 8, rpRetries = 1,
       rpRetryDelay = 0, rpRepeat = 2, rpInterval = 0, rpParallelism = 0\<rparr> (New ''plc'' [] ex_world)) \<noteq> None"
proof -
  let ?req = "\<lparr>rpArea = AreaDB, rpDBNumber = 1, rpStart = 0, rpEnd = 20, rpStep = 0, rpProbeSize = 8, rpRetries = 1,
    rpRetryDelay = 0, rpRepeat = 2, rpInterval = 0, rpParallelism = 0\<rparr>"
  have "reachable (ex_env plc_exec ex_mem) (New ''plc'' [] ex_world)"
    by (rule reachable.init) (simp add: heap_wf_def ex_world_def conn_wf_def)
  moreover have "- (2 ^ 63) \<le> rpStart ?req \<and> rpEnd ?req + scan_step ?req < 2 ^ 63"
    by (simp add: scan_step_def)
  ultimately show ?thesis using reachable_safe [OF _ ex_plc_bounded] by blast
qed

text \<open>C5: \<open>Connect\<close> is all or nothing.  It always returns; when it returns an error the client's
  fields and every connection it had are as before; when it succeeds the client holds a fresh
  open connection, the TSAPs of the rack and slot it records, a 16-bit PDU size, and the
  connection it held before is closed.\<close>
theorem Connect_all_or_nothing:
  assumes "client_inv s"
  shows "(\<exists>e t. Connect E cx s = (Some (Inl e), t) \<and> world.more t = world.more s \<and>
      (\<forall>p<w_next s. w_conns t p = w_conns s p)) \<or>
    (\<exists>t p. Connect E cx s = (Some (Inr ()), t) \<and> clConn t = Some p \<and> w_next s \<le> p \<and>
      tConn (w_conns t p) \<noteq> None \<and> 0 \<le> clPduSize t \<and> clPduSize t < 65536 \<and>
      connect_TSAPs (clOpts s) (clRack t) (clSlot t) = Inr (clLocalTSAP t, clRemoteTSAP t) \<and>
      (\<forall>old. clConn s = Some old \<longrightarrow> tConn (w_conns t old) = None))"
proof -
  have hw: "heap_wf s" using assms by (simp add: client_inv_def)
  obtain r t where run: "Connect E cx s = (r, t)" by (cases "Connect E cx s")
  have "connect_outcome E cx s (r, t)" using connect_outcome_Connect [OF hw, of E cx] run by simp
  then show ?thesis
  proof (cases rule: connect_outcome.cases)
    case (failed e)
    then show ?thesis using run by (auto simp: no_new_conn_def keeps_session_def)
  next
    case (connected s' rack slot)
    note kept = no_new_conn_keeps [OF connected(2)]
    have inv: "client_inv s'" by (rule client_inv_keeps [OF assms kept connected(3)])
    note ok = connectOnce_success [OF inv connected(4)]
    have eq: "clOpts s' = clOpts s" "clConn s' = clConn s"
      by (rule keeps_session_sel [OF kept])+
    have "w_next s \<le> w_next s'" using kept by (simp add: keeps_session_def)
    moreover have "tConn (w_conns t (w_next s')) \<noteq> None" "0 \<le> clPduSize t" "clPduSize t < 65536"
      using ok(1,2) by (simp_all add: client_inv_def)
    ultimately show ?thesis using run connected(1) ok(2-) by (simp add: eq)
  qed
qed

theorem Connect_all_or_nothing_witness:
  "fst (Connect (ex_env plc_exec ex_mem) context_background (New ''plc'' [] ex_world)) \<noteq> None"
proof -
  have "client_inv (New ''plc'' [] ex_world)"
    by (rule client_inv_New) (simp add: heap_wf_def ex_world_def conn_wf_def)
  from Connect_all_or_nothing [OF this, of "ex_env plc_exec ex_mem" context_background]
  show ?thesis by fastforce
qed

text \<open>C6: \<open>Close\<close> never panics and leaves the client disconnected with the connection it held
  closed, and a second \<open>Close\<close> changes nothing and returns no error.\<close>
theorem Close_idempotent:
  assumes "client_inv s"
  shows "fst (Close E s) \<noteq> None \<and> client_inv (snd (Close E s)) \<and> clConn (snd (Close E s)) = None \<and>
    (\<forall>p. clConn s = Some p \<longrightarrow> tConn (w_conns (snd (Close E s)) p) = None) \<and>
    Close E (snd (Close E s)) = (Some (Inr ()), snd (Close E s))"
  using Close_result [OF assms] Close_twice [OF assms] by blast

theorem Close_idempotent_witness:
  "clConn (snd (Close (ex_env plc_exec ex_mem) ex_client)) = None \<and>
   tConn (w_conns (snd (Close (ex_env plc_exec ex_mem) ex_client)) 0) = None"
  using Close_idempotent [OF ex_client_inv, of "ex_env plc_exec ex_mem"] by simp

text \<open>C7: \<open>sendReceive\<close> on a connected session sends at most one frame, on the session's socket and
  never for a request longer than the negotiated PDU; if it returns a payload, that payload was
  cut at exactly the announced lengths from an error-free reply whose PDU reference is the
  request's (reference 0 is not checked).\<close>
theorem sendReceive_correlated:
  assumes "client_inv s" "clConn s = Some c"
  shows "\<exists>r evs sock. sendReceive E cx req ref s = (r, grow s evs) \<and> tConn (w_conns s c) = Some sock \<and>
    (tx_of evs = [] \<and> (\<exists>e. r = Some (Inl e)) \<or>
     (\<exists>dt. EncodeCOTPDT (env_cotp E) req = Inr dt \<and> tx_of evs = [(sock, dt)] \<and>
        \<not> (0 < clPduSize s \<and> clPduSize s < int (length req)))) \<and>
    (\<forall>param data. r = Some (Inr (param, data)) \<longrightarrow>
       (\<exists>resp dec dt h rest. cotp_Decode (env_cotp E) resp = Inr dec \<and> decDT dec = Some dt \<and>
          ParseS7Header (dtUserData dt) = Some (Inr (h, rest)) \<and> (ref = 0 \<or> hPDURef h = ref) \<and>
          hErrorClass h = 0 \<and> hErrorCode h = 0 \<and>
          length param = unat (hParamLength h) \<and> length data = unat (hDataLength h) \<and>
          prefix (param @ data) rest))"
proof -
  obtain r evs sock where run: "sendReceive E cx req ref s = (r, grow s evs)" "tConn (w_conns s c) = Some sock"
    "tx_of evs = [] \<and> (\<exists>e. r = Some (Inl e)) \<or> (\<exists>dt. EncodeCOTPDT (env_cotp E) req = Inr dt \<and>
       tx_of evs = [(sock, dt)] \<and> \<not> (0 < clPduSize s \<and> clPduSize s < int (length req)))"
    using sendReceive_tx [OF assms] by blast
  have "\<exists>resp dec dt h rest. cotp_Decode (env_cotp E) resp = Inr dec \<and> decDT dec = Some dt \<and>
        ParseS7Header (dtUserData dt) = Some (Inr (h, rest)) \<and> (ref = 0 \<or> hPDURef h = ref) \<and>
        hErrorClass h = 0 \<and> hErrorCode h = 0 \<and> length param = unat (hParamLength h) \<and>
        length data = unat (hDataLength h) \<and> prefix (param @ data) rest"
    if r: "r = Some (Inr (param, data))" for param data
  proof -
    obtain resp where "sendReceive_reply (env_cotp E) ref resp = Some (Inr (param, data))"
      using sendReceive_ok run(1) r by metis
    then show ?thesis
    proof (cases rule: sendReceive_reply_Inr)
      case (1 dec dt h rest)
      have "prefix (param @ data) rest"
        unfolding 1(9,10) by (metis append_take_drop_id prefixI append.assoc)
      then show ?thesis using 1(1-8) by blast
    qed
  qed
  then show ?thesis using run by blast
qed

theorem sendReceive_correlated_witness:
  "\<exists>r evs. sendReceive (ex_env plc_exec ex_mem) context_background (EncodeReadVarRequest 1 []) 1 ex_client =
     (r, grow ex_client evs) \<and> length (tx_of evs) \<le> 1"
  using sendReceive_correlated [OF ex_client_inv, of 0 "ex_env plc_exec ex_mem" context_background
      "EncodeReadVarRequest 1 []" 1] by fastforce

section \<open>Results, frames and chunks\<close>

text \<open>C8: What \<open>ReadArea\<close> reports.  A Go error is returned for an invalid address only and then
  nothing happened; every other run gives a result that records the requested and the returned
  length exactly, is a success only when at least the requested bytes are there, never carries
  the zero status or \<open>inconclusive\<close>, names its cause for a transport error or a timeout and carries no
  data then.\<close>
theorem ReadArea_outcome:
  assumes "ReadArea E cx addr s = (Some r, t)"
  shows "case validateAddress addr of
      Some e \<Rightarrow> r = Inl e \<and> t = s
    | None \<Rightarrow> \<exists>rr. r = Inr rr \<and> outcome_wf (aSize addr) rr"
  by (rule ReadArea_result [OF assms])

theorem ReadArea_outcome_witness:
  "\<exists>rr. fst (ReadArea (ex_env plc_exec ex_mem) context_background
      \<lparr>aArea = AreaDB, aDBNumber = 1, aStart = 0, aSize = 8\<rparr> (New ''plc'' [] ex_world)) = Some (Inr rr) \<and>
    rrRequestedLength rr = 8 \<and> rrStatus rr \<noteq> ReadStatusUnset"
proof -
  let ?s = "New ''plc'' [] ex_world" and ?a = "\<lparr>aArea = AreaDB, aDBNumber = 1, aStart = 0, aSize = 8\<rparr>"
  let ?m = "ReadArea (ex_env plc_exec ex_mem) context_background ?a"
  have "client_inv ?s" by (rule client_inv_New) (simp add: heap_wf_def ex_world_def conn_wf_def)
  then have "fst (?m ?s) \<noteq> None" by (rule safe_total [OF safe_ReadArea [OF ex_plc_bounded]])
  then obtain r t where run: "?m ?s = (Some r, t)" by (cases "?m ?s") auto
  have "validateAddress ?a = None" by (simp add: validateAddress_def)
  then show ?thesis
    using ReadArea_outcome [OF run] run by (auto simp: outcome_wf_def)
qed

text \<open>C9: Everything \<open>ReadArea\<close> and \<open>WriteArea\<close> send goes to the session's own socket and is a read
  (write) request for a piece of the given area and data block no longer than the chunk maximum
  of the negotiated PDU size; a write request never exceeds that PDU size, and neither operation
  changes the session.\<close>
theorem read_write_frames:
  assumes "client_inv s"
  shows "(\<exists>evs. w_trace (snd (ReadArea E cx addr s)) = w_trace s @ evs \<and>
      (\<forall>(k, d)\<in>set (tx_of evs). Some k = socket_of s \<and> read_frame E addr (read_max (clPduSize s)) d)) \<and>
    (\<exists>evs. w_trace (snd (WriteArea E cx addr data s)) = w_trace s @ evs \<and>
      (\<forall>(k, d)\<in>set (tx_of evs). Some k = socket_of s \<and>
         write_frame E addr (write_max (clPduSize s)) (clPduSize s) d)) \<and>
    same_session s (snd (ReadArea E cx addr s)) \<and> same_session s (snd (WriteArea E cx addr data s))"
  using sends_ReadArea [OF refl, of s E addr cx] sends_WriteArea [OF refl, of s E addr cx data] assms
  by (auto simp: sends_def session_of_def)

theorem read_write_frames_witness:
  "same_session ex_client (snd (ReadArea (ex_env plc_exec ex_mem) context_background
     \<lparr>aArea = AreaDB, aDBNumber = 1, aStart = 0, aSize = 500\<rparr> ex_client))"
  using read_write_frames [OF ex_client_inv] by blast

text \<open>C10: The chunk loop terminates for every input and its plan is the full chunks followed by the
  remainder: the chunks are positive, none is larger than a positive maximum, they add up to the
  requested size, and cutting data along the plan and joining the pieces gives the data back.\<close>
theorem planReadChunks_correct:
  "planReadChunks n m = Some (if n \<le> 0 then [] else if m \<le> 0 then [n]
      else replicate (nat (n div m)) m @ (if n mod m = 0 then [] else [n mod m])) \<and>
   (\<exists>cs. planReadChunks n m = Some cs \<and> sum_list cs = max 0 n \<and>
     list_all (\<lambda>c. 0 < c \<and> (m \<le> 0 \<or> c \<le> m)) cs) \<and>
   (\<exists>cs. planReadChunks (int (length xs)) m = Some cs \<and> concat (cut cs xs) = xs)"
proof -
  obtain cs where cs: "planReadChunks n m = Some cs" "sum_list cs = max 0 n" "\<forall>c\<in>set cs. 0 < c"
    "0 < m \<Longrightarrow> \<forall>c\<in>set cs. c \<le> m"
    using rc.chunks_obtain [of n m] by metis
  have "list_all (\<lambda>c. 0 < c \<and> (m \<le> 0 \<or> c \<le> m)) cs"
    using cs(3,4) by (auto simp: list_all_iff not_le)
  moreover obtain cs' where cs': "planReadChunks (int (length xs)) m = Some cs'"
    using rc.chunks_obtain [of "int (length xs)" m] by metis
  moreover have "concat (cut cs' xs) = xs" by (rule rc.reassembles [OF cs'])
  ultimately show ?thesis using cs(1,2) planReadChunks_eq [of n m] by (auto simp: even_split_def)
qed

text \<open>C11: With an odd negotiated PDU size a write that fills a chunk cannot be done: the chunk maximum
  leaves no room for the fill byte, so \<open>WriteArea\<close> fails with \<open>ErrRequestExceedsPDU\<close> before
  it has sent anything.\<close>
theorem WriteArea_odd_pdu_fails:
  assumes "client_inv s" "clConn s \<noteq> None" "ctx_live cx"
    and "29 \<le> clPduSize s" "odd (clPduSize s)" "clPduSize s - 28 \<le> int (length data)"
    and "validateAddress addr = None"
  shows "\<exists>e t. WriteArea E cx addr data s = (Some (Inl e), t) \<and> errors_Is e ErrRequestExceedsPDU \<and>
    tx_of (w_trace t) = tx_of (w_trace s)"
  by (rule WriteArea_odd_pdu [OF assms])

theorem WriteArea_odd_pdu_fails_witness:
  "\<exists>e t. WriteArea (ex_env plc_exec ex_mem) context_background
     \<lparr>aArea = AreaDB, aDBNumber = 1, aStart = 0, aSize = 0\<rparr> (replicate 213 0) (ex_client\<lparr>clPduSize := 241\<rparr>) =
     (Some (Inl e), t) \<and> errors_Is e ErrRequestExceedsPDU"
proof -
  have "client_inv (ex_client\<lparr>clPduSize := 241\<rparr>)"
    using ex_client_inv by (simp add: client_inv_def heap_wf_def)
  from WriteArea_odd_pdu_fails [OF this, of context_background "replicate 213 0"
      "\<lparr>aArea = AreaDB, aDBNumber = 1, aStart = 0, aSize = 0\<rparr>" "ex_env plc_exec ex_mem"]
  show ?thesis by (auto simp: ctx_background_live validateAddress_def)
qed

section \<open>System status lists and blocks\<close>

text \<open>C12: The SZL queries report what the target's list holds: against a target that answers every SZL
  request with its list \<open>f\<close>, \<open>GetCPUState\<close> returns the decoded third byte of the CPU state list,
  \<open>GetProtectionLevel\<close> the two low bits of the third byte of the protection list, and
  \<open>ReadDiagBuffer\<close> one entry for every complete 20-byte record of the diagnostic list, in order.\<close>
theorem szl_queries:
  assumes "ctx_live cx" "answers E szl_step f" "client_inv s" "clConn s \<noteq> None"
    and "clPduSize s = 0 \<or> 26 \<le> clPduSize s"
    and "length (f SZLCPUState 0) < 65500" "length (f SZLProtectionInfo 0) < 65500"
    and "length (f SZLDiagBuffer 0) < 65500"
  shows "fst (GetCPUState E cx s) = Some (Inr (if length (f SZLCPUState 0) < 4 then CPUStateUnknown
      else if f SZLCPUState 0 ! 2 = 0x08 then CPUStateRun else if f SZLCPUState 0 ! 2 = 0x04 then CPUStateStop
      else if f SZLCPUState 0 ! 2 = 0x01 then CPUStateStartup else CPUStateUnknown)) \<and>
    fst (GetProtectionLevel E cx s) = Some (Inr (if length (f SZLProtectionInfo 0) < 4 then ProtectionNone
      else f SZLProtectionInfo 0 ! 2 AND 0x03)) \<and>
    (\<exists>b. fst (ReadDiagBuffer E cx s) = Some (Inr b) \<and>
       dbEntries b = map (diag_entry_at (f SZLDiagBuffer 0)) [0..<length (f SZLDiagBuffer 0) div 20])"
proof -
  obtain t1 where "szl_exchange E cx SZLCPUState 0 s = (Some (Inr (f SZLCPUState 0)), t1)"
    using szl_exchange_answers [OF assms(1-5,6)] by blast
  moreover obtain t2 where "szl_exchange E cx SZLProtectionInfo 0 s = (Some (Inr (f SZLProtectionInfo 0)), t2)"
    using szl_exchange_answers [OF assms(1-5,7)] by blast
  moreover obtain t3 where "szl_exchange E cx SZLDiagBuffer 0 s = (Some (Inr (f SZLDiagBuffer 0)), t3)"
    using szl_exchange_answers [OF assms(1-5,8)] by blast
  ultimately show ?thesis
    by (auto simp: GetCPUState_def cpu_state_of_def GetProtectionLevel_def protection_of_def
        ReadDiagBuffer_def ReadDiagBufferRaw_def diag_entries_0 idx_def)
qed

theorem szl_queries_witness:
  "fst (GetCPUState (ex_env szl_step (\<lambda>i x. [0, 0, 0x08, 0])) context_background ex_client) = Some (Inr CPUStateRun)"
  using szl_queries [of context_background "ex_env szl_step (\<lambda>i x. [0, 0, 0x08, 0])"
      "\<lambda>i x. [0, 0, 0x08, 0]" ex_client] by (simp add: ex_session)

text \<open>C13: \<open>ListBlocks\<close> returns the target's block list: for every list of directory entries, encoded as the
  payload of the block-list SZL for that block type, it returns exactly those blocks in order and
  keeps the session.\<close>
theorem ListBlocks_refines:
  assumes "ctx_live cx" "answers E szl_step f" "client_inv s" "clConn s \<noteq> None"
    and "clPduSize s = 0 \<or> 26 \<le> clPduSize s"
    and "f SZLBlockList (block_list_index bt) = concat (map entry_bytes es)" "list_all entry_wf es"
    and "length es < 16000"
  shows "\<exists>t. ListBlocks E cx bt s = (Some (Inr (map block_of_entry es)), t) \<and> same_session s t"
  by (rule ListBlocks_answers [OF assms])

theorem ListBlocks_refines_witness:
  "\<exists>t. ListBlocks (ex_env szl_step (\<lambda>i x. [0, 1, 0x41, 0x52, 0, 7, 0x41, 0x50])) context_background BlockTypeDB ex_client =
    (Some (Inr (map block_of_entry [\<lparr>bleBlockType = 0x41, bleBlockNumber = 1, bleLanguage = 5, bleFlags = 2\<rparr>,
       \<lparr>bleBlockType = 0x41, bleBlockNumber = 7, bleLanguage = 5, bleFlags = 0\<rparr>])), t)"
proof -
  let ?f = "\<lambda>(i :: uint16) (x :: uint16). [0, 1, 0x41, 0x52, 0, 7, 0x41, 0x50] :: bytes"
  let ?es = "[\<lparr>bleBlockType = 0x41, bleBlockNumber = 1, bleLanguage = 5, bleFlags = 2\<rparr>,
     \<lparr>bleBlockType = 0x41, bleBlockNumber = 7, bleLanguage = 5, bleFlags = 0\<rparr>]"
  have "?f SZLBlockList (block_list_index BlockTypeDB) = concat (map entry_bytes ?es)"
    by (simp add: entry_bytes_def put16_def)
  moreover have "list_all entry_wf ?es" by (simp add: entry_wf_def)
  ultimately have "\<exists>t. ListBlocks (ex_env szl_step ?f) context_background BlockTypeDB ex_client =
      (Some (Inr (map block_of_entry ?es)), t) \<and> same_session ex_client t"
    by (intro ListBlocks_refines [OF ctx_background_live ex_env_answers ex_client_inv]) simp_all
  then show ?thesis by blast
qed

text \<open>C14: \<open>UploadBlock\<close> returns the block that was asked for: against a target with a directory of blocks, which reads type
  and number from the file name of the start request, it returns the concatenation of the segments of that
  block with the requested type and number.  This holds for every type but the system data blocks and every number
  up to 65535, for a block that is not empty and has at most 4096 segments (\<open>maxUploadChunks\<close>) of less than 8192
  bytes, and for a session ID of 1 to 255 bytes without white space at its ends, which the client would trim.\<close>
theorem UploadBlock_refines:
  assumes "ctx_live cx" "answers E (upload_step dir sid) st0" "frames_bounded E"
    and "client_inv s" "clConn s \<noteq> None"
    and "bt \<in> {BlockOB, BlockDB, BlockFC, BlockFB, BlockSFC, BlockSFB}" "0 \<le> num" "num \<le> 65535"
    and "clPduSize s = 0 \<or> 28 \<le> clPduSize s \<and> int (length sid) + 19 \<le> clPduSize s"
    and "sid \<noteq> []" "length sid < 256" "TrimSpace sid = sid"
    and "concat (dir bt (nat num)) \<noteq> []" "length (dir bt (nat num)) \<le> 4096"
    and "list_all (\<lambda>seg. length seg < 8192) (dir bt (nat num))"
  shows "\<exists>t. UploadBlock E cx bt num s =
      (Some (Inr \<lparr>bdInfo = zero_BlockInfo\<lparr>biType := bt, biNumber := num\<rparr>, bdData = concat (dir bt (nat num))\<rparr>), t) \<and>
    client_inv t"
proof -
  have "dir bt (nat num) = dir (upload_type_char bt) (nat num)"
    using assms(6) by (auto simp: upload_type_char_def block_defs blocktype_defs)
  from UploadBlock_serves [OF assms(1-5) this assms(9-15) assms(7,8)] show ?thesis .
qed

theorem UploadBlock_refines_witness:
  "\<exists>t. UploadBlock (ex_env (upload_step ex_directory [0x31]) []) context_background BlockFC 205 ex_client =
    (Some (Inr \<lparr>bdInfo = zero_BlockInfo\<lparr>biType := BlockFC, biNumber := 205\<rparr>, bdData = [0x43, 1, 2, 205]\<rparr>), t)"
proof -
  have "frames_bounded (ex_env (upload_step ex_directory [0x31]) [])"
    by (rule ex_frames_bounded [where I = "list_all (\<lambda>seg. length seg < 8192)"])
       (auto simp: upload_step_def Let_def ack_pdu_def ex_directory_def split: list.split option.split)
  from UploadBlock_refines [OF ctx_background_live ex_env_answers this ex_client_inv, of BlockFC 205]
  show ?thesis by (force simp: TrimSpace_def ascii_space_def ex_directory_def block_defs)
qed

text \<open>C15: \<open>Identify\<close> reports both sources: when the buffer of the module payload reaches byte 22, or the payload has less
  than 20 bytes, it returns, gives no device information exactly when both SZL reads failed, and no error exactly when
  both succeeded; a read fails when its exchange does or its non-empty payload is too short.\<close>
theorem Identify_reports:
  assumes "readModuleIDSZL E cx s = (Some rm, u)" "readComponentIDSZL E cx u = (Some rc', t)"
    and "\<And>raw behind. rm = Inr (raw, behind) \<Longrightarrow> length raw < 20 \<or> 22 \<le> length raw + length behind"
  shows "\<exists>info err. Identify U E cx s = (Some (Inr (info, err)), t) \<and>
    (info = None \<longleftrightarrow> module_failed rm \<and> component_failed rc') \<and>
    (err = None \<longleftrightarrow> \<not> module_failed rm \<and> \<not> component_failed rc')"
  by (rule Identify_contract [OF assms(1,2)]) (use assms(3) in \<open>force simp: order_overrun_iff\<close>)

theorem Identify_reports_witness:
  "\<exists>err. Identify ex_unicode (ex_env szl_step (\<lambda>i x. [1, 2, 3])) context_background ex_client =
     (Some (Inr (None, Some err)), snd (Identify ex_unicode (ex_env szl_step (\<lambda>i x. [1, 2, 3])) context_background ex_client))"
proof -
  let ?E = "ex_env szl_step (\<lambda>i x. [1, 2, 3])"
  obtain b u where u: "readModuleIDSZL ?E context_background ex_client = (Some (Inr ([1, 2, 3], b)), u)"
    "same_session ex_client u"
    using szl_read_answers [of context_background ?E "\<lambda>i x. [1, 2, 3]" ex_client SZLModuleID 0]
    by (auto simp: ex_session readModuleIDSZL_def)
  obtain b' t where t: "readComponentIDSZL ?E context_background u = (Some (Inr ([1, 2, 3], b')), t)"
    using szl_read_answers [of context_background ?E "\<lambda>i x. [1, 2, 3]" u SZLComponentID 0]
      same_session_inv [OF u(2) ex_client_inv]
    by (auto simp: ex_session readComponentIDSZL_def same_session_sel [OF u(2)])
  from Identify_reports [OF u(1) t, of ex_unicode] show ?thesis
    by (auto simp: module_failed_def component_failed_def)
qed

text \<open>C16: \<open>Identify\<close> checks for 20 bytes of module payload and takes the order number from the bytes 2 to 22.  So on a payload
  of 20 or 21 bytes it panics when the receive buffer ends there; and when the buffer goes on, the order number
  takes the bytes behind the payload in.  (\<open>behind\<close> is what follows the payload in its buffer: the bytes
  \<open>ParseSZLResponse\<close> left over, the rest of the frame, and the capacity the libraries left.)\<close>
theorem Identify_short_module_fault:
  assumes "frames_bounded E" "client_inv s" "readModuleIDSZL E cx s = (Some (Inr (raw, behind)), u)"
    and "20 \<le> length raw"
  shows "(fst (Identify U E cx s) = None \<longleftrightarrow> length raw + length behind < 22) \<and>
    (22 \<le> length raw + length behind \<longrightarrow>
      (\<exists>info err t. Identify U E cx s = (Some (Inr (Some info, err)), t) \<and>
         (trimString (take 20 (drop 2 (raw @ behind))) \<noteq> [] \<longrightarrow>
            diOrderNumber info = trimString (take 20 (drop 2 (raw @ behind))))))"
proof -
  have "fst (Identify U E cx s) = None \<longleftrightarrow> length raw + length behind < 22"
    unfolding Identify_panics_iff [OF assms(1,2)] using assms(3,4) by (auto simp: order_overrun_iff)
  moreover obtain rc' t where "readComponentIDSZL E cx u = (Some rc', t)"
    using readComponentIDSZL_total [OF assms(1-3)] by blast
  ultimately show ?thesis
    using Identify_order_number [OF assms(3) _ assms(4)] by blast
qed

theorem Identify_short_module_fault_witness:
  "fst (Identify ex_unicode (ex_env szl_step (\<lambda>i x. replicate 20 0x41)) context_background ex_client) = None \<and>
   (\<exists>info err t. Identify ex_unicode ((ex_env szl_step (\<lambda>i x. replicate 20 0x41))\<lparr>env_room := \<lambda>tr. [0x42, 0x43]\<rparr>)
      context_background ex_client = (Some (Inr (Some info, err)), t) \<and>
      diOrderNumber info = replicate 18 0x41 @ [0x42, 0x43])"
proof -
  let ?E = "ex_env szl_step (\<lambda>i x. replicate 20 0x41)"
  let ?F = "?E\<lparr>env_room := \<lambda>tr. [0x42, 0x43]\<rparr>"
  have fb: "frames_bounded ?E"
    by (rule ex_frames_bounded [where I = "\<lambda>f. f = (\<lambda>i x. replicate 20 0x41)"])
       (auto simp: szl_step_def Let_def userdata_pdu_def)
  obtain u where u: "readModuleIDSZL ?E context_background ex_client = (Some (Inr (replicate 20 0x41, [])), u)"
    using szl_read_answers [of context_background ?E "\<lambda>i x. replicate 20 0x41" ex_client SZLModuleID 0]
    by (auto simp: ex_session ex_room readModuleIDSZL_def)
  have "answers ?F szl_step (\<lambda>i x. replicate 20 0x41)" using ex_env_answers [of szl_step] by (simp add: answers_def)
  then obtain v where v: "readModuleIDSZL ?F context_background ex_client =
      (Some (Inr (replicate 20 0x41, [0x42, 0x43])), v)"
    using szl_read_answers [of context_background ?F "\<lambda>i x. replicate 20 0x41" ex_client SZLModuleID 0]
    by (auto simp: ex_session readModuleIDSZL_def)
  have "frames_bounded ?F" using fb by (simp add: frames_bounded_def)
  moreover have "trimString (take 20 (drop 2 (replicate 20 0x41 @ [0x42, 0x43]))) = replicate 18 0x41 @ [0x42, 0x43]"
    by (subst trimString_id) simp_all
  ultimately show ?thesis
    using Identify_short_module_fault [OF fb ex_client_inv u, of ex_unicode]
      Identify_short_module_fault [OF _ ex_client_inv v, of ex_unicode] by auto
qed

text \<open>C17: The heuristic search of \<open>Identify\<close> only fills fields that are empty, only four of them, and only with runes of
  the payload and single spaces: an order number contains 6ES7, a CPU type contains CPU or S7-, a firmware version
  contains a V and a digit, a serial number has 8 to 24 bytes with a letter and a digit (all in upper case).  A payload
  that is one plain ASCII token of that form is taken for the serial number when there is none yet, even if it is
  the order number.\<close>
theorem populate_fills_empty:
  assumes "uUpper U 0x17F = 0x53" "j = populateInfoFromRaw U i raw" "A = insert (0x20, [0x20]) (set (runes raw))"
  shows "j = i\<lparr>diOrderNumber := diOrderNumber j, diCPUType := diCPUType j, diFWVersion := diFWVersion j,
           diSerialNumber := diSerialNumber j\<rparr> \<and>
    found (\<lambda>cs. has_text (ascii ''6ES7'') (ToUpper U cs)) A (diOrderNumber i) (diOrderNumber j) \<and>
    found (\<lambda>cs. has_text (ascii ''CPU'') (ToUpper U cs) \<or> has_text (ascii ''S7-'') (ToUpper U cs)) A (diCPUType i) (diCPUType j) \<and>
    found (\<lambda>cs. has_text (ascii ''V'') (ToUpper U cs) \<and> list_ex (IsDigit U \<circ> fst) (ToUpper U cs)) A (diFWVersion i) (diFWVersion j) \<and>
    found (\<lambda>cs. isLikelySerial U (ToUpper U cs)) A (diSerialNumber i) (diSerialNumber j) \<and>
    (list_all token_byte raw \<and> 8 \<le> length raw \<and> length raw \<le> 24 \<and> diSerialNumber i = [] \<and>
       list_ex (\<lambda>b. upper_letter (unat b) \<or> lower_letter (unat b)) raw \<and> list_ex (\<lambda>b. digit (unat b)) raw \<longrightarrow>
       diSerialNumber j = raw)"
  using populate_fills [OF assms(1), of raw i] single_token_serial unfolding assms(2,3) fills_def by blast

theorem populate_fills_empty_witness:
  "diSerialNumber (populateInfoFromRaw ex_unicode zero_DeviceInfo (to_bytes ''6ES7315-2EH14-0AB0'')) =
    to_bytes ''6ES7315-2EH14-0AB0''"
proof -
  have "list_all token_byte (to_bytes ''6ES7315-2EH14-0AB0'')"
    by (simp add: to_bytes_def token_byte_def plain_def IsSpace_def)
  then show ?thesis
    using populate_fills_empty [OF _ refl refl, of ex_unicode zero_DeviceInfo "to_bytes ''6ES7315-2EH14-0AB0''"]
    by (simp add: ex_unicode_def zero_DeviceInfo_def to_bytes_def upper_letter_def digit_def)
qed

section \<open>The wire format\<close>

text \<open>C18: \<open>ParseS7Header\<close> is total, and its result is fixed by the bytes: the first failing check of length,
  protocol byte, acknowledgement length and payload length gives its error, otherwise the header
  fields are the big-endian bytes and the rest is what follows the 10 or 12 header bytes.\<close>
theorem ParseS7Header_table:
  "ParseS7Header data = Some (
     if length data < 10 then Inl (Sentinel ErrShortS7Header)
     else if data ! 0 \<noteq> 0x32 then
       Inl (Errorf '''' (Sentinel ErrInvalidS7ProtocolID) ('': got 0x'' @ fmt02X (data ! 0)))
     else if length data < s7_offset data then Inl (Sentinel ErrShortS7AckHeader)
     else if length data - s7_offset data < s7_need data then
       Inl (Errorf '''' (Sentinel ErrS7PayloadLength)
         (('': need '' @ fmt_d (int (s7_need data))) @
          ('', got '' @ fmt_d (int (length data - s7_offset data)))))
     else Inr (s7_header_of data, drop (s7_offset data) data))"
  by (rule ParseS7Header_eq)

text \<open>C19: A header written by \<open>EncodeS7Header\<close> is read back by \<open>ParseS7Header\<close> with the same type, reference and lengths,
  whatever the type.  For the types \<open>Ack\<close> and \<open>AckData\<close>, whose header has two more bytes that the encoder
  does not write, an error class and an error code must follow the ten bytes, and are read back too; for the others the
  error fields are zero.  The payload behind is returned unchanged.\<close>
theorem header_roundtrip:
  assumes "0 \<le> pl" "pl < 65536" "0 \<le> dl" "dl < 65536" "pl + dl \<le> int (length payload)"
  shows "if r = ROSCTRAck \<or> r = ROSCTRAckData
    then ParseS7Header (EncodeS7Header r ref pl dl @ [ec, eco] @ payload) =
      Some (Inr ((job_header r ref pl dl)\<lparr>hErrorClass := ec, hErrorCode := eco\<rparr>, payload))
    else ParseS7Header (EncodeS7Header r ref pl dl @ payload) = Some (Inr (job_header r ref pl dl, payload))"
  using ParseS7Header_EncodeS7Header [OF _ _ assms] ParseS7Header_EncodeS7Header_ack [OF _ assms]
  by (auto simp: ack_header_def)

theorem header_roundtrip_witness:
  "ParseS7Header (EncodeS7Header ROSCTRJob 7 2 1 @ [4, 1, 0xFF]) =
     Some (Inr (job_header ROSCTRJob 7 2 1, [4, 1, 0xFF])) \<and>
   ParseS7Header (EncodeS7Header ROSCTRAckData 7 2 0 @ [0x85, 0x01] @ [4, 1]) =
     Some (Inr ((job_header ROSCTRAckData 7 2 0)\<lparr>hErrorClass := 0x85, hErrorCode := 0x01\<rparr>, [4, 1]))"
  using header_roundtrip [where r = ROSCTRJob and ref = 7 and pl = 2 and dl = 1 and payload = "[4, 1, 0xFF]"]
    header_roundtrip [where r = ROSCTRAckData and ref = 7 and pl = 2 and dl = 0 and payload = "[4, 1]" and ec = "0x85" and eco = "0x01"]
  by (simp add: ROSCTRJob_def ROSCTRAck_def ROSCTRAckData_def)

text \<open>C20: \<open>BuildTSAP\<close> accepts exactly racks 0 to 7 and slots 0 to 31, and then the TSAP holds the connection type
  in the high byte, the rack in the upper three and the slot in the lower five bits of the low byte.\<close>
theorem BuildTSAP_correct:
  "((\<exists>t. BuildTSAP ct rack slot = Inr t) \<longleftrightarrow> 0 \<le> rack \<and> rack \<le> 7 \<and> 0 \<le> slot \<and> slot \<le> 31) \<and>
   (case BuildTSAP ct rack slot of Inl _ \<Rightarrow> True | Inr t \<Rightarrow> uint t = 256 * (ct mod 256) + 32 * rack + slot)"
  using BuildTSAP_Inr_iff BuildTSAP_value by (auto split: sum.split)

text \<open>C21: The S7Any address specification is injective on the addresses its fields can hold: two requests with
  the same bytes ask for the same area, data block, start and size.\<close>
theorem S7Any_injective:
  assumes "addressable a" "addressable b" "EncodeS7Any a = EncodeS7Any b"
  shows "a = b"
  by (rule EncodeS7Any_inj [OF assms])

theorem S7Any_injective_witness:
  "EncodeS7Any \<lparr>anyArea = AreaDB, anyDBNumber = 1, anyStart = 3, anySize = 2\<rparr> \<noteq>
   EncodeS7Any \<lparr>anyArea = AreaDB, anyDBNumber = 1, anyStart = 4, anySize = 2\<rparr>"
  using S7Any_injective [of "\<lparr>anyArea = AreaDB, anyDBNumber = 1, anyStart = 3, anySize = 2\<rparr>"
      "\<lparr>anyArea = AreaDB, anyDBNumber = 1, anyStart = 4, anySize = 2\<rparr>"]
  by (auto simp: addressable_def)

text \<open>C22: A Read Var response is decoded item by item: for any list of well-formed items, written with a fill
  byte after every odd payload but the last, \<open>ParseReadVarResponse\<close> returns as many items with the
  same codes, sizes and payloads (the payload of a failed item is dropped).\<close>
theorem read_response_roundtrip:
  assumes "list_all item_wf its" "length its < 256"
  shows "ParseReadVarResponse [FuncReadVar, of_nat (length its)] (encode_items its) = Some (Inr (map visible its))"
  using read_items_encode_items [OF assms(1), of "[]" "[]"] assms(2)
  by (simp add: ParseReadVarResponse_eq unat_of_nat)

theorem read_response_roundtrip_witness:
  "ParseReadVarResponse [FuncReadVar, 2] [0xFF, 0x04, 0, 8, 0xAA, 0, 0xFF, 0x04, 0, 16, 1, 2] =
     Some (Inr [\<lparr>riReturnCode = 0xFF, riRawTransportSize = 4, riRawLength = 8, riData = [0xAA]\<rparr>,
                \<lparr>riReturnCode = 0xFF, riRawTransportSize = 4, riRawLength = 16, riData = [1, 2]\<rparr>])"
proof -
  let ?its = "[\<lparr>riReturnCode = 0xFF, riRawTransportSize = 4, riRawLength = 8, riData = [0xAA]\<rparr>,
    \<lparr>riReturnCode = 0xFF, riRawTransportSize = 4, riRawLength = 16, riData = [1, 2]\<rparr>]"
  have "list_all item_wf ?its" by (simp add: item_wf_def NormalizeResponseDataLength_eq bit_sized_def)
  from read_response_roundtrip [OF this] show ?thesis
    by (simp add: item_bytes_def put16_def visible_def RetCodeSuccess_def)
qed

text \<open>C23: Scalars and strings: decoding the concatenation of encoded INT (16-bit) or DINT (32-bit) values in range
  gives them back in order, encoding inverts decoding on every field of the right width, and an S7 string field
  has the clamped length whatever the value and decodes to the value cut to what fits.\<close>
theorem scalar_roundtrip:
  assumes "list_all (\<lambda>x. - 32768 \<le> x \<and> x < 32768) xs" "list_all (\<lambda>x. - 2147483648 \<le> x \<and> x < 2147483648) ys"
    and "length d2 = 2" "length d4 = 4"
  shows "decode_seq 2 DecodeInt (length xs) (concat (map EncodeInt xs) @ rest) = Some xs \<and>
    decode_seq 4 DecodeDInt (length ys) (concat (map EncodeDInt ys) @ rest) = Some ys \<and>
    map_option EncodeInt (DecodeInt d2) = Some d2 \<and> map_option EncodeDInt (DecodeDInt d4) = Some d4 \<and>
    length (EncodeString val m) = clamp_len m \<and> 2 \<le> clamp_len m \<and> clamp_len m \<le> 256 \<and>
    DecodeString (EncodeString val m @ rest) = Some (take (clamp_len m - 2) val)"
  using int_codec.seq_roundtrip [OF assms(1)] dint_codec.seq_roundtrip [OF assms(2)]
    int_codec.dec_surj [OF assms(3)] dint_codec.dec_surj [OF assms(4)]
  by (auto simp: length_EncodeString clamp_len_bounds DecodeString_EncodeString)

theorem scalar_roundtrip_witness:
  "decode_seq 2 DecodeInt (length [- 1, 500 :: int]) (concat (map EncodeInt [- 1, 500])) = Some [- 1, 500]"
proof -
  have "list_all (\<lambda>x. - 32768 \<le> x \<and> x < 32768) [- 1, 500 :: int]" by simp
  from scalar_roundtrip [OF this, of "[]" "[0, 0]" "[0, 0, 0, 0]" "[]"] show ?thesis by (simp only: append_Nil2) simp
qed

text \<open>C24: Two block operations cannot tell certain blocks apart, whatever the peer and the state of the client.
  \<open>GetBlockInfo\<close> joins the type byte with the upper byte of the number by a bitwise or: on two blocks whose joined
  bytes and lower bytes agree it does the same, ends in the same state and returns the same sizes and
  error, each under the type and number that were asked for.  \<open>UploadBlock\<close> of a system data block does what it does for the data block
  of that number and returns the contents of the data block as those of the system data block.\<close>
theorem block_requests_alias:
  "(m \<in> {0..65535} \<and> n \<in> {0..65535} \<and> m mod 256 = n mod 256 \<and>
      bt OR word_of_int (m div 256) = bt' OR word_of_int (n div 256) \<longrightarrow>
    GetBlockInfo E cx bt' n s =
      apfst (map_option (map_sum id (apfst (\<lambda>i. i\<lparr>biType := bt', biNumber := n\<rparr>)))) (GetBlockInfo E cx bt m s)) \<and>
    UploadBlock E cx BlockSDB num s =
      apfst (map_option (map_sum id (\<lambda>d. d\<lparr>bdInfo := (bdInfo d)\<lparr>biType := BlockSDB\<rparr>\<rparr>))) (UploadBlock E cx BlockDB num s)"
  by (intro conjI impI UploadBlock_SDB GetBlockInfo_coincide) simp_all

theorem block_requests_alias_witness:
  "let E = ex_env szl_step (\<lambda>i x. if x = 0x4300 then [0, 9, 0, 8, 0, 7] else [])
   in \<exists>t. GetBlockInfo E context_background BlockFC 0 ex_client =
        (Some (Inr (zero_BlockInfo\<lparr>biType := BlockFC, biLoadMemory := 9, biLocalData := 8, biMC7Size := 7\<rparr>, None)), t) \<and>
      GetBlockInfo E context_background BlockSDB 256 ex_client =
        (Some (Inr (zero_BlockInfo\<lparr>biType := BlockSDB, biNumber := 256, biLoadMemory := 9, biLocalData := 8,
           biMC7Size := 7\<rparr>, None)), t)"
proof -
  let ?f = "\<lambda>(i :: uint16) (x :: uint16). if x = 0x4300 then [0, 9, 0, 8, 0, 7] else [] :: bytes"
  let ?E = "ex_env szl_step ?f"
  have "(push_bit 8 (ucast BlockFC) OR word_of_int 0 :: uint16) = 0x4300" by (simp add: block_defs)
  then obtain t where "GetBlockInfo ?E context_background BlockFC 0 ex_client =
      (Some (Inr (zero_BlockInfo\<lparr>biType := BlockFC, biLoadMemory := 9, biLocalData := 8, biMC7Size := 7\<rparr>, None)), t)"
    using GetBlockInfo_answers [where cx = context_background and E = ?E and f = ?f and s = ex_client and num = 0
        and bt = BlockFC and d = "[0, 9, 0, 8, 0, 7]"]
    by (auto simp: ex_session be16_def zero_BlockInfo_def)
  moreover have "BlockFC OR word_of_int (0 div 256) = BlockSDB OR word_of_int (256 div 256)"
    by (simp add: block_defs)
  ultimately show ?thesis
    using block_requests_alias [where m = 0 and n = 256 and bt = BlockFC and bt' = BlockSDB and E = ?E
        and cx = context_background and s = ex_client]
    by (simp add: zero_BlockInfo_def)
qed

section \<open>The range scan\<close>

text \<open>C25: Scanning a range that the target serves.  For a valid request on a connected session,
  \<open>ProbeReadableRanges\<close> probes exactly the offsets \<open>Start, Start + step, ..\<close> below \<open>End\<close>, every
  observation holds the memory there, and the whole range comes out as one readable span from
  \<open>Start\<close> to the end of the last probe, with any number of repeats and retries; the memory and the
  session are unchanged.\<close>
theorem scan_serves:
  assumes "ctx_live cx" "serves E m0" "client_inv s" "clConn s \<noteq> None" "24 \<le> clPduSize s" "clPduSize s \<le> 8192"
    and "validateRangeProbeRequest req = None" "rpStart req < rpEnd req" "rpEnd req + scan_step req < 2 ^ 63"
    and "in_range (scan_addr req (rpStart req) 0) (rpEnd req - rpStart req + scan_size req)"
  shows "\<exists>res sp t. ProbeReadableRanges E cx req s = (Some (Inr (res, None)), t) \<and>
    map poOffset (prProbes res) = grid (rpStart req) (rpEnd req) (scan_step req) \<and>
    list_all (\<lambda>ob. rrData (poResult ob) =
      peek (memory_of E m0 s) (rpArea req, rpDBNumber req) (poOffset ob) (nat (scan_size req))) (prProbes res) \<and>
    prSpans res = [sp] \<and> sumReadable (prSummary res) = [sp] \<and> spStatus sp = ReadStatusSuccess \<and>
    spStart sp = rpStart req \<and> spEnd sp = last (grid (rpStart req) (rpEnd req) (scan_step req)) + scan_size req \<and>
    same_session s t \<and> memory_of E m0 t = memory_of E m0 s"
  by (rule ProbeReadableRanges_serves [OF assms])

theorem scan_serves_witness:
  "\<exists>res sp t. ProbeReadableRanges (ex_env plc_exec ex_mem) context_background
      \<lparr>rpArea = AreaDB, rpDBNumber = 1, rpStart = 0, rpEnd = 20, rpStep = 0, rpProbeSize = 8, rpRetries = 1,
       rpRetryDelay = 0, rpRepeat = 2, rpInterval = 0, rpParallelism = 0\<rparr> ex_client = (Some (Inr (res, None)), t) \<and>
    prSpans res = [sp] \<and> spStart sp = 0 \<and> spEnd sp = 24"
proof -
  let ?req = "\<lparr>rpArea = AreaDB, rpDBNumber = 1, rpStart = 0, rpEnd = 20, rpStep = 0, rpProbeSize = 8, rpRetries = 1,
    rpRetryDelay = 0, rpRepeat = 2, rpInterval = 0, rpParallelism = 0\<rparr>"
  have "scan_step ?req = 8" "scan_size ?req = 8" by (simp_all add: scan_step_def scan_size_def)
  moreover have "last (grid 0 20 8) = 16" by (simp add: grid_def upt_rec)
  moreover have "validateRangeProbeRequest ?req = None" by (simp add: validateRangeProbeRequest_def)
  ultimately show ?thesis
    using scan_serves [of context_background "ex_env plc_exec ex_mem" ex_mem ex_client ?req]
    by (fastforce simp: ex_session in_range_def)
qed

text \<open>C26: Spans claim nothing that was not read, and the summary repeats them exactly.  When the step is not larger
  than the probe size and the offsets do not overflow, the spans are the maximal runs of observations with one
  status at step distance, and every address in a span was covered by an observation with the span's status; when
  no observation carries the zero status, the four lists of the summary hold every span exactly once.\<close>
theorem spans_sound:
  assumes "ConsolidateSpans obs step ps = (spans, sm)" "0 < step" "step \<le> ps"
    and "\<forall>ob\<in>set obs. in64 (poOffset ob + step) \<and> in64 (poOffset ob + ps)"
  shows "(\<exists>runs. runs_of step obs runs \<and> spans = map (span_of_run ps) runs) \<and>
    (\<forall>sp\<in>set spans. \<forall>a. spStart sp \<le> a \<and> a < spEnd sp \<longrightarrow>
       (\<exists>ob\<in>set obs. rrStatus (poResult ob) = spStatus sp \<and> poOffset ob \<le> a \<and> a < poOffset ob + ps)) \<and>
    ((\<forall>ob\<in>set obs. rrStatus (poResult ob) \<noteq> ReadStatusUnset) \<longrightarrow>
       mset (sumReadable sm @ sumEmpty sm @ sumFailed sm @ sumInconclusive sm) = mset spans)"
  using ConsolidateSpans_runs [OF assms(1)] spans_probed [OF assms] summary_partition [OF assms(1)] assms(2)
  by (auto simp: eff_step_def)

theorem spans_sound_witness:
  "mset (sumReadable (snd (ConsolidateSpans (map (\<lambda>a. \<lparr>poOffset = a, poRequest = zero_Address,
      poResult = (new_ReadResult 4)\<lparr>rrStatus := ReadStatusSuccess\<rparr>, poStable = None, poAllZero = None\<rparr>) [0, 4, 12]) 4 4)) @
    sumEmpty (snd (ConsolidateSpans (map (\<lambda>a. \<lparr>poOffset = a, poRequest = zero_Address,
      poResult = (new_ReadResult 4)\<lparr>rrStatus := ReadStatusSuccess\<rparr>, poStable = None, poAllZero = None\<rparr>) [0, 4, 12]) 4 4)) @
    sumFailed (snd (ConsolidateSpans (map (\<lambda>a. \<lparr>poOffset = a, poRequest = zero_Address,
      poResult = (new_ReadResult 4)\<lparr>rrStatus := ReadStatusSuccess\<rparr>, poStable = None, poAllZero = None\<rparr>) [0, 4, 12]) 4 4)) @
    sumInconclusive (snd (ConsolidateSpans (map (\<lambda>a. \<lparr>poOffset = a, poRequest = zero_Address,
      poResult = (new_ReadResult 4)\<lparr>rrStatus := ReadStatusSuccess\<rparr>, poStable = None, poAllZero = None\<rparr>) [0, 4, 12]) 4 4))) =
   mset (fst (ConsolidateSpans (map (\<lambda>a. \<lparr>poOffset = a, poRequest = zero_Address,
      poResult = (new_ReadResult 4)\<lparr>rrStatus := ReadStatusSuccess\<rparr>, poStable = None, poAllZero = None\<rparr>) [0, 4, 12]) 4 4))"
proof -
  let ?obs = "map (\<lambda>a. \<lparr>poOffset = a, poRequest = zero_Address,
      poResult = (new_ReadResult 4)\<lparr>rrStatus := ReadStatusSuccess\<rparr>, poStable = None, poAllZero = None\<rparr>) [0, 4, 12]"
  obtain spans sm where run: "ConsolidateSpans ?obs 4 4 = (spans, sm)" by (cases "ConsolidateSpans ?obs 4 4")
  have set': "rrStatus (poResult ob) \<noteq> ReadStatusUnset" if "ob \<in> set ?obs" for ob using that by auto
  from spans_sound [OF run] set' have "mset (sumReadable sm @ sumEmpty sm @ sumFailed sm @ sumInconclusive sm) = mset spans"
    by (simp add: in64_def)
  then show ?thesis unfolding run fst_conv snd_conv .
qed

section \<open>Deadlines\<close>

text \<open>The deadline of a read or write is the earlier of the context's deadline and the connection's
  timeout from now, and there is none exactly when neither is set.\<close>
lemma deadline_is_earliest:
  "(io_deadline now tmo cd = None \<longleftrightarrow> cd = None \<and> tmo \<le> 0) \<and>
   (case io_deadline now tmo cd of None \<Rightarrow> True
    | Some d \<Rightarrow> (cd = Some d \<or> 0 < tmo \<and> d = now + tmo) \<and> (case cd of None \<Rightarrow> True | Some d' \<Rightarrow> d \<le> d') \<and>
        (if 0 < tmo then d \<le> now + tmo else True))"
  using io_deadline_None_iff io_deadline_attained io_deadline_le by (fastforce split: option.split)

section \<open>Connections\<close>

text \<open>C27: A client never leaks a connection: after any sequence of calls of the exported methods on a new client, against
  any peer that keeps to the frame limit, the session is well formed and no connection the client ever dialled is open but
  the one it holds, however many attempts, retries and reconnections there were.  A call that panics counts with the
  state in which it stops.\<close>
theorem at_most_one_connection:
  assumes "frames_bounded E" "heap_wf w" "(client_step E)\<^sup>*\<^sup>* (New host opts w) t"
  shows "client_inv t \<and>
    (\<forall>p. w_next w \<le> p \<and> p < w_next t \<and> tConn (w_conns t p) \<noteq> None \<longrightarrow> clConn t = Some p)"
proof -
  have "client_inv (New host opts w)" by (rule client_inv_New [OF assms(2)])
  from client_steps_tidy [OF assms(3,1) this] have inv: "client_inv t" and "tidy (New host opts w) t" by simp_all
  then have "one_conn (w_next w) t" using one_conn_New unfolding tidy_def by blast
  then show ?thesis using inv unfolding one_conn_def by blast
qed

theorem at_most_one_connection_witness:
  "let E = ex_env plc_exec ex_mem; connect = (\<lambda>s. snd (Connect E context_background s));
       t = connect (connect (New ''plc'' [] ex_world))
   in client_inv t \<and> (\<forall>p. p < w_next t \<and> tConn (w_conns t p) \<noteq> None \<longrightarrow> clConn t = Some p)"
proof -
  let ?E = "ex_env plc_exec ex_mem" and ?s = "New ''plc'' [] ex_world"
  let ?t = "snd (Connect ?E context_background (snd (Connect ?E context_background ?s)))"
  have "(client_step ?E)\<^sup>*\<^sup>* ?s ?t"
    by (intro rtranclp.rtrancl_into_rtrancl [OF r_into_rtranclp]) (rule client_step.Connect)+
  then show ?thesis
    using at_most_one_connection [OF ex_plc_bounded [of ex_mem] ex_world_wf, of "''plc''" "[]" ?t] by (simp add: Let_def ex_world_def)
qed

text \<open>C28: Connecting and reading works end to end: a new client with valid options, against a peer that confirms
  connection requests, accepts the proposed PDU size and serves a memory, connects with the first rack and slot it
  tries, and the read that follows succeeds with exactly the addressed bytes of that memory.\<close>
theorem connect_then_read:
  assumes "heap_wf w" "ctx_live cx" "serves E m0" "greets E" "validate_connect (clOpts (New host opts w)) = None"
    and "24 \<le> oMaxPDU (clOpts (New host opts w))" "oMaxPDU (clOpts (New host opts w)) \<le> 8192"
    and "in_range addr (aSize addr)" "0 \<le> aSize addr"
  shows "\<exists>t rr u. Connect E cx (New host opts w) = (Some (Inr ()), t) \<and>
    (clRack t, clSlot t) = first_choice (clOpts (New host opts w)) \<and> ReadArea E cx addr t = (Some (Inr rr), u) \<and>
    rrStatus rr = ReadStatusSuccess \<and>
    rrData rr = peek (memory_of E m0 w) (key_of addr) (aStart addr) (nat (aSize addr))"
proof -
  let ?s = "New host opts w"
  obtain t where t: "Connect E cx ?s = (Some (Inr ()), t)" "client_inv t" "clConn t \<noteq> None"
    "(clRack t, clSlot t) = first_choice (clOpts ?s)" "clPduSize t = oMaxPDU (clOpts ?s) mod 65536"
    "memory_of E m0 t = memory_of E m0 ?s"
    using Connect_serves [OF client_inv_New [OF assms(1)] assms(2-5)] by auto
  have pdu: "24 \<le> clPduSize t" "clPduSize t \<le> 8192" using assms(6,7) by (simp_all add: t(5))
  have mem: "memory_of E m0 ?s = memory_of E m0 w" by (simp add: state_of_def New_def)
  from ReadArea_serves [OF assms(2,3) t(2,3) pdu assms(8,9)] show ?thesis
    unfolding t(6) mem using t(1,4) by blast
qed

theorem connect_then_read_witness:
  "\<exists>t rr u. Connect (ex_env plc_exec ex_mem) context_background (New ''plc'' [WithRackSlot 0 2] ex_world) =
      (Some (Inr ()), t) \<and> clRack t = 0 \<and> clSlot t = 2 \<and>
    ReadArea (ex_env plc_exec ex_mem) context_background
      \<lparr>aArea = AreaDB, aDBNumber = 1, aStart = 3, aSize = 1000\<rparr> t = (Some (Inr rr), u) \<and> length (rrData rr) = 1000"
proof -
  let ?s = "New ''plc'' [WithRackSlot 0 2] ex_world"
  let ?addr = "\<lparr>aArea = AreaDB, aDBNumber = 1, aStart = 3, aSize = 1000\<rparr>"
  have opts: "clOpts ?s = defaultOptions\<lparr>oRack := 0, oSlot := 2\<rparr>" by (simp add: New_def WithRackSlot_def)
  have conn: "validate_connect (clOpts ?s) = None" "24 \<le> oMaxPDU (clOpts ?s)" "oMaxPDU (clOpts ?s) \<le> 8192"
    "first_choice (clOpts ?s) = (0, 2)"
    unfolding opts by (simp_all add: defaultOptions_def validate_connect_def second_def ValidateRackSlot_def first_choice_def)
  have "in_range ?addr (aSize ?addr)" "0 \<le> aSize ?addr" by (simp_all add: in_range_def)
  from connect_then_read [OF ex_world_wf ctx_background_live ex_env_answers ex_greets conn(1-3) this]
  show ?thesis unfolding conn(4) by fastforce
qed

section \<open>Comparing and probing\<close>

text \<open>C29: The results of \<open>CompareRead\<close> come in the order of the candidates, for every schedule of the workers.  A
  prefix of the candidates was read, each result being what its own worker returned; the rest failed with the
  context's error, and there is a rest only if the context ended.  The answer is that the target ignores rack and
  slot exactly when at least two candidates were read successfully and all returned the same data.\<close>
theorem CompareRead_ordered:
  assumes "\<And>i. frames_bounded (Es i)" "\<And>i. heap_wf (ws i)"
    and "CompareRead Es cxs ws ctxErr sched req = Some (Inr res)"
  shows "map (\<lambda>c. RackSlot (ccRack c) (ccSlot c)) (cmByCandidate res) = crCandidates req \<and>
    (\<exists>k\<le>length (crCandidates req). (Cancel \<in> set sched \<or> k = length (crCandidates req)) \<and>
       (\<forall>i<length (crCandidates req). if i < k
          then compare_work (Es i) (cxs i) req (crCandidates req ! i) (ws i) = Some (cmByCandidate res ! i)
          else cmByCandidate res ! i = compareCandidateFailure (crCandidates req ! i) (crSize req) (Some ctxErr))) \<and>
    (cmRackSlotInsensitive res \<longleftrightarrow> 2 \<le> length (cmByCandidate res) \<and>
       (\<exists>d. \<forall>c\<in>set (cmByCandidate res). rrStatus (ccResult c) = ReadStatusSuccess \<and> rrData (ccResult c) = d))"
proof -
  obtain k where k: "k \<le> length (crCandidates req)"
    "cmByCandidate res = map (compare_result Es cxs ws ctxErr req k) [0..<length (crCandidates req)]"
    "cmRackSlotInsensitive res = all_agree (cmByCandidate res)" "Cancel \<in> set sched \<or> k = length (crCandidates req)"
    using CompareRead_spec [OF assms(3,1,2)] by blast
  note one = compare_result_of [where Es = Es and ws = ws and cxs = cxs and ctxErr = ctxErr and req = req and k = k, OF assms(1,2)]
  have "map (\<lambda>c. RackSlot (ccRack c) (ccSlot c)) (cmByCandidate res) = crCandidates req"
    using one(1) by (intro nth_equalityI) (simp_all add: k(2))
  moreover have "\<forall>i<length (crCandidates req). if i < k
      then compare_work (Es i) (cxs i) req (crCandidates req ! i) (ws i) = Some (cmByCandidate res ! i)
      else cmByCandidate res ! i = compareCandidateFailure (crCandidates req ! i) (crSize req) (Some ctxErr)"
    using one(2) by (simp add: k(2) compare_result_def)
  ultimately show ?thesis using k(1,3,4) by (auto simp: all_agree_iff)
qed

theorem CompareRead_ordered_witness:
  "\<exists>sched res. CompareRead (\<lambda>_. ex_env plc_exec ex_mem) (\<lambda>_. context_background) (\<lambda>_. ex_world) (Sentinel DeadlineExceeded)
      sched ex_compare = Some (Inr res) \<and>
    map (\<lambda>c. RackSlot (ccRack c) (ccSlot c)) (cmByCandidate res) = [RackSlot 0 2, RackSlot 0 1, RackSlot 1 3]"
proof -
  note wf = ex_world_wf
  obtain sched res where run: "CompareRead (\<lambda>_. ex_env plc_exec ex_mem) (\<lambda>_. context_background) (\<lambda>_. ex_world)
      (Sentinel DeadlineExceeded) sched ex_compare = Some (Inr res)"
    using CompareRead_completes [where Es = "\<lambda>_. ex_env plc_exec ex_mem" and ws = "\<lambda>_. ex_world", OF ex_plc_bounded wf ex_compare_valid] by blast
  have "map (\<lambda>c. RackSlot (ccRack c) (ccSlot c)) (cmByCandidate res) = crCandidates ex_compare"
    using CompareRead_ordered [OF _ _ run] ex_plc_bounded wf by blast
  moreover have "crCandidates ex_compare = [RackSlot 0 2, RackSlot 0 1, RackSlot 1 3]" by (simp add: ex_compare_def)
  ultimately show ?thesis using run by metis
qed

text \<open>C30: When every candidate reaches the same memory, \<open>CompareRead\<close> finds out: some schedule of the workers
  completes without the context ending, and every such schedule ends with all candidates read, the same data in
  each, and the answer that the target ignores rack and slot.\<close>
theorem CompareRead_same_memory:
  assumes "validateCompareReadRequest req = None" "2 \<le> length (crCandidates req)"
    and "in_range (compare_address req) (crSize req)"
    and "\<And>i. ctx_live (cxs i)" "\<And>i. serves (Es i) (ms i)" "\<And>i. greets (Es i)" "\<And>i. heap_wf (ws i)"
    and "\<And>i. frames_bounded (Es i)"
    and "\<And>i. peek (memory_of (Es i) (ms i) (ws i)) (crArea req, crDBNumber req) (crOffset req) (nat (crSize req)) = d"
  shows "(\<exists>sched res. Cancel \<notin> set sched \<and> CompareRead Es cxs ws ctxErr sched req = Some (Inr res)) \<and>
    (\<forall>sched res. Cancel \<notin> set sched \<and> CompareRead Es cxs ws ctxErr sched req = Some (Inr res) \<longrightarrow>
       cmRackSlotInsensitive res \<and> (\<forall>c\<in>set (cmByCandidate res). rrData (ccResult c) = d))"
  proof (intro conjI allI impI)
  show "\<exists>sched res. Cancel \<notin> set sched \<and> CompareRead Es cxs ws ctxErr sched req = Some (Inr res)"
    by (rule CompareRead_completes [OF assms(8,7,1)])
next
  fix sched res
  assume "Cancel \<notin> set sched \<and> CompareRead Es cxs ws ctxErr sched req = Some (Inr res)"
  then have "CompareRead Es cxs ws ctxErr sched req = Some (Inr res)" "Cancel \<notin> set sched" by simp_all
  from CompareRead_serves [OF this assms(2-9)]
  show "cmRackSlotInsensitive res" "\<forall>c\<in>set (cmByCandidate res). rrData (ccResult c) = d" by simp_all
qed

theorem CompareRead_same_memory_witness:
  "\<exists>sched res. CompareRead (\<lambda>_. ex_env plc_exec ex_mem) (\<lambda>_. context_background) (\<lambda>_. ex_world) (Sentinel DeadlineExceeded)
      sched ex_compare = Some (Inr res) \<and> cmRackSlotInsensitive res"
proof -
  note wf = ex_world_wf
  have "2 \<le> length (crCandidates ex_compare)" "in_range (compare_address ex_compare) (crSize ex_compare)"
    by (simp_all add: ex_compare_def in_range_def compare_address_def)
  from CompareRead_same_memory [where Es = "\<lambda>_. ex_env plc_exec ex_mem" and ws = "\<lambda>_. ex_world" and ms = "\<lambda>_. ex_mem"
      and cxs = "\<lambda>_. context_background",
      OF ex_compare_valid this ctx_background_live ex_env_answers ex_greets wf ex_plc_bounded refl]
  show ?thesis by blast
qed

text \<open>C31: The worker pools neither overrun nor hang.  At every moment of every schedule of \<open>CompareRead\<close> at most as
  many workers run as the request allows, and at every moment of \<open>Discover\<close> at most as many hosts are probed and
  jobs buffered as its options allow; a schedule that has not finished can go on without the context ending; and no
  schedule is longer than three actions a candidate, or four a host and one more a worker and for the close.\<close>
theorem pools_end:
  assumes "\<And>i. frames_bounded (Es i)" "\<And>i. heap_wf (ws i)" "\<And>i. heap_wf (hvWorld (vs i))" "doJitterMS o' < 2 ^ 63 - 1"
    and "pool_run (compare_pool Es cxs ws ctxErr req) sched (pool_init (compare_pool Es cxs ws ctxErr req)) = Some p"
    and "pipe_run (discover_pipe vs o' ips) steps (pipe_init (discover_pipe vs o' ips)) = Some q"
  shows "length (wpRunning p) \<le> nat (max 1 (crParallelism req)) \<and>
    (pool_finished p \<or> (\<exists>a. a \<noteq> Cancel \<and> pool_act (compare_pool Es cxs ws ctxErr req) a p \<noteq> None)) \<and>
    length (filter (\<lambda>a. a \<noteq> Cancel) sched) \<le> 3 * length (crCandidates req) \<and>
    length (jqBusy q) \<le> nat (max 1 (doParallel o')) \<and> length (jqQueue q) \<le> 2 * nat (max 1 (doParallel o')) \<and>
    (pipe_finished q \<or> (\<exists>a. a \<noteq> CancelContext \<and> pipe_step (discover_pipe vs o' ips) a q \<noteq> None)) \<and>
    length (filter (\<lambda>a. a \<noteq> CancelContext) steps) \<le> 4 * length ips + 1 + nat (max 1 (doParallel o'))"
  using compare_pool_ends [OF assms(1,2,5)] discover_pipe_ends [OF assms(3,4,6)] by blast

theorem pools_end_witness:
  "\<exists>p q. pool_run ex_compare_pool [Start, Start] (pool_init ex_compare_pool) = Some p \<and>
    pipe_run ex_discover_pipe [Produce, Take, Produce] (pipe_init ex_discover_pipe) = Some q \<and>
    length (wpRunning p) \<le> 2 \<and> length (jqQueue q) \<le> 20 \<and>
    (pool_finished p \<or> (\<exists>a. a \<noteq> Cancel \<and> pool_act ex_compare_pool a p \<noteq> None))"
proof -
  obtain p q where run: "pool_run ex_compare_pool [Start, Start] (pool_init ex_compare_pool) = Some p"
    "pipe_run ex_discover_pipe [Produce, Take, Produce] (pipe_init ex_discover_pipe) = Some q"
    using ex_compare_starts ex_discover_starts by blast
  have "doJitterMS default_discoverOpts < 2 ^ 63 - 1" by (simp add: default_discoverOpts_def)
  from pools_end [OF ex_plc_bounded ex_world_wf ex_view_wf this run [unfolded ex_compare_pool_def ex_discover_pipe_def]]
  have "length (wpRunning p) \<le> 2" "length (jqQueue q) \<le> 20"
    "pool_finished p \<or> (\<exists>a. a \<noteq> Cancel \<and> pool_act ex_compare_pool a p \<noteq> None)"
    unfolding ex_compare_pool_def by (simp_all add: ex_compare_def default_discoverOpts_def)
  then show ?thesis using run by blast
qed

text \<open>C32: Probing one rack and slot is safe for the peer and for the process.  It never panics, what it reports is
  consistent (the status goes with one stage and one confidence, a confirmation is named exactly when the candidate
  was confirmed by a query, and that only in strict mode), the connection it opened is closed whatever happened and no other is
  touched; and every frame it sent is a connection request, the fixed set-up request or a read of one of three
  status lists: a probe never writes.\<close>
theorem probeOne_safe:
  assumes "frames_bounded E" "heap_wf s"
  shows "\<exists>c t evs. probeOne E cx req rack slot s = (Some (Inr c), t) \<and> candidate_wf req rack slot c \<and>
    (\<forall>p<w_next s. w_conns t p = w_conns s p) \<and>
    (\<forall>p. w_next s \<le> p \<and> p < w_next t \<longrightarrow> tConn (w_conns t p) = None) \<and>
    w_trace t = w_trace s @ evs \<and>
    (\<forall>(k, d)\<in>set (tx_of evs). probe_frame E d)"
proof -
  obtain c t where run: "probeOne E cx req rack slot s = (Some (Inr c), t)"
    "\<And>p. p < w_next s \<Longrightarrow> w_conns t p = w_conns s p"
    "\<And>p. w_next s \<le> p \<Longrightarrow> p < w_next t \<Longrightarrow> tConn (w_conns t p) = None"
    by (rule probeOne_run [OF assms(2,1), of cx req rack slot]) blast
  have "candidate_wf req rack slot c"
    using probeOne_candidate [of req rack slot E cx] run(1) by (fastforce simp: yields_def)
  moreover obtain evs where "w_trace t = w_trace s @ evs"
    "\<forall>(k, d)\<in>set (tx_of evs). probe_frame E d"
    using tx_only_probeOne [of E s cx req rack slot] run(1) by (auto simp: tx_only_def)
  ultimately show ?thesis using run by blast
qed

theorem probeOne_safe_witness:
  "\<exists>c t. probeOne (ex_env plc_exec ex_mem) context_background (ex_probe\<lparr>rqStrict := True\<rparr>) 0 2 ex_world =
      (Some (Inr c), t) \<and> candidate_wf (ex_probe\<lparr>rqStrict := True\<rparr>) 0 2 c \<and>
    (\<forall>p<w_next t. tConn (w_conns t p) = None)"
  using probeOne_safe [OF ex_plc_bounded ex_world_wf, of ex_mem context_background "ex_probe\<lparr>rqStrict := True\<rparr>" 0 2]
  by (fastforce simp: ex_world_def)

text \<open>C33: What \<open>ProbeRackSlots\<close> reports, for every schedule: one entry for each rack and slot of the request, in
  ascending order; a prefix of at most the allowed number of attempts was probed, each entry being what the probe of
  its own candidate returned, and the rest is unset; the prefix is short only if the context ended or a probed
  candidate stopped the run.  The valid candidates are those entries that the mode accepts, in the same order, and
  the counters agree with them.\<close>
theorem ProbeRackSlots_reports:
  assumes "ProbeRackSlots rnd Es cxs ws ctxErr sched req0 = Some (Inr (res, err))"
    and "\<And>i. frames_bounded (Es i)" "\<And>i. heap_wf (ws i)" "req = applyProbeDefaults req0"
  shows "set (probe_jobs req) =
      {RackSlot r s |r s. r \<in> {rqRackMin req..rqRackMax req} \<and> s \<in> {rqSlotMin req..rqSlotMax req}} \<and>
    sorted_wrt (<) (probe_jobs req) \<and>
    (\<exists>k\<le>max_jobs req. length (psCandidates res) = length (probe_jobs req) \<and>
       (\<forall>i<length (probe_jobs req). if i < k
          then probe_work (Es i) (cxs i) req (probe_jobs req ! i) (ws i) = Some (psCandidates res ! i) \<and>
               candidate_wf req (rsRack (probe_jobs req ! i)) (rsSlot (probe_jobs req ! i)) (psCandidates res ! i)
          else psCandidates res ! i = zero_RackSlotCandidate) \<and>
       (k = max_jobs req \<or> Cancel \<in> set sched \<or> (\<exists>i<k. probe_stops req (psCandidates res ! i)))) \<and>
    psValid res = filter (\<lambda>c. if rqStrict req then cdStatus c = StatusValidQuery else setup_accepted c) (psCandidates res) \<and>
    int (length (psValid res)) = (if rqStrict req then psConfirmedByQuery res else psSetupAccepted res) \<and> err = ctxErr"
  by (intro conjI) (rule probe_jobs_set_eq, rule probe_jobs_sorted, insert ProbeRackSlots_entries [OF assms], blast+)

theorem ProbeRackSlots_reports_witness:
  "\<exists>sched res. ProbeRackSlots (\<lambda>k n. 0) (\<lambda>_. ex_env plc_exec ex_mem) (\<lambda>_. context_background) (\<lambda>_. ex_world) None sched
      ex_probe = Some (Inr (res, None)) \<and> length (psCandidates res) = 256 \<and>
    int (length (psValid res)) = psSetupAccepted res"
proof -
  have v: "rqJitterMS (applyProbeDefaults ex_probe) < 2 ^ 63 - 1"
    "validateRackSlotProbeRequest (applyProbeDefaults ex_probe) = None"
    by (simp_all add: ex_probe_defaults ex_probe_valid) (simp add: ex_probe_def DefaultRackSlotProbeRequest_def)
  obtain sched res where run: "ProbeRackSlots (\<lambda>k n. 0) (\<lambda>_. ex_env plc_exec ex_mem) (\<lambda>_. context_background)
      (\<lambda>_. ex_world) None sched ex_probe = Some (Inr (res, None))"
    using ProbeRackSlots_completes [where Es = "\<lambda>_. ex_env plc_exec ex_mem" and ws = "\<lambda>_. ex_world",
      OF ex_plc_bounded ex_world_wf v] by blast
  have "\<not> rqStrict ex_probe" by (simp add: ex_probe_def DefaultRackSlotProbeRequest_def)
  then show ?thesis
    using run ProbeRackSlots_reports [OF run ex_plc_bounded ex_world_wf refl] by (auto simp: ex_probe_defaults ex_probe_jobs)
qed

text \<open>C34: A probe run is paced.  At every moment of every schedule no more candidates are in flight than the request's
  parallelism, and the delays that have elapsed pay for every start but the first with at least the configured delay;
  in conservative mode, when the request sets none, that delay is 50 ms.\<close>
theorem probe_paced:
  assumes "pool_run (probe_pool rnd Es cxs ws req) sched (pool_init (probe_pool rnd Es cxs ws req)) = Some p"
    and "req = applyProbeDefaults req0" "validateRackSlotProbeRequest req = None"
    and "rqJitterMS req < 2 ^ 63 - 1" "rqDelayMS req * millisecond < 2 ^ 63"
  shows "int (length (wpRunning p)) \<le> rqParallelism req \<and>
    (int (wpNext p) - 1) * (rqDelayMS req * millisecond) \<le> wpWaited p \<and>
    (rqSafetyMode req0 = SafetyConservative \<and> rqDelayMS req0 = 0 \<longrightarrow> rqDelayMS req = 50)"
proof -
  have delay: "0 \<le> rqDelayMS req"
    using assms(3) by (auto simp: validateRackSlotProbeRequest_def split: if_splits)
  from probe_delays [OF assms(1) [unfolded assms(2)] assms(4) [unfolded assms(2)] delay [unfolded assms(2)]
      assms(5) [unfolded assms(2)]]
  show ?thesis
    using applyProbeDefaults_parallel [of req0] unfolding assms(2)
    by (auto simp: applyProbeDefaults_def Let_def SafetyConservative_def)
qed

theorem probe_paced_witness:
  "\<exists>p. pool_run ex_gentle_pool [Poll, Start, Poll, Elapse, Start] (pool_init ex_gentle_pool) = Some p \<and>
    length (wpRunning p) \<le> 2 \<and> 50 * millisecond \<le> wpWaited p"
proof -
  obtain p where p: "pool_run ex_gentle_pool [Poll, Start, Poll, Elapse, Start] (pool_init ex_gentle_pool) = Some p"
    "wpNext p = 2"
    using ex_gentle_starts by blast
  from probe_paced [OF p(1) [unfolded ex_gentle_pool_def] refl] show ?thesis
    using p by (auto simp: ex_gentle_facts millisecond_def)
qed

text \<open>C35: A strict probe whose request leaves the confirmation unset confirms nothing: whatever the targets answer, and
  for every schedule, the list of valid candidates is empty.  The default that turns strict mode's missing strategy
  into \<open>ConfirmAny\<close> only replaces the explicit \<open>ConfirmNone\<close>.\<close>
theorem strict_unset_finds_nothing:
  assumes "\<And>i. frames_bounded (Es i)" "\<And>i. heap_wf (ws i)" "rqStrict req0" "rqConfirm req0 = ''''"
    and "ProbeRackSlots rnd Es cxs ws ctxErr sched req0 = Some (Inr (res, err))"
  shows "psValid res = [] \<and> psConfirmedByQuery res = 0"
  by (rule strict_unset_no_candidate [OF assms])

theorem strict_unset_finds_nothing_witness:
  "\<exists>sched res. ProbeRackSlots (\<lambda>k n. 0) (\<lambda>_. ex_env plc_exec ex_mem) (\<lambda>_. context_background) (\<lambda>_. ex_world) None sched
      (ex_probe\<lparr>rqStrict := True\<rparr>) = Some (Inr (res, None)) \<and> psValid res = []"
proof -
  have "rqJitterMS (applyProbeDefaults (ex_probe\<lparr>rqStrict := True\<rparr>)) < 2 ^ 63 - 1"
    by (simp add: ex_probe_defs)
  from ProbeRackSlots_completes [where Es = "\<lambda>_. ex_env plc_exec ex_mem" and ws = "\<lambda>_. ex_world",
      OF ex_plc_bounded ex_world_wf this ex_probe_strict_valid]
  obtain sched res where run: "ProbeRackSlots (\<lambda>k n. 0) (\<lambda>_. ex_env plc_exec ex_mem) (\<lambda>_. context_background)
      (\<lambda>_. ex_world) None sched (ex_probe\<lparr>rqStrict := True\<rparr>) = Some (Inr (res, None))"
    by blast
  have "rqStrict (ex_probe\<lparr>rqStrict := True\<rparr>)" "rqConfirm (ex_probe\<lparr>rqStrict := True\<rparr>) = ''''"
    by (simp_all add: ex_probe_def DefaultRackSlotProbeRequest_def)
  from strict_unset_finds_nothing [OF ex_plc_bounded ex_world_wf this run] run show ?thesis by blast
qed

section \<open>Discovery\<close>

text \<open>C36: \<open>streamCIDR\<close> on the text of an IPv4 block sends exactly the host addresses of the block, in ascending order,
  until the receiver stops: the addresses with the block's prefix, without the network and the broadcast address when
  there are more than two.  It refuses blocks larger than /12 with a validation error before it sends anything, and
  returns the context's error exactly when the receiver stopped it.\<close>
theorem streamCIDR_hosts:
  assumes "n \<le> 32"
  shows "streamCIDR L ctxErr (cidr_text L w n) send a =
    (if n < 12 then (Some (ValidationError (''CIDR too large for discovery (max /12): '' @ cidr_text L w n)), a)
     else case send_all send (block_hosts L (w AND net_mask (32 - n)) (32 - n)) a of
            (True, a) \<Rightarrow> (None, a) | (False, a) \<Rightarrow> (ctxErr, a))"
  by (rule streamCIDR_text [OF assms])

theorem streamCIDR_hosts_witness:
  "streamCIDR ex_ip6 None ''10.0.0.5/30'' (\<lambda>ip ips. (True, ips @ [ip])) [] = (None, [''10.0.0.5'', ''10.0.0.6''])"
  using streamCIDR_hosts [of 30 ex_ip6 None "0x0A000005" "\<lambda>ip ips. (True, ips @ [ip])" "[]"]
  unfolding ex_cidr ex_cidr_hosts by simp

text \<open>C37: \<open>expandCIDR\<close> and \<open>streamCIDR\<close> agree: on the text of an IPv4 block the eager expansion returns the addresses the
  stream sends when nothing stops it, wherever the stream accepts the block; and on /0 the expansion never returns.\<close>
theorem expand_equals_stream:
  assumes "n \<le> 32"
  shows "expandCIDR L (cidr_text L w n) =
      (if n = 0 then None else Some (Inr (block_hosts L (w AND net_mask (32 - n)) (32 - n)))) \<and>
    (12 \<le> n \<longrightarrow> expandCIDR L (cidr_text L w n) = Some (Inr (cidr_addresses L (cidr_text L w n))))"
  using expandCIDR_text [OF assms] cidr_addresses_text [of n L w] assms by simp

theorem expand_equals_stream_witness:
  "expandCIDR ex_ip6 ''10.0.0.5/30'' = Some (Inr (cidr_addresses ex_ip6 ''10.0.0.5/30''))"
proof -
  have "(30 :: nat) \<le> 32" "(12 :: nat) \<le> 30" by simp_all
  then show ?thesis using expand_equals_stream [of 30 ex_ip6 "0x0A000005"] unfolding ex_cidr by blast
qed

text \<open>C38: The probe of one discovered host is bounded and tidy: it never panics, it dials at most as many times as the
  limit on attempts (and never more often than there are racks and slots to try), it closes every connection it opened,
  and its result is consistent: a device is reported with a rack and slot of the request, the TSAP built from them and no
  error, anything else with the reason the probe gave up.\<close>
theorem probeS7_bounded:
  assumes "heap_wf s" "doJitterMS o' < 2 ^ 63 - 1"
  shows "\<exists>r t. probeS7 rnd E cx ip port o' s = (Some (Inr r), t) \<and>
    dials t \<le> dials s + nat ((doRackMax o' - doRackMin o' + 1)) * nat ((doSlotMax o' - doSlotMin o' + 1)) \<and>
    (0 < doMaxAttemptsPerHost o' \<longrightarrow> int (dials t) \<le> int (dials s) + doMaxAttemptsPerHost o') \<and>
    (\<forall>p<w_next s. w_conns t p = w_conns s p) \<and>
    (\<forall>p. w_next s \<le> p \<and> p < w_next t \<longrightarrow> tConn (w_conns t p) = None) \<and>
    host_result ip port ({doRackMin o'..doRackMax o'} \<times> {doSlotMin o'..doSlotMax o'}) r"
proof -
  obtain r t where run: "probeS7 rnd E cx ip port o' s = (Some (Inr r), t)"
    "probed (attempts_left o' 0 (length (discover_pairs o'))) s t" "host_result ip port (set (discover_pairs o')) r"
    using probeS7_run [OF assms] by blast
  have "attempts_left o' 0 (length (discover_pairs o')) \<le> length (discover_pairs o')"
    "0 < doMaxAttemptsPerHost o' \<Longrightarrow> int (attempts_left o' 0 (length (discover_pairs o'))) \<le> doMaxAttemptsPerHost o'"
    by (simp_all add: attempts_left_def)
  then show ?thesis using run by (fastforce simp: probed_def discover_pairs_set discover_pairs_length)
qed

theorem probeS7_bounded_witness:
  "\<exists>r t. probeS7 (\<lambda>k n. 0) (ex_env plc_exec ex_mem) context_background ''10.0.0.5'' 102
      (default_discoverOpts\<lparr>doMaxAttemptsPerHost := 2\<rparr>) ex_world = (Some (Inr r), t) \<and> dials t \<le> 2"
  using probeS7_bounded [OF ex_world_wf, of "default_discoverOpts\<lparr>doMaxAttemptsPerHost := 2\<rparr>" "\<lambda>k n. 0"
      "ex_env plc_exec ex_mem" context_background "''10.0.0.5''" 102]
  by (fastforce simp: default_discoverOpts_def ex_world_def dials_def)

text \<open>C39: \<open>Discover\<close> gives one result for each host address of the block.  With valid options and an accepted block some
  schedule completes without the context ending, and every schedule that does ends with the results in the order of the
  addresses, each the consistent outcome of the probe of its own host; when the context ended, a host may be left
  without a result.\<close>
theorem Discover_ordered:
  assumes "\<And>i. heap_wf (hvWorld (vs i))" "doJitterMS (discover_options opts) < 2 ^ 63 - 1"
  shows "(validate_discover (discover_options opts) = None \<and> (\<exists>b. check_block L cidr = Inr b) \<longrightarrow>
      (\<exists>sched results. CancelContext \<notin> set sched \<and>
         Discover L vs None ctxErr None sched cidr opts = Some (Inr (results, None)))) \<and>
    (\<forall>sched results err cancelAt finalErr.
      Discover L vs cancelAt ctxErr finalErr sched cidr opts = Some (Inr (results, err)) \<longrightarrow>
        (CancelContext \<notin> set sched \<longrightarrow> map drIP results = cidr_addresses L cidr) \<and>
        length results = length (cidr_addresses L cidr) \<and>
        (\<forall>i<length results. results ! i = zero_DiscoverResult \<and> CancelContext \<in> set sched \<or>
           host_result (cidr_addresses L cidr ! i) 102 (set (discover_pairs (discover_options opts))) (results ! i)))"
proof (intro conjI allI impI)
  assume "validate_discover (discover_options opts) = None \<and> (\<exists>b. check_block L cidr = Inr b)"
  then obtain b where "validate_discover (discover_options opts) = None" "check_block L cidr = Inr b" by blast
  from Discover_completes [where vs = vs, OF assms this]
  show "\<exists>sched results. CancelContext \<notin> set sched \<and>
      Discover L vs None ctxErr None sched cidr opts = Some (Inr (results, None))" .
next
  fix sched results err cancelAt finalErr
  assume "Discover L vs cancelAt ctxErr finalErr sched cidr opts = Some (Inr (results, err))"
  then show "map drIP results = cidr_addresses L cidr" if "CancelContext \<notin> set sched"
    using Discover_addresses [OF _ assms that] by simp
qed (use Discover_spec [where vs = vs, OF _ assms] in blast)+

theorem Discover_ordered_witness:
  "\<exists>sched results. Discover ex_ip6 (\<lambda>_. ex_view) None (Sentinel DeadlineExceeded) None sched ''10.0.0.5/30'' [] =
      Some (Inr (results, None)) \<and> map drIP results = [''10.0.0.5'', ''10.0.0.6'']"
proof -
  have "doJitterMS (discover_options []) < 2 ^ 63 - 1" by (simp add: ex_discover_options default_discoverOpts_def)
  from Discover_ordered [OF ex_view_wf this] show ?thesis
    using ex_discover_valid ex_check_block ex_addresses by metis
qed

text \<open>C40: \<open>Discover\<close> finds what is there: in a run that completes without the context ending, every host that takes the
  connection, grants the set-up and serves a memory is reported as an S7 device at the first rack and slot of the
  range, with its own address and the PDU size it negotiated.\<close>
theorem Discover_finds:
  assumes "Discover L vs cancelAt ctxErr finalErr sched cidr opts = Some (Inr (results, err))" "CancelContext \<notin> set sched"
    and "\<And>i. heap_wf (hvWorld (vs i))" "doJitterMS (discover_options opts) < 2 ^ 63 - 1"
    and "ValidateRackSlot (doRackMin (discover_options opts)) (doSlotMin (discover_options opts)) = None"
    and "0 \<le> wrap64 (doTimeout (discover_options opts) * millisecond)"
    and "i < length results" "ctx_live (hvCtx (vs i))" "serves (hvEnv (vs i)) m" "greets (hvEnv (vs i))"
  shows "drIP (results ! i) = cidr_addresses L cidr ! i \<and> drIsS7 (results ! i) \<and>
    drRack (results ! i) = doRackMin (discover_options opts) \<and> drSlot (results ! i) = doSlotMin (discover_options opts) \<and>
    drPDUSize (results ! i) = 480"
  by (rule Discover_live [OF assms])

theorem Discover_finds_witness:
  "\<exists>sched results. Discover ex_ip6 (\<lambda>_. ex_view) None (Sentinel DeadlineExceeded) None sched ''10.0.0.5/30'' [] =
      Some (Inr (results, None)) \<and> drIsS7 (results ! 1) \<and> drIP (results ! 1) = ''10.0.0.6''"
proof -
  have o': "doJitterMS (discover_options []) < 2 ^ 63 - 1" "0 \<le> wrap64 (doTimeout (discover_options []) * millisecond)"
    "ValidateRackSlot (doRackMin (discover_options [])) (doSlotMin (discover_options [])) = None"
    by (simp_all add: ex_discover_options default_discoverOpts_def ValidateRackSlot_def wrap64_id in64_def millisecond_def)
  obtain sched results where run: "CancelContext \<notin> set sched"
    "Discover ex_ip6 (\<lambda>_. ex_view) None (Sentinel DeadlineExceeded) None sched ''10.0.0.5/30'' [] = Some (Inr (results, None))"
    using Discover_completes [OF ex_view_wf o'(1) ex_discover_valid] ex_check_block by blast
  have i: "1 < length results"
    using Discover_spec [OF run(2) ex_view_wf o'(1)] by (simp add: ex_addresses)
  have "ctx_live (hvCtx ex_view)" "serves (hvEnv ex_view) ex_mem" "greets (hvEnv ex_view)"
    by (simp_all add: ex_view_def ctx_background_live ex_env_answers ex_greets)
  from Discover_finds [OF run(2,1) ex_view_wf o'(1,3,2) i this] show ?thesis
    using run(2) by (auto simp: ex_addresses)
qed

end
